(* ===== verification/Prelude.thy ===== *)
theory Prelude
  imports Main "HOL-Library.Char_ord" "HOL-Library.List_Lexorder" "HOL-Library.Multiset"
    "HOL-Library.Word"
begin

text \<open>
  Shared base of the development: the error type that stands for \<open>anyhow::Error\<close>, the
  combinators for \<open>Result\<close> values (\<open>?\<close>, \<open>with_context\<close>, \<open>collect\<close>), and Rust's
  signed 64-bit arithmetic with its wrap-around and truncating division.
\<close>

named_theorems res_simps "inversion rules for the combinators on results"
named_theorems table_simps "what the SQL statements do to a table"
named_theorems str_eval "equations that let the simplifier evaluate string functions"

section \<open>Errors and results\<close>

text \<open>
  \<open>Bail\<close> is a message made by the program (\<open>bail!\<close>, \<open>anyhow!\<close>); the two violation
  constructors are what SQLite reports for a broken \<open>UNIQUE\<close> or \<open>REFERENCES\<close>
  constraint; \<open>Context\<close> is a cause wrapped by \<open>with_context\<close>; \<open>External\<close> is an
  error of the standard library, of openssl or of a crate, with its text.
\<close>

datatype error =
    Bail string
  | Unique_violation string
  | Foreign_key_violation
  | Context string error
  | External string

type_synonym 'a result = "error + 'a"

text \<open>\<open>to_string()\<close> of an \<open>anyhow::Error\<close>: the outermost message only.\<close>

fun error_text :: "error \<Rightarrow> string" where
  "error_text (Bail m) = m"
| "error_text (Unique_violation c) = ''UNIQUE constraint failed: '' @ c"
| "error_text Foreign_key_violation = ''FOREIGN KEY constraint failed''"
| "error_text (Context m e) = m"
| "error_text (External m) = m"

definition bind_res :: "'a result \<Rightarrow> ('a \<Rightarrow> 'b result) \<Rightarrow> 'b result" where
  "bind_res r f = (case r of Inl e \<Rightarrow> Inl e | Inr a \<Rightarrow> f a)"

definition ok_or :: "error \<Rightarrow> 'a option \<Rightarrow> 'a result" where
  "ok_or e x = (case x of None \<Rightarrow> Inl e | Some a \<Rightarrow> Inr a)"

definition with_context :: "string \<Rightarrow> 'a result \<Rightarrow> 'a result" where
  "with_context m r = (case r of Inl e \<Rightarrow> Inl (Context m e) | Inr a \<Rightarrow> Inr a)"

definition unwrap_or :: "'a \<Rightarrow> 'a result \<Rightarrow> 'a" where
  "unwrap_or d r = (case r of Inl _ \<Rightarrow> d | Inr a \<Rightarrow> a)"

definition is_ok :: "'a result \<Rightarrow> bool" where
  "is_ok r = (case r of Inl _ \<Rightarrow> False | Inr _ \<Rightarrow> True)"

definition res_ok :: "'a result \<Rightarrow> 'a option" where
  "res_ok r = (case r of Inl _ \<Rightarrow> None | Inr a \<Rightarrow> Some a)"

text \<open>\<open>iter.map(f).collect::<Result<Vec<_>>>()\<close>: the first error stops it.\<close>

fun map_res :: "('a \<Rightarrow> 'b result) \<Rightarrow> 'a list \<Rightarrow> 'b list result" where
  "map_res f [] = Inr []"
| "map_res f (x # xs) =
     bind_res (f x) (\<lambda>y. bind_res (map_res f xs) (\<lambda>ys. Inr (y # ys)))"

text \<open>A loop whose body may return early with an error, threading a state.\<close>

fun fold_res :: "('a \<Rightarrow> 's \<Rightarrow> 's result) \<Rightarrow> 'a list \<Rightarrow> 's \<Rightarrow> 's result" where
  "fold_res f [] s = Inr s"
| "fold_res f (x # xs) s = bind_res (f x s) (fold_res f xs)"

lemma bind_res_Inl [simp]: "bind_res (Inl e) f = Inl e"
  by (simp add: bind_res_def)

lemma bind_res_Inr [simp]: "bind_res (Inr a) f = f a"
  by (simp add: bind_res_def)

lemma bind_res_eq_Inr [res_simps]:
  "bind_res r f = Inr b \<longleftrightarrow> (\<exists>a. r = Inr a \<and> f a = Inr b)"
  by (cases r) auto

lemma bind_res_eq_Inl [res_simps]:
  "bind_res r f = Inl e \<longleftrightarrow> r = Inl e \<or> (\<exists>a. r = Inr a \<and> f a = Inl e)"
  by (cases r) auto

lemma bind_res_assoc: "bind_res (bind_res r f) g = bind_res r (\<lambda>a. bind_res (f a) g)"
  by (cases r) auto

lemma ok_or_simps [simp]: "ok_or e None = Inl e" "ok_or e (Some a) = Inr a"
  by (simp_all add: ok_or_def)

lemma ok_or_eq [res_simps]:
  "ok_or e x = Inr a \<longleftrightarrow> x = Some a" "ok_or e x = Inl e' \<longleftrightarrow> x = None \<and> e' = e"
  by (cases x; auto)+

lemma with_context_simps [simp]:
  "with_context m (Inl e) = Inl (Context m e)" "with_context m (Inr a) = Inr a"
  by (simp_all add: with_context_def)

lemma with_context_eq_Inr [res_simps]: "with_context m r = Inr a \<longleftrightarrow> r = Inr a"
  by (cases r) auto

lemma unwrap_or_simps [simp]: "unwrap_or d (Inl e) = d" "unwrap_or d (Inr a) = a"
  by (simp_all add: unwrap_or_def)

lemma is_ok_simps [simp]: "\<not> is_ok (Inl e)" "is_ok (Inr a)"
  by (simp_all add: is_ok_def)

lemma is_ok_iff: "is_ok r \<longleftrightarrow> (\<exists>a. r = Inr a)"
  by (cases r) auto

lemma res_ok_simps [simp]: "res_ok (Inl e) = None" "res_ok (Inr a) = Some a"
  by (simp_all add: res_ok_def)

lemma if_Inl_eq_Inr [res_simps]:
  "(if c then Inl e else r) = Inr a \<longleftrightarrow> \<not> c \<and> r = Inr a"
  by simp

lemma map_res_Inr:
  "map_res f xs = Inr ys \<longleftrightarrow> length ys = length xs \<and> list_all2 (\<lambda>x y. f x = Inr y) xs ys"
proof (induction xs arbitrary: ys)
  case Nil
  then show ?case by auto
next
  case (Cons x xs)
  then show ?case
    by (cases ys) (auto simp: bind_res_eq_Inr)
qed

lemma map_res_all:
  "map_res f xs = Inr ys \<Longrightarrow> (\<And>x y. x \<in> set xs \<Longrightarrow> f x = Inr y \<Longrightarrow> P y) \<Longrightarrow> list_all P ys"
proof (induction xs arbitrary: ys)
  case Nil
  then show ?case by simp
next
  case (Cons x xs)
  from Cons.prems(1) obtain y zs where "f x = Inr y" "map_res f xs = Inr zs" "ys = y # zs"
    by (auto simp: bind_res_eq_Inr)
  moreover from this have "list_all P zs"
    by (intro Cons.IH) (use Cons.prems(2) in \<open>meson list.set_intros(2)\<close>)+
  moreover have "P y" using \<open>f x = Inr y\<close> Cons.prems(2) by (meson list.set_intros(1))
  ultimately show ?case by simp
qed

lemma map_res_fails: "x \<in> set xs \<Longrightarrow> \<not> is_ok (f x) \<Longrightarrow> \<not> is_ok (map_res f xs)"
  by (induction xs) (auto simp: is_ok_iff bind_res_eq_Inr)

lemma map_res_map_id:
  "(\<And>x. x \<in> set xs \<Longrightarrow> f (g x) = Inr x) \<Longrightarrow> map_res f (map g xs) = Inr xs"
  by (induction xs) auto

lemma fold_res_append:
  "fold_res f (xs @ ys) s = bind_res (fold_res f xs s) (fold_res f ys)"
  by (induction xs arbitrary: s) (auto simp: bind_res_def split: sum.splits)

lemma fold_res_invariant:
  assumes "\<And>x s s'. x \<in> set xs \<Longrightarrow> P s \<Longrightarrow> f x s = Inr s' \<Longrightarrow> P s'"
    and "P s" and "fold_res f xs s = Inr s'"
  shows "P s'"
  using assms
proof (induction xs arbitrary: s)
  case Nil
  then show ?case by simp
next
  case (Cons x xs)
  from Cons.prems(3) obtain t where "f x s = Inr t" "fold_res f xs t = Inr s'"
    by (auto simp: bind_res_eq_Inr)
  with Cons.prems(1,2) Cons.IH [of t] show ?case by auto
qed

section \<open>Signed 64-bit arithmetic\<close>

text \<open>
  \<open>i64\<close> values are integers; \<open>wrap64\<close> is what the release profile does to a sum or a
  product that leaves the range (two's complement). \<open>tdiv\<close> is Rust's \<open>/\<close>, which
  truncates towards zero.
\<close>

definition i64_min :: int where "i64_min = - 9223372036854775808"
definition i64_max :: int where "i64_max = 9223372036854775807"

definition wrap64 :: "int \<Rightarrow> int" where
  "wrap64 x = (x + 9223372036854775808) mod 18446744073709551616 - 9223372036854775808"

definition in_i64 :: "int \<Rightarrow> bool" where
  "in_i64 x \<longleftrightarrow> i64_min \<le> x \<and> x \<le> i64_max"

definition add64 :: "int \<Rightarrow> int \<Rightarrow> int" where "add64 a b = wrap64 (a + b)"
definition sub64 :: "int \<Rightarrow> int \<Rightarrow> int" where "sub64 a b = wrap64 (a - b)"
definition mul64 :: "int \<Rightarrow> int \<Rightarrow> int" where "mul64 a b = wrap64 (a * b)"

definition tdiv :: "int \<Rightarrow> int \<Rightarrow> int" where
  "tdiv a b = sgn a * sgn b * (\<bar>a\<bar> div \<bar>b\<bar>)"

lemma wrap64_range: "in_i64 (wrap64 x)"
proof -
  have "0 \<le> (x + 9223372036854775808) mod 18446744073709551616"
    "(x + 9223372036854775808) mod 18446744073709551616 < 18446744073709551616"
    by simp_all
  then show ?thesis
    unfolding in_i64_def wrap64_def i64_min_def i64_max_def by linarith
qed

lemma wrap64_id: "in_i64 x \<Longrightarrow> wrap64 x = x"
  by (simp add: in_i64_def wrap64_def i64_min_def i64_max_def)

text \<open>The integer model agrees with 64-bit machine words read as two's complement.\<close>

lemma wrap64_word: "wrap64 x = sint (word_of_int x :: 64 word)"
  by (simp add: wrap64_def signed_take_bit_eq_take_bit_shift take_bit_eq_mod sint_sbintrunc')

lemma add64_exact: "in_i64 (a + b) \<Longrightarrow> add64 a b = a + b"
  by (simp add: add64_def wrap64_id)

lemma sub64_exact: "in_i64 (a - b) \<Longrightarrow> sub64 a b = a - b"
  by (simp add: sub64_def wrap64_id)

lemma mul64_exact: "in_i64 (a * b) \<Longrightarrow> mul64 a b = a * b"
  by (simp add: mul64_def wrap64_id)

lemma tdiv_nonneg: "0 \<le> a \<Longrightarrow> 0 < b \<Longrightarrow> tdiv a b = a div b"
  by (cases "a = 0") (auto simp: tdiv_def)

lemma tdiv_neg: "a < 0 \<Longrightarrow> 0 < b \<Longrightarrow> tdiv a b = - ((- a) div b)"
  by (simp add: tdiv_def)

lemma tdiv_le_0: "a < 0 \<Longrightarrow> 0 < b \<Longrightarrow> tdiv a b \<le> 0"
  by (simp add: tdiv_neg pos_imp_zdiv_nonneg_iff)

lemma tdiv_mult_le: "1 \<le> tdiv a b \<Longrightarrow> 0 < b \<Longrightarrow> tdiv a b * b \<le> a"
proof -
  assume h: "1 \<le> tdiv a b" "0 < b"
  then have "0 \<le> a" using tdiv_le_0 [of a b] by force
  with h show ?thesis
    by (simp add: tdiv_nonneg) (metis mult.commute mult_div_mod_eq le_add_same_cancel1 pos_mod_sign)
qed

end
