(* ===== verification/Rust_Str.thy ===== *)
theory Rust_Str
  imports Prelude
begin

text \<open>
  The part of Rust's \<open>str\<close>, \<open>char\<close> and \<open>u8\<close> API the program uses. A Rust
  \<open>String\<close> is its UTF-8 byte sequence, one \<open>char\<close> of HOL per byte, exactly as Rust
  stores it: \<open>len()\<close> is \<open>length\<close>, and operations on ASCII characters work bytewise.
  The operations that look at code points beyond ASCII (\<open>trim\<close>, \<open>char::is_control\<close>,
  \<open>chars().count()\<close>, case mapping) are written on the UTF-8 encodings they match.
\<close>

section \<open>Bytes\<close>

definition byte :: "char \<Rightarrow> nat" where
  "byte c = of_char c"

definition is_ascii_digit :: "char \<Rightarrow> bool" where
  "is_ascii_digit c \<longleftrightarrow> 48 \<le> byte c \<and> byte c \<le> 57"

definition is_ascii_upper :: "char \<Rightarrow> bool" where
  "is_ascii_upper c \<longleftrightarrow> 65 \<le> byte c \<and> byte c \<le> 90"

definition is_ascii_lower :: "char \<Rightarrow> bool" where
  "is_ascii_lower c \<longleftrightarrow> 97 \<le> byte c \<and> byte c \<le> 122"

definition is_ascii_alphabetic :: "char \<Rightarrow> bool" where
  "is_ascii_alphabetic c \<longleftrightarrow> is_ascii_upper c \<or> is_ascii_lower c"

definition is_ascii_alphanumeric :: "char \<Rightarrow> bool" where
  "is_ascii_alphanumeric c \<longleftrightarrow> is_ascii_alphabetic c \<or> is_ascii_digit c"

definition is_ascii_hexdigit :: "char \<Rightarrow> bool" where
  "is_ascii_hexdigit c \<longleftrightarrow>
     is_ascii_digit c \<or> 65 \<le> byte c \<and> byte c \<le> 70 \<or> 97 \<le> byte c \<and> byte c \<le> 102"

definition is_ascii_graphic :: "char \<Rightarrow> bool" where
  "is_ascii_graphic c \<longleftrightarrow> 33 \<le> byte c \<and> byte c \<le> 126"

definition is_ascii_whitespace :: "char \<Rightarrow> bool" where
  "is_ascii_whitespace c \<longleftrightarrow> byte c \<in> {9, 10, 12, 13, 32}"

definition ascii_lower :: "char \<Rightarrow> char" where
  "ascii_lower c = (if is_ascii_upper c then char_of (byte c + 32) else c)"

definition to_ascii_lowercase :: "string \<Rightarrow> string" where
  "to_ascii_lowercase s = map ascii_lower s"

definition eq_ignore_ascii_case :: "string \<Rightarrow> string \<Rightarrow> bool" where
  "eq_ignore_ascii_case a b \<longleftrightarrow> to_ascii_lowercase a = to_ascii_lowercase b"

lemmas byte_class_defs = byte_def is_ascii_digit_def is_ascii_upper_def is_ascii_lower_def
  is_ascii_alphabetic_def is_ascii_alphanumeric_def is_ascii_hexdigit_def
  is_ascii_graphic_def is_ascii_whitespace_def

declare byte_class_defs [str_eval]

lemma byte_less: "byte c < 256"
  by (simp add: byte_def)

lemma char_of_byte [simp]: "char_of (byte c) = c"
  by (simp add: byte_def)

lemma byte_char_of [simp]: "n < 256 \<Longrightarrow> byte (char_of n) = n"
  by (simp add: byte_def)

lemma byte_eq_iff: "byte c = byte d \<longleftrightarrow> c = d"
  by (simp add: byte_def)

lemma ascii_lower_byte: "byte (ascii_lower c) = (if is_ascii_upper c then byte c + 32 else byte c)"
  by (auto simp: ascii_lower_def is_ascii_upper_def)

lemma ascii_lower_idem [simp]: "ascii_lower (ascii_lower c) = ascii_lower c"
  unfolding byte_eq_iff [symmetric]
  by (simp add: ascii_lower_byte) (simp add: is_ascii_upper_def ascii_lower_byte)

lemma to_ascii_lowercase_idem [simp]:
  "to_ascii_lowercase (to_ascii_lowercase s) = to_ascii_lowercase s"
  by (simp add: to_ascii_lowercase_def)

lemma length_to_ascii_lowercase [simp]: "length (to_ascii_lowercase s) = length s"
  by (simp add: to_ascii_lowercase_def)

lemma eq_ignore_ascii_case_refl [simp]: "eq_ignore_ascii_case s s"
  by (simp add: eq_ignore_ascii_case_def)

lemma eq_ignore_ascii_case_sym: "eq_ignore_ascii_case a b = eq_ignore_ascii_case b a"
  by (auto simp: eq_ignore_ascii_case_def)

section \<open>Prefixes, substrings, splitting, joining\<close>

definition starts_with :: "string \<Rightarrow> string \<Rightarrow> bool" where
  "starts_with p s \<longleftrightarrow> take (length p) s = p"

definition ends_with :: "string \<Rightarrow> string \<Rightarrow> bool" where
  "ends_with p s \<longleftrightarrow> length p \<le> length s \<and> drop (length s - length p) s = p"

definition strip_prefix :: "string \<Rightarrow> string \<Rightarrow> string option" where
  "strip_prefix p s = (if starts_with p s then Some (drop (length p) s) else None)"

fun str_contains :: "string \<Rightarrow> string \<Rightarrow> bool" where
  "str_contains n [] \<longleftrightarrow> n = []"
| "str_contains n (c # s) \<longleftrightarrow> starts_with n (c # s) \<or> str_contains n s"

text \<open>\<open>str::split\<close> on one-byte separators: always at least one piece.\<close>

fun split_on :: "(char \<Rightarrow> bool) \<Rightarrow> string \<Rightarrow> string list" where
  "split_on p [] = [[]]"
| "split_on p (c # s) =
     (if p c then [] # split_on p s
      else (case split_on p s of [] \<Rightarrow> [[c]] | w # ws \<Rightarrow> (c # w) # ws))"

fun split_once :: "char \<Rightarrow> string \<Rightarrow> (string \<times> string) option" where
  "split_once d [] = None"
| "split_once d (c # s) =
     (if c = d then Some ([], s)
      else (case split_once d s of None \<Rightarrow> None | Some (a, b) \<Rightarrow> Some (c # a, b)))"

fun join :: "string \<Rightarrow> string list \<Rightarrow> string" where
  "join sep [] = []"
| "join sep [w] = w"
| "join sep (w # v # ws) = w @ sep @ join sep (v # ws)"

lemma starts_with_append [simp]: "starts_with p (p @ s)"
  by (simp add: starts_with_def)

lemma starts_with_iff: "starts_with p s \<longleftrightarrow> (\<exists>r. s = p @ r)"
  by (metis append_take_drop_id starts_with_append starts_with_def)

lemma ends_with_iff: "ends_with p s \<longleftrightarrow> (\<exists>r. s = r @ p)"
proof
  assume "ends_with p s"
  then show "\<exists>r. s = r @ p"
    by (metis append_take_drop_id ends_with_def)
next
  assume "\<exists>r. s = r @ p"
  then show "ends_with p s" by (auto simp: ends_with_def)
qed

lemma str_contains_iff: "str_contains n s \<longleftrightarrow> (\<exists>a b. s = a @ n @ b)"
proof (induction s)
  case Nil
  then show ?case by auto
next
  case step: (Cons c s)
  show ?case
  proof
    assume "str_contains n (c # s)"
    then consider "starts_with n (c # s)" | "str_contains n s" by auto
    then show "\<exists>a b. c # s = a @ n @ b"
    proof cases
      case 1
      then show ?thesis by (metis append_Nil starts_with_iff)
    next
      case 2
      then show ?thesis using step by (metis append_Cons)
    qed
  next
    assume "\<exists>a b. c # s = a @ n @ b"
    then obtain a b where ab: "c # s = a @ n @ b" by blast
    show "str_contains n (c # s)"
    proof (cases a)
      case Nil
      with ab have "starts_with n (c # s)" by (auto simp: starts_with_iff)
      then show ?thesis by simp
    next
      case (Cons a0 as)
      with ab have "s = as @ n @ b" by simp
      with step.IH show ?thesis by auto
    qed
  qed
qed

lemma str_contains_append: "str_contains n s \<Longrightarrow> str_contains n (a @ s @ b)"
  unfolding str_contains_iff by (metis append.assoc)

lemma split_on_not_Nil [simp]: "split_on p s \<noteq> []"
  by (cases s) (auto split: list.splits)

lemma split_on_none: "\<forall>c \<in> set s. \<not> p c \<Longrightarrow> split_on p s = [s]"
  by (induction s) auto

lemma split_on_append_sep:
  "\<forall>c \<in> set w. \<not> p c \<Longrightarrow> p d \<Longrightarrow> split_on p (w @ d # s) = w # split_on p s"
  by (induction w) auto

lemma split_on_pieces: "w \<in> set (split_on p s) \<Longrightarrow> c \<in> set w \<Longrightarrow> \<not> p c \<and> c \<in> set s"
proof (induction s arbitrary: w c)
  case Nil
  then show ?case by simp
next
  case (Cons x s)
  obtain v vs where v: "split_on p s = v # vs"
    by (cases "split_on p s") auto
  have IH: "\<And>w c. w \<in> set (v # vs) \<Longrightarrow> c \<in> set w \<Longrightarrow> \<not> p c \<and> c \<in> set s"
    using Cons.IH v by simp
  show ?case
    using Cons.prems v IH [of v c] IH [of w c] by (auto split: if_splits)
qed

text \<open>Joining with a separator that no piece holds is undone by splitting.\<close>

lemma split_on_join:
  assumes "ws \<noteq> []" and "\<forall>w \<in> set ws. \<forall>c \<in> set w. \<not> p c" and "p d"
  shows "split_on p (join [d] ws) = ws"
  using assms
proof (induction "[d]" ws rule: join.induct)
  case 1
  then show ?case by simp
next
  case (2 w)
  then show ?case by (simp add: split_on_none)
next
  case (3 w v ws)
  then show ?case by (simp add: split_on_append_sep)
qed

lemma split_once_Some: "split_once d s = Some (a, b) \<longleftrightarrow> s = a @ d # b \<and> d \<notin> set a"
proof (induction s arbitrary: a)
  case Nil
  then show ?case by simp
next
  case (Cons c s)
  have rec: "split_once d s = Some (a', b) \<longleftrightarrow> s = a' @ d # b \<and> d \<notin> set a'" for a'
    by (rule Cons.IH)
  show ?case
  proof (cases a)
    case Nil
    then show ?thesis by (simp split: option.split)
  next
    case (Cons a0 as)
    have "split_once d (c # s) = Some (a0 # as, b) \<longleftrightarrow>
        c \<noteq> d \<and> a0 = c \<and> split_once d s = Some (as, b)"
      by (auto split: option.split)
    with rec [of as] Cons show ?thesis by auto
  qed
qed

lemma split_once_None: "split_once d s = None \<longleftrightarrow> d \<notin> set s"
  by (induction s) (auto split: option.splits)

section \<open>White space, control characters, code points\<close>

text \<open>The UTF-8 encodings of the characters with the property \<open>White_Space\<close>.\<close>

definition ws_seqs :: "string list" where
  "ws_seqs =
     [[CHR 0x09], [CHR 0x0A], [CHR 0x0B], [CHR 0x0C], [CHR 0x0D], [CHR 0x20],
      [CHR 0xC2, CHR 0x85], [CHR 0xC2, CHR 0xA0], [CHR 0xE1, CHR 0x9A, CHR 0x80],
      [CHR 0xE2, CHR 0x80, CHR 0x80], [CHR 0xE2, CHR 0x80, CHR 0x81],
      [CHR 0xE2, CHR 0x80, CHR 0x82], [CHR 0xE2, CHR 0x80, CHR 0x83],
      [CHR 0xE2, CHR 0x80, CHR 0x84], [CHR 0xE2, CHR 0x80, CHR 0x85],
      [CHR 0xE2, CHR 0x80, CHR 0x86], [CHR 0xE2, CHR 0x80, CHR 0x87],
      [CHR 0xE2, CHR 0x80, CHR 0x88], [CHR 0xE2, CHR 0x80, CHR 0x89],
      [CHR 0xE2, CHR 0x80, CHR 0x8A], [CHR 0xE2, CHR 0x80, CHR 0xA8],
      [CHR 0xE2, CHR 0x80, CHR 0xA9], [CHR 0xE2, CHR 0x80, CHR 0xAF],
      [CHR 0xE2, CHR 0x81, CHR 0x9F], [CHR 0xE3, CHR 0x80, CHR 0x80]]"

lemma ws_seqs_nonempty: "w \<in> set ws_seqs \<Longrightarrow> w \<noteq> []"
  by (auto simp: ws_seqs_def)

lemma find_Some_D: "find P xs = Some x \<Longrightarrow> x \<in> set xs \<and> P x"
  by (induction xs) (auto split: if_splits)

function trim_start :: "string \<Rightarrow> string" where
  "trim_start s =
     (case find (\<lambda>w. starts_with w s) ws_seqs of
        None \<Rightarrow> s
      | Some w \<Rightarrow> trim_start (drop (length w) s))"
  by pat_completeness auto
termination
proof (relation "measure length")
  fix s w
  assume f: "find (\<lambda>w. starts_with w s) ws_seqs = Some w"
  then have "w \<noteq> []" "starts_with w s"
    using find_Some_D [OF f] ws_seqs_nonempty by auto
  then show "(drop (length w) s, s) \<in> measure length"
    by (cases s) (auto simp: starts_with_def)
qed simp

function trim_end :: "string \<Rightarrow> string" where
  "trim_end s =
     (case find (\<lambda>w. ends_with w s) ws_seqs of
        None \<Rightarrow> s
      | Some w \<Rightarrow> trim_end (take (length s - length w) s))"
  by pat_completeness auto
termination
proof (relation "measure length")
  fix s w
  assume f: "find (\<lambda>w. ends_with w s) ws_seqs = Some w"
  then have "w \<noteq> []" "ends_with w s"
    using find_Some_D [OF f] ws_seqs_nonempty by auto
  then show "(take (length s - length w) s, s) \<in> measure length"
    by (cases s) (auto simp: ends_with_def)
qed simp

declare trim_start.simps [simp del] trim_end.simps [simp del]

definition trim :: "string \<Rightarrow> string" where
  "trim s = trim_end (trim_start s)"

text \<open>
  \<open>s.chars().any(char::is_control)\<close>: the code points 0-31, 127 and 128-159; the last
  group is encoded as \<open>0xC2\<close> and a byte \<open>0x80\<close> to \<open>0x9F\<close>.
\<close>

fun has_control :: "string \<Rightarrow> bool" where
  "has_control [] = False"
| "has_control (c # s) =
     (byte c < 32 \<or> byte c = 127 \<or>
      (byte c = 194 \<and> (case s of [] \<Rightarrow> False | d # _ \<Rightarrow> 128 \<le> byte d \<and> byte d \<le> 159)) \<or>
      has_control s)"

text \<open>\<open>s.chars().count()\<close>: every byte but the continuation bytes starts a code point.\<close>

definition char_count :: "string \<Rightarrow> nat" where
  "char_count s = length (filter (\<lambda>c. \<not> (128 \<le> byte c \<and> byte c \<le> 191)) s)"

text \<open>Facts on \<open>trim\<close>: it removes a prefix and a suffix, and doing it twice changes nothing.\<close>

lemma trim_start_fixed:
  assumes "\<And>w. w \<in> set ws_seqs \<Longrightarrow> \<not> starts_with w s"
  shows "trim_start s = s"
proof -
  have "find (\<lambda>w. starts_with w s) ws_seqs = None"
    using assms by (auto simp: find_None_iff)
  then show ?thesis by (subst trim_start.simps) simp
qed

lemma trim_end_fixed:
  assumes "\<And>w. w \<in> set ws_seqs \<Longrightarrow> \<not> ends_with w s"
  shows "trim_end s = s"
proof -
  have "find (\<lambda>w. ends_with w s) ws_seqs = None"
    using assms by (auto simp: find_None_iff)
  then show ?thesis by (subst trim_end.simps) simp
qed

lemma trim_start_no_ws: "w \<in> set ws_seqs \<Longrightarrow> \<not> starts_with w (trim_start s)"
proof (induction s rule: trim_start.induct)
  case (1 s)
  show ?case
  proof (cases "find (\<lambda>w. starts_with w s) ws_seqs")
    case None
    then have "\<not> starts_with w s" using 1(2) by (auto simp: find_None_iff)
    with None show ?thesis by (subst trim_start.simps) simp
  next
    case (Some v)
    then show ?thesis using 1 by (subst trim_start.simps) simp
  qed
qed

lemma trim_end_no_ws: "w \<in> set ws_seqs \<Longrightarrow> \<not> ends_with w (trim_end s)"
proof (induction s rule: trim_end.induct)
  case (1 s)
  show ?case
  proof (cases "find (\<lambda>w. ends_with w s) ws_seqs")
    case None
    then have "\<not> ends_with w s" using 1(2) by (auto simp: find_None_iff)
    with None show ?thesis by (subst trim_end.simps) simp
  next
    case (Some v)
    then show ?thesis using 1 by (subst trim_end.simps) simp
  qed
qed

lemma trim_start_suffix: "\<exists>a. s = a @ trim_start s"
proof (induction s rule: trim_start.induct)
  case (1 s)
  show ?case
  proof (cases "find (\<lambda>w. starts_with w s) ws_seqs")
    case None
    then show ?thesis by (subst trim_start.simps) simp
  next
    case (Some v)
    with 1 obtain a where "drop (length v) s = a @ trim_start (drop (length v) s)" by blast
    then have "s = (take (length v) s @ a) @ trim_start (drop (length v) s)"
      by (metis append.assoc append_take_drop_id)
    moreover have "trim_start s = trim_start (drop (length v) s)"
      by (subst trim_start.simps) (simp add: Some)
    ultimately show ?thesis by metis
  qed
qed

lemma trim_end_prefix: "\<exists>b. s = trim_end s @ b"
proof (induction s rule: trim_end.induct)
  case (1 s)
  show ?case
  proof (cases "find (\<lambda>w. ends_with w s) ws_seqs")
    case None
    then show ?thesis by (subst trim_end.simps) simp
  next
    case (Some v)
    let ?t = "take (length s - length v) s"
    from 1 Some obtain b where "?t = trim_end ?t @ b" by blast
    then have "s = trim_end ?t @ (b @ drop (length s - length v) s)"
      by (metis append.assoc append_take_drop_id)
    moreover have "trim_end s = trim_end ?t"
      by (subst trim_end.simps) (simp add: Some)
    ultimately show ?thesis by metis
  qed
qed

lemma trim_infix: "\<exists>a b. s = a @ trim s @ b"
  unfolding trim_def by (metis trim_start_suffix trim_end_prefix)

lemma set_trim_subset: "set (trim s) \<subseteq> set s"
proof -
  obtain a b where "s = a @ trim s @ b" using trim_infix by blast
  then have "set s = set a \<union> set (trim s) \<union> set b"
    by (metis set_append sup_assoc)
  then show ?thesis by blast
qed

lemma length_trim_le: "length (trim s) \<le> length s"
proof -
  obtain a b where "s = a @ trim s @ b" using trim_infix by blast
  then have "length s = length a + length (trim s) + length b"
    by (metis length_append add.assoc)
  then show ?thesis by simp
qed

lemma trim_no_ws_start: "w \<in> set ws_seqs \<Longrightarrow> \<not> starts_with w (trim s)"
proof
  assume w: "w \<in> set ws_seqs" "starts_with w (trim s)"
  obtain b where "trim_start s = trim s @ b"
    using trim_end_prefix unfolding trim_def by blast
  with w(2) have "starts_with w (trim_start s)" by (auto simp: starts_with_iff)
  with w(1) trim_start_no_ws show False by blast
qed

lemma trim_no_ws_end: "w \<in> set ws_seqs \<Longrightarrow> \<not> ends_with w (trim s)"
  by (simp add: trim_def trim_end_no_ws)

lemma trim_fixed:
  assumes "\<And>w. w \<in> set ws_seqs \<Longrightarrow> \<not> starts_with w s"
    and "\<And>w. w \<in> set ws_seqs \<Longrightarrow> \<not> ends_with w s"
  shows "trim s = s"
  using assms by (simp add: trim_def trim_start_fixed trim_end_fixed)

lemma trim_idem [simp]: "trim (trim s) = trim s"
  by (rule trim_fixed) (auto dest: trim_no_ws_start trim_no_ws_end)

lemma trim_Nil [simp]: "trim [] = []"
  by (rule trim_fixed) (auto simp: starts_with_def ends_with_def dest: ws_seqs_nonempty)

text \<open>A string of printable ASCII characters has no white space to remove.\<close>

lemma ws_seqs_first_last:
  "w \<in> set ws_seqs \<Longrightarrow> \<not> is_ascii_graphic (hd w) \<and> \<not> is_ascii_graphic (last w)"
  by (auto simp: ws_seqs_def is_ascii_graphic_def byte_def)

lemma trim_graphic:
  assumes "\<forall>c \<in> set s. is_ascii_graphic c"
  shows "trim s = s"
proof (rule trim_fixed)
  fix w assume w: "w \<in> set ws_seqs"
  note ne = ws_seqs_nonempty [OF w] and g = ws_seqs_first_last [OF w]
  show "\<not> starts_with w s"
    using ne g assms by (cases w) (auto simp: starts_with_iff)
  show "\<not> ends_with w s"
  proof
    assume "ends_with w s"
    then have "last w \<in> set s" using ne by (auto simp: ends_with_iff)
    with g assms show False by blast
  qed
qed

lemma has_control_append: "has_control s \<Longrightarrow> has_control (s @ t)"
proof (induction s)
  case Nil
  then show ?case by simp
next
  case (Cons c s)
  then show ?case by (cases s) auto
qed

lemma has_control_append2: "has_control t \<Longrightarrow> has_control (s @ t)"
  by (induction s) auto

lemma has_control_trim: "has_control (trim s) \<Longrightarrow> has_control s"
  by (metis trim_infix has_control_append has_control_append2)

lemma no_control_newline: "\<not> has_control s \<Longrightarrow> c \<in> set s \<Longrightarrow> 32 \<le> byte c"
proof (induction s)
  case Nil
  then show ?case by simp
next
  case (Cons d s)
  then show ?case by (cases "c = d") auto
qed

lemma graphic_no_control: "\<forall>c \<in> set s. is_ascii_graphic c \<Longrightarrow> \<not> has_control s"
proof (induction s)
  case Nil
  then show ?case by simp
next
  case (Cons c s)
  then have "is_ascii_graphic c" "\<not> has_control s" by simp_all
  then show ?case by (simp add: is_ascii_graphic_def)
qed

end
