(* ===== verification/Rust_Text.thy ===== *)
theory Rust_Text
  imports Rust_Str
begin

text \<open>
  More of Rust's standard library on text: decimal printing and parsing of integers,
  \<open>str::lines\<close>, case mapping, and \<open>String::from_utf8_lossy\<close>.
\<close>

section \<open>Decimal numbers\<close>

definition digit_char :: "nat \<Rightarrow> char" where
  "digit_char d = char_of (48 + d)"

fun show_nat :: "nat \<Rightarrow> string" where
  "show_nat n =
     (if n < 10 then [digit_char n] else show_nat (n div 10) @ [digit_char (n mod 10)])"

declare show_nat.simps [simp del]

definition show_int :: "int \<Rightarrow> string" where
  "show_int i = (if i < 0 then ''-'' @ show_nat (nat (- i)) else show_nat (nat i))"

definition digits_value :: "string \<Rightarrow> nat" where
  "digits_value s = foldl (\<lambda>a c. 10 * a + (byte c - 48)) 0 s"

text \<open>
  \<open>str::parse::<i64>()\<close>: one optional sign, at least one digit, nothing else, and a value
  inside the range.
\<close>

definition parse_i64 :: "string \<Rightarrow> int option" where
  "parse_i64 s =
     (let neg = starts_with ''-'' s;
          ds = (if starts_with ''-'' s \<or> starts_with ''+'' s then drop 1 s else s);
          n = int (digits_value ds);
          v = (if neg then - n else n)
      in if ds = [] \<or> \<not> list_all is_ascii_digit ds \<or> \<not> in_i64 v then None else Some v)"

lemma byte_digit_char: "d < 10 \<Longrightarrow> byte (digit_char d) = 48 + d"
  by (simp add: digit_char_def)

lemma is_ascii_digit_digit_char: "d < 10 \<Longrightarrow> is_ascii_digit (digit_char d)"
  by (simp add: is_ascii_digit_def byte_digit_char)

lemma show_nat_digits: "show_nat n \<noteq> [] \<and> list_all is_ascii_digit (show_nat n)"
proof (induction n rule: show_nat.induct)
  case (1 n)
  then show ?case
    by (subst (1 2) show_nat.simps) (simp add: is_ascii_digit_digit_char)
qed

lemma digits_value_show_nat: "digits_value (show_nat n) = n"
proof (induction n rule: show_nat.induct)
  case (1 n)
  then show ?case
    by (subst show_nat.simps) (simp add: digits_value_def byte_digit_char)
qed

lemma digit_not_sign: "is_ascii_digit c \<Longrightarrow> c \<noteq> CHR ''-'' \<and> c \<noteq> CHR ''+''"
  by (auto simp: is_ascii_digit_def byte_def)

lemma parse_show_i64: "in_i64 i \<Longrightarrow> parse_i64 (show_int i) = Some i"
proof -
  assume i: "in_i64 i"
  define m where "m = show_nat (nat \<bar>i\<bar>)"
  have m: "m \<noteq> []" "list_all is_ascii_digit m" "digits_value m = nat \<bar>i\<bar>"
    by (simp_all add: m_def show_nat_digits digits_value_show_nat)
  from m have nosign: "\<not> starts_with ''-'' m" "\<not> starts_with ''+'' m"
    by (cases m; auto simp: starts_with_def dest: digit_not_sign)+
  show ?thesis
  proof (cases "i < 0")
    case True
    then have "show_int i = ''-'' @ m" by (simp add: show_int_def m_def)
    with m i True show ?thesis by (simp add: parse_i64_def starts_with_def)
  next
    case False
    then have "show_int i = m" by (simp add: show_int_def m_def)
    with m i False nosign show ?thesis by (simp add: parse_i64_def)
  qed
qed

lemma parse_i64_range: "parse_i64 s = Some i \<Longrightarrow> in_i64 i"
  by (auto simp: parse_i64_def Let_def split: if_splits)

text \<open>
  The same functions over integers, for evaluation: the kernel computes with naturals in
  unary, with integers in binary.
\<close>

function show_dec :: "int \<Rightarrow> string" where
  "show_dec i =
     (if i < 10 then [digit_char (nat i)] else show_dec (i div 10) @ [digit_char (nat (i mod 10))])"
  by pat_completeness auto
termination by (relation "measure nat") auto

declare show_dec.simps [simp del]

lemma show_dec_nat: "show_nat n = show_dec (int n)"
proof (induction n rule: show_nat.induct)
  case (1 n)
  show ?case
  proof (cases "n < 10")
    case True
    then show ?thesis by (subst show_nat.simps, subst show_dec.simps) simp
  next
    case False
    moreover have "nat (int n mod 10) = n mod 10" by (metis nat_int of_nat_mod of_nat_numeral)
    moreover have "int (n div 10) = int n div 10" by (simp add: of_nat_div)
    ultimately show ?thesis
      using 1 by (subst show_nat.simps, subst show_dec.simps) simp
  qed
qed

lemma show_int_code [code]:
  "show_int i = (if i < 0 then ''-'' @ show_dec (- i) else show_dec i)"
  by (simp add: show_int_def show_dec_nat)

definition digits_int :: "string \<Rightarrow> int" where
  "digits_int s = foldl (\<lambda>a c. 10 * a + int (byte c - 48)) 0 s"

lemma digits_int_value: "int (digits_value s) = digits_int s"
proof -
  have "int (foldl (\<lambda>a c. 10 * a + (byte c - 48)) n s) =
      foldl (\<lambda>a c. 10 * a + int (byte c - 48)) (int n) s" for n
    by (induction s arbitrary: n) simp_all
  from this [of 0] show ?thesis by (simp add: digits_value_def digits_int_def)
qed

lemma parse_i64_code [code]:
  "parse_i64 s =
     (let neg = starts_with ''-'' s;
          ds = (if starts_with ''-'' s \<or> starts_with ''+'' s then drop 1 s else s);
          n = digits_int ds;
          v = (if neg then - n else n)
      in if ds = [] \<or> \<not> list_all is_ascii_digit ds \<or> \<not> in_i64 v then None else Some v)"
  by (simp add: parse_i64_def digits_int_value)

section \<open>Lines\<close>

definition LF :: char where "LF = CHR 0x0A"
definition CR :: char where "CR = CHR 0x0D"
definition TAB :: char where "TAB = CHR 0x09"

definition strip_cr :: "string \<Rightarrow> string" where
  "strip_cr s = (if s \<noteq> [] \<and> last s = CR then butlast s else s)"

definition str_lines :: "string \<Rightarrow> string list" where
  "str_lines s =
     (let ps = split_on (\<lambda>c. c = LF) s
      in map strip_cr (butlast ps) @ (if last ps = [] then [] else [last ps]))"

lemma str_lines_no_LF: "l \<in> set (str_lines s) \<Longrightarrow> LF \<notin> set l"
proof -
  assume l: "l \<in> set (str_lines s)"
  then obtain p where "p \<in> set (split_on (\<lambda>c. c = LF) s)" "set l \<subseteq> set p"
    by (auto simp: str_lines_def Let_def strip_cr_def split: if_splits
        dest!: in_set_butlastD intro: last_in_set)
      (metis in_set_butlastD last_in_set split_on_not_Nil subset_iff)+
  then show ?thesis using split_on_pieces by fastforce
qed

section \<open>Case mapping\<close>

text \<open>
  \<open>str::to_lowercase\<close> and \<open>str::to_uppercase\<close>. Letters of ASCII are mapped, and so
  are the few others whose image is made of ASCII letters (the Kelvin sign; dotless i,
  long s, sharp s and the Latin ligatures; the dotted capital I is mapped too). Every
  other character beyond ASCII is left as it is: its image holds a character beyond
  ASCII too. This is enough for roles, digests, key profiles and countries, where the
  program compares the result with ASCII words or accepts ASCII letters only; the filter of
  the CA list, which compares two lower-cased names, takes the mapping as a parameter
  (\<open>new_ca_page\<close>).
\<close>

definition ascii_upper :: "char \<Rightarrow> char" where
  "ascii_upper c = (if is_ascii_lower c then char_of (byte c - 32) else c)"

function to_lowercase :: "string \<Rightarrow> string" where
  "to_lowercase s =
     (if s = [] then []
      else if starts_with [CHR 0xE2, CHR 0x84, CHR 0xAA] s then CHR ''k'' # to_lowercase (drop 3 s)
      else if starts_with [CHR 0xC4, CHR 0xB0] s
        then [CHR ''i'', CHR 0xCC, CHR 0x87] @ to_lowercase (drop 2 s)
      else ascii_lower (hd s) # to_lowercase (tl s))"
  by pat_completeness auto
termination by (relation "measure length") auto

definition upper_specials :: "(string \<times> string) list" where
  "upper_specials =
     [([CHR 0xC4, CHR 0xB1], ''I''), ([CHR 0xC5, CHR 0xBF], ''S''),
      ([CHR 0xC3, CHR 0x9F], ''SS''),
      ([CHR 0xEF, CHR 0xAC, CHR 0x80], ''FF''), ([CHR 0xEF, CHR 0xAC, CHR 0x81], ''FI''),
      ([CHR 0xEF, CHR 0xAC, CHR 0x82], ''FL''), ([CHR 0xEF, CHR 0xAC, CHR 0x83], ''FFI''),
      ([CHR 0xEF, CHR 0xAC, CHR 0x84], ''FFL''), ([CHR 0xEF, CHR 0xAC, CHR 0x85], ''ST''),
      ([CHR 0xEF, CHR 0xAC, CHR 0x86], ''ST'')]"

lemma upper_specials_nonempty: "p \<in> set upper_specials \<Longrightarrow> fst p \<noteq> []"
  by (auto simp: upper_specials_def)

function to_uppercase :: "string \<Rightarrow> string" where
  "to_uppercase s =
     (if s = [] then []
      else case find (\<lambda>p. starts_with (fst p) s) upper_specials of
        Some p \<Rightarrow> snd p @ to_uppercase (drop (length (fst p)) s)
      | None \<Rightarrow> ascii_upper (hd s) # to_uppercase (tl s))"
  by pat_completeness auto
termination
proof (relation "measure length")
  fix s p
  assume "s \<noteq> []" "find (\<lambda>p. starts_with (fst p) s) upper_specials = Some p"
  then show "(drop (length (fst p)) s, s) \<in> measure length"
    using find_Some_D upper_specials_nonempty by (cases s) fastforce+
qed auto

declare to_lowercase.simps [simp del] to_uppercase.simps [simp del]

lemma ascii_upper_not_lower: "\<not> is_ascii_lower (ascii_upper c)"
  by (auto simp: ascii_upper_def is_ascii_lower_def)

lemma upper_specials_upper: "p \<in> set upper_specials \<Longrightarrow> list_all (\<lambda>c. \<not> is_ascii_lower c) (snd p)"
  by (auto simp: upper_specials_def is_ascii_lower_def byte_def)

lemma to_uppercase_not_lower: "list_all (\<lambda>c. \<not> is_ascii_lower c) (to_uppercase s)"
proof (induction s rule: to_uppercase.induct)
  case (1 s)
  show ?case
  proof (cases "s = []")
    case True
    then show ?thesis by (subst to_uppercase.simps) simp
  next
    case False
    show ?thesis
    proof (cases "find (\<lambda>p. starts_with (fst p) s) upper_specials")
      case None
      with False 1 show ?thesis
        by (subst to_uppercase.simps) (simp add: ascii_upper_not_lower)
    next
      case (Some p)
      with find_Some_D have "p \<in> set upper_specials" by fast
      with False Some 1 show ?thesis
        by (subst to_uppercase.simps) (simp add: upper_specials_upper)
    qed
  qed
qed

lemma upper_specials_not_ascii: "p \<in> set upper_specials \<Longrightarrow> 128 \<le> byte (hd (fst p))"
  by (auto simp: upper_specials_def byte_def)

lemma to_uppercase_ascii:
  "list_all (\<lambda>c. byte c < 128) s \<Longrightarrow> to_uppercase s = map ascii_upper s"
proof (induction s)
  case Nil
  then show ?case by (subst to_uppercase.simps) simp
next
  case (Cons c s)
  have "find (\<lambda>p. starts_with (fst p) (c # s)) upper_specials = None"
    unfolding find_None_iff
  proof clarify
    fix a b assume p: "(a, b) \<in> set upper_specials" "starts_with (fst (a, b)) (c # s)"
    then have "hd a = c" using upper_specials_nonempty [OF p(1)]
      by (cases a) (auto simp: starts_with_def)
    with upper_specials_not_ascii [OF p(1)] Cons.prems show False by simp
  qed
  with Cons show ?case by (subst to_uppercase.simps) simp
qed

lemma to_uppercase_upper:
  assumes "list_all is_ascii_alphabetic (to_uppercase s)"
  shows "to_uppercase (to_uppercase s) = to_uppercase s"
proof -
  have "list_all (\<lambda>c. byte c < 128) (to_uppercase s)"
    using assms by (auto simp: list_all_iff is_ascii_alphabetic_def is_ascii_upper_def is_ascii_lower_def)
  then have "to_uppercase (to_uppercase s) = map ascii_upper (to_uppercase s)"
    by (rule to_uppercase_ascii)
  also have "\<dots> = to_uppercase s"
    using to_uppercase_not_lower [of s] by (intro map_idI) (auto simp: ascii_upper_def list_all_iff)
  finally show ?thesis .
qed

section \<open>Decoding bytes\<close>

text \<open>
  \<open>String::from_utf8_lossy\<close>: every maximal ill-formed subsequence becomes U+FFFD.
  \<open>utf8_head\<close> looks at the first code point: whether it is well formed, and how many
  bytes to take. A missing byte reads as 0, which is no continuation byte.
\<close>

definition byte_at :: "string \<Rightarrow> nat \<Rightarrow> nat" where
  "byte_at s i = (if i < length s then byte (s ! i) else 0)"

definition cont_byte :: "nat \<Rightarrow> bool" where
  "cont_byte b \<longleftrightarrow> 128 \<le> b \<and> b \<le> 191"

definition second_ok :: "nat \<Rightarrow> nat \<Rightarrow> bool" where
  "second_ok a b \<longleftrightarrow>
     (if a = 224 then 160 \<le> b \<and> b \<le> 191 else if a = 237 then 128 \<le> b \<and> b \<le> 159
      else if a = 240 then 144 \<le> b \<and> b \<le> 191 else if a = 244 then 128 \<le> b \<and> b \<le> 143
      else cont_byte b)"

definition utf8_head :: "string \<Rightarrow> bool \<times> nat" where
  "utf8_head s =
     (let a = byte_at s 0; b = byte_at s 1; c = byte_at s 2; d = byte_at s 3
      in if a < 128 then (True, 1)
         else if 194 \<le> a \<and> a \<le> 223 then (if cont_byte b then (True, 2) else (False, 1))
         else if 224 \<le> a \<and> a \<le> 239 then
           (if \<not> second_ok a b then (False, 1) else if \<not> cont_byte c then (False, 2) else (True, 3))
         else if 240 \<le> a \<and> a \<le> 244 then
           (if \<not> second_ok a b then (False, 1) else if \<not> cont_byte c then (False, 2)
            else if \<not> cont_byte d then (False, 3) else (True, 4))
         else (False, 1))"

lemma utf8_head_pos: "0 < snd (utf8_head s)"
  by (simp add: utf8_head_def Let_def)

definition replacement :: string where
  "replacement = [CHR 0xEF, CHR 0xBF, CHR 0xBD]"

function from_utf8_lossy :: "string \<Rightarrow> string" where
  "from_utf8_lossy s =
     (if s = [] then []
      else (let h = utf8_head s
            in (if fst h then take (snd h) s else replacement) @ from_utf8_lossy (drop (snd h) s)))"
  by pat_completeness auto
termination by (relation "measure length") (auto simp: utf8_head_pos intro!: diff_less)

function valid_utf8 :: "string \<Rightarrow> bool" where
  "valid_utf8 s \<longleftrightarrow>
     (if s = [] then True
      else if fst (utf8_head s) then valid_utf8 (drop (snd (utf8_head s)) s) else False)"
  by pat_completeness auto
termination by (relation "measure length") (auto simp: utf8_head_pos intro!: diff_less)

declare from_utf8_lossy.simps [simp del] valid_utf8.simps [simp del]

lemma from_utf8_lossy_Nil [simp]: "from_utf8_lossy [] = []"
  by (subst from_utf8_lossy.simps) simp

lemma from_utf8_lossy_valid: "valid_utf8 s \<Longrightarrow> from_utf8_lossy s = s"
proof (induction s rule: from_utf8_lossy.induct)
  case (1 s)
  show ?case
  proof (cases "s = []")
    case False
    with "1.prems" have v: "fst (utf8_head s)" "valid_utf8 (drop (snd (utf8_head s)) s)"
      by (auto simp: valid_utf8.simps [of s] split: if_splits)
    with 1(1) [OF False refl] False show ?thesis
      by (subst from_utf8_lossy.simps) (simp add: Let_def)
  qed simp
qed

lemma ascii_valid_utf8: "\<forall>c \<in> set s. byte c < 128 \<Longrightarrow> valid_utf8 s"
proof (induction s)
  case Nil
  show ?case by (subst valid_utf8.simps) simp
next
  case (Cons c s)
  then have "utf8_head (c # s) = (True, 1)"
    by (simp add: utf8_head_def byte_at_def)
  with Cons show ?case by (subst valid_utf8.simps) simp
qed

lemma from_utf8_lossy_ascii: "\<forall>c \<in> set s. byte c < 128 \<Longrightarrow> from_utf8_lossy s = s"
  by (simp add: ascii_valid_utf8 from_utf8_lossy_valid)

section \<open>Words, replacement, debug output\<close>

text \<open>\<open>split_whitespace().next()\<close>: the text up to the next white-space character.\<close>

fun take_word :: "string \<Rightarrow> string" where
  "take_word [] = []"
| "take_word (c # s) =
     (if list_ex (\<lambda>w. starts_with w (c # s)) ws_seqs then [] else c # take_word s)"

definition first_word :: "string \<Rightarrow> string option" where
  "first_word s = (let t = trim_start s in if t = [] then None else Some (take_word t))"

text \<open>\<open>trim_start_matches(c)\<close>, \<open>trim_end_matches\<close> and \<open>trim_matches\<close> on ASCII characters.\<close>

definition trim_start_matches :: "(char \<Rightarrow> bool) \<Rightarrow> string \<Rightarrow> string" where
  "trim_start_matches p s = dropWhile p s"

definition trim_end_matches :: "(char \<Rightarrow> bool) \<Rightarrow> string \<Rightarrow> string" where
  "trim_end_matches p s = rev (dropWhile p (rev s))"

definition trim_matches :: "(char \<Rightarrow> bool) \<Rightarrow> string \<Rightarrow> string" where
  "trim_matches p s = trim_end_matches p (trim_start_matches p s)"

text \<open>
  \<open>format!("{s:?}")\<close>. The ASCII part of \<open>str::escape_debug\<close> is exact; other characters
  are written as they are (the standard library escapes the unprintable ones).
\<close>

definition hex_char :: "nat \<Rightarrow> char" where
  "hex_char n = (if n < 10 then char_of (48 + n) else char_of (87 + n))"

definition debug_char :: "char \<Rightarrow> string" where
  "debug_char c =
     (if byte c = 0 then [CHR 0x5C, CHR ''0'']
      else if c = TAB then [CHR 0x5C, CHR ''t'']
      else if c = LF then [CHR 0x5C, CHR ''n'']
      else if c = CR then [CHR 0x5C, CHR ''r'']
      else if c = CHR 0x22 \<or> c = CHR 0x5C then [CHR 0x5C, c]
      else if byte c < 16 then [CHR 0x5C] @ ''u{'' @ [hex_char (byte c)] @ ''}''
      else if byte c < 32 \<or> byte c = 127
      then [CHR 0x5C] @ ''u{'' @ [hex_char (byte c div 16), hex_char (byte c mod 16)] @ ''}''
      else [c])"

definition debug_str :: "string \<Rightarrow> string" where
  "debug_str s = [CHR 0x22] @ concat (map debug_char s) @ [CHR 0x22]"

lemma set_trim_end_matches: "set (trim_end_matches p s) \<subseteq> set s"
  unfolding trim_end_matches_def by (metis set_dropWhileD set_rev subsetI)

lemma set_trim_matches: "set (trim_matches p s) \<subseteq> set s"
  unfolding trim_matches_def trim_start_matches_def
  by (meson set_trim_end_matches set_dropWhileD subset_iff)

lemma trim_end_matches_last:
  "trim_end_matches p s \<noteq> [] \<Longrightarrow> \<not> p (last (trim_end_matches p s))"
  unfolding trim_end_matches_def by (metis hd_dropWhile last_rev rev_is_Nil_conv)

lemma trim_end_matches_hd:
  "trim_end_matches p s \<noteq> [] \<Longrightarrow> hd (trim_end_matches p s) = hd s"
proof -
  assume h: "trim_end_matches p s \<noteq> []"
  have "s = trim_end_matches p s @ rev (takeWhile p (rev s))"
    unfolding trim_end_matches_def by (metis rev_append rev_rev_ident takeWhile_dropWhile_id)
  with h show ?thesis by (metis hd_append2)
qed

lemma trim_matches_ends:
  assumes "trim_matches p s \<noteq> []"
  shows "\<not> p (hd (trim_matches p s))" and "\<not> p (last (trim_matches p s))"
proof -
  let ?t = "dropWhile p s"
  have h: "trim_end_matches p ?t \<noteq> []"
    using assms by (simp add: trim_matches_def trim_start_matches_def)
  then have "?t \<noteq> []" unfolding trim_end_matches_def by (metis dropWhile.simps(1) rev.simps(1))
  then have "\<not> p (hd ?t)" by (rule hd_dropWhile)
  with h show "\<not> p (hd (trim_matches p s))"
    by (simp add: trim_matches_def trim_start_matches_def trim_end_matches_hd)
  from h show "\<not> p (last (trim_matches p s))"
    by (simp add: trim_matches_def trim_start_matches_def trim_end_matches_last)
qed

end
