(* ===== verification/Sql_Table.thy ===== *)
theory Sql_Table
  imports Rust_Text
begin

text \<open>
  The SQL the program sends, as operations on tables. A table is the list of its rows in
  insertion order. A \<open>WHERE\<close> clause is a predicate on rows; \<open>UPDATE\<close> maps the rows
  it selects and reports how many there were; \<open>ORDER BY\<close> is a stable sort (SQLite
  leaves the order of ties open; no fact below depends on it). The locale
  \<open>keyed_table\<close> states what a table with a primary key promises its clients.
\<close>

definition count_where :: "('r \<Rightarrow> bool) \<Rightarrow> 'r list \<Rightarrow> nat" where
  "count_where p t = length (filter p t)"

definition update_where :: "('r \<Rightarrow> bool) \<Rightarrow> ('r \<Rightarrow> 'r) \<Rightarrow> 'r list \<Rightarrow> 'r list" where
  "update_where p f t = map (\<lambda>r. if p r then f r else r) t"

definition delete_where :: "('r \<Rightarrow> bool) \<Rightarrow> 'r list \<Rightarrow> 'r list" where
  "delete_where p t = filter (\<lambda>r. \<not> p r) t"

definition order_by :: "('r \<Rightarrow> 'k::linorder) \<Rightarrow> 'r list \<Rightarrow> 'r list" where
  "order_by f t = sort_key f t"

definition order_by_desc :: "('r \<Rightarrow> int) \<Rightarrow> 'r list \<Rightarrow> 'r list" where
  "order_by_desc f t = sort_key (\<lambda>r. - f r) t"

text \<open>\<open>INSERT\<close> into a table with one unique column (or expression) named \<open>col\<close>.\<close>

definition insert_row :: "string \<Rightarrow> ('r \<Rightarrow> 'k) \<Rightarrow> 'r \<Rightarrow> 'r list \<Rightarrow> 'r list result" where
  "insert_row col key r t =
     (if list_ex (\<lambda>x. key x = key r) t then Inl (Unique_violation col) else Inr (t @ [r]))"

text \<open>
  SQLite's \<open>lower()\<close> maps ASCII letters only; its \<open>trim()\<close> removes spaces (byte 32)
  only, unlike Rust's \<open>str::trim\<close>.
\<close>

definition sql_lower :: "string \<Rightarrow> string" where
  "sql_lower s = to_ascii_lowercase s"

definition sql_trim :: "string \<Rightarrow> string" where
  "sql_trim s = rev (dropWhile (\<lambda>c. c = CHR '' '') (rev (dropWhile (\<lambda>c. c = CHR '' '') s)))"

text \<open>The text comparison of \<open>COLLATE NOCASE\<close>, as an equality and as a sort key.\<close>

definition nocase :: "string \<Rightarrow> string" where
  "nocase s = to_ascii_lowercase s"

section \<open>What the statements do\<close>

lemma count_where_0 [table_simps]: "count_where p t = 0 \<longleftrightarrow> (\<forall>r \<in> set t. \<not> p r)"
  by (auto simp: count_where_def filter_empty_conv)

lemma count_where_pos [table_simps]: "0 < count_where p t \<longleftrightarrow> (\<exists>r \<in> set t. p r)"
  by (auto simp: count_where_def filter_empty_conv)

lemma set_update_where: "set (update_where p f t) = (\<lambda>r. if p r then f r else r) ` set t"
  by (simp add: update_where_def)

lemma in_update_where [table_simps]:
  "r \<in> set (update_where p f t) \<longleftrightarrow>
     (r \<in> set t \<and> \<not> p r) \<or> (\<exists>x \<in> set t. p x \<and> r = f x)"
  by (auto simp: update_where_def)

lemma update_where_none: "\<forall>r \<in> set t. \<not> p r \<Longrightarrow> update_where p f t = t"
  by (simp add: update_where_def map_idI)

lemma update_where_keeps:
  "(\<And>r. p r \<Longrightarrow> g (f r) = g r) \<Longrightarrow> map g (update_where p f t) = map g t"
  by (auto simp: update_where_def)

lemma update_where_Nil [simp]: "update_where p f [] = []"
  by (simp add: update_where_def)

lemma length_update_where [simp]: "length (update_where p f t) = length t"
  by (simp add: update_where_def)

lemma set_delete_where [table_simps]: "set (delete_where p t) = {r \<in> set t. \<not> p r}"
  by (auto simp: delete_where_def)

lemma distinct_delete_where: "distinct (map g t) \<Longrightarrow> distinct (map g (delete_where p t))"
  by (simp add: delete_where_def distinct_map_filter)

lemma set_order_by [simp]: "set (order_by f t) = set t"
  by (simp add: order_by_def)

lemma set_order_by_desc [simp]: "set (order_by_desc f t) = set t"
  by (simp add: order_by_desc_def)

lemma mset_order_by [simp]: "mset (order_by f t) = mset t"
  by (simp add: order_by_def)

lemma mset_order_by_desc [simp]: "mset (order_by_desc f t) = mset t"
  by (simp add: order_by_desc_def)

lemma length_order_by [simp]: "length (order_by f t) = length t"
  by (simp add: order_by_def)

lemma sorted_order_by_desc: "sorted (map (\<lambda>r. - f r) (order_by_desc f t))"
  by (simp add: order_by_desc_def)

lemma distinct_order_by: "distinct (map g t) \<Longrightarrow> distinct (map g (order_by f t))"
  by (simp add: order_by_def distinct_map inj_on_def)

lemma list_ex_key: "list_ex (\<lambda>x. key x = key r) t \<longleftrightarrow> key r \<in> key ` set t"
  by (simp add: list_ex_iff image_iff) metis

lemma insert_row_Inr [res_simps]:
  "insert_row col key r t = Inr t' \<longleftrightarrow> key r \<notin> key ` set t \<and> t' = t @ [r]"
  by (auto simp: insert_row_def list_ex_key)

lemma insert_row_Inl [res_simps]:
  "insert_row col key r t = Inl e \<longleftrightarrow> key r \<in> key ` set t \<and> e = Unique_violation col"
  by (auto simp: insert_row_def list_ex_key)

lemma find_Some_iff_D: "find P t = Some r \<Longrightarrow> r \<in> set t \<and> P r"
  by (rule find_Some_D)

lemma find_None_D: "find P t = None \<longleftrightarrow> (\<forall>r \<in> set t. \<not> P r)"
  by (auto simp: find_None_iff)

lemma find_append: "find P (xs @ ys) = (case find P xs of None \<Rightarrow> find P ys | Some x \<Rightarrow> Some x)"
  by (induction xs) auto

lemma find_map_keep:
  assumes "\<And>x. P (f x) = P x"
  shows "find P (map f xs) = map_option f (find P xs)"
  by (induction xs) (auto simp: assms)

lemma find_update_where:
  assumes "\<And>x. p x \<Longrightarrow> P (f x) = P x"
  shows "find P (update_where p f t) = map_option (\<lambda>r. if p r then f r else r) (find P t)"
  using assms by (induction t) (auto simp: update_where_def)

lemma sql_lower_idem [simp]: "sql_lower (sql_lower s) = sql_lower s"
  by (simp add: sql_lower_def)

lemma find_distinct:
  assumes "distinct (map g t)" and "r \<in> set t" and "P r"
    and "\<And>x. P x \<Longrightarrow> g x = g r"
  shows "find P t = Some r"
  using assms
proof (induction t)
  case Nil
  then show ?case by simp
next
  case (Cons x t)
  show ?case
  proof (cases "P x")
    case True
    with Cons.prems(4) have "g x = g r" by blast
    have "x = r"
    proof (rule ccontr)
      assume "x \<noteq> r"
      with Cons.prems(2) have "g r \<in> g ` set t" by simp
      with Cons.prems(1) \<open>g x = g r\<close> show False by simp
    qed
    with True show ?thesis by simp
  next
    case False
    have "r \<in> set t" using False Cons.prems(2,3) by auto
    moreover have "distinct (map g t)" using Cons.prems(1) by simp
    ultimately have "find P t = Some r"
      using Cons.prems(3,4) by (intro Cons.IH) blast+
    with False show ?thesis by simp
  qed
qed

text \<open>An \<open>UPDATE\<close> of the row with one key may set a unique column to a free value.\<close>

lemma distinct_update_key:
  assumes "distinct (map k ts)" and "distinct (map g ts)"
    and "\<And>x. x \<in> set ts \<Longrightarrow> k x \<noteq> i \<Longrightarrow> g x \<noteq> v" and "\<And>x. g (f x) = v"
  shows "distinct (map g (update_where (\<lambda>x. k x = i) f ts))"
  using assms(1-3)
proof (induction ts)
  case Nil
  then show ?case by simp
next
  case (Cons x ts)
  then have IH: "distinct (map g (update_where (\<lambda>x. k x = i) f ts))" by simp
  show ?case
  proof (cases "k x = i")
    case True
    have "k x \<notin> k ` set ts" using Cons.prems(1) by simp
    with True have others: "\<forall>y \<in> set ts. k y \<noteq> i" by (metis image_eqI)
    then have "update_where (\<lambda>x. k x = i) f ts = ts" by (simp add: update_where_none)
    moreover have "v \<notin> g ` set ts" using others Cons.prems(3) by auto
    ultimately show ?thesis
      using True Cons.prems(2) assms(4) by (simp add: update_where_def)
  next
    case False
    have "g x \<noteq> g y" if "y \<in> set (update_where (\<lambda>x. k x = i) f ts)" for y
      using that False Cons.prems(2) Cons.prems(3) [of x] assms(4)
      by (auto simp: in_update_where)
    then have fresh: "g x \<notin> set (map g (update_where (\<lambda>x. k x = i) f ts))"
      unfolding set_map by blast
    have "update_where (\<lambda>x. k x = i) f (x # ts) = x # update_where (\<lambda>x. k x = i) f ts"
      using False by (simp add: update_where_def)
    then show ?thesis by (simp only: list.map distinct.simps fresh IH not_False_eq_True simp_thms)
  qed
qed

section \<open>Tables with a primary key\<close>

text \<open>
  The contract of a table with a key: an insertion that succeeds appends one row whose
  key was free; a statement that updates rows keeps their keys.
\<close>

locale keyed_table =
  fixes key :: "'r \<Rightarrow> 'k"
    and ins :: "'r \<Rightarrow> 'r list \<Rightarrow> 'r list result"
  assumes ins_free: "ins r t = Inr t' \<Longrightarrow> key r \<notin> key ` set t"
    and ins_appends: "ins r t = Inr t' \<Longrightarrow> t' = t @ [r]"
begin

lemma ins_distinct:
  "ins r t = Inr t' \<Longrightarrow> distinct (map key t) \<Longrightarrow> distinct (map key t')"
  using ins_free [of r t t'] ins_appends [of r t t'] by auto

lemma find_inserted:
  assumes "ins r t = Inr t'"
  shows "find (\<lambda>x. key x = key r) t' = Some r"
proof -
  from assms have "find (\<lambda>x. key x = key r) t = None"
    using ins_free [OF assms] by (auto simp: find_None_D image_iff)
  then show ?thesis using ins_appends [OF assms] by (simp add: find_append)
qed

lemma find_other:
  assumes "ins r t = Inr t'" and "k \<noteq> key r"
  shows "find (\<lambda>x. key x = k) t' = find (\<lambda>x. key x = k) t"
  using ins_appends [OF assms(1)] assms(2) by (simp add: find_append split: option.split)

lemma find_by_key:
  "distinct (map key t) \<Longrightarrow> r \<in> set t \<Longrightarrow> find (\<lambda>x. key x = key r) t = Some r"
  by (rule find_distinct [where g = key]) auto

lemma count_by_key:
  assumes "distinct (map key t)"
  shows "count_where (\<lambda>x. key x = k \<and> q x) t \<le> 1"
proof -
  let ?f = "filter (\<lambda>x. key x = k \<and> q x) t"
  have "distinct (map key ?f)" using assms by (rule distinct_map_filter)
  moreover have "set (map key ?f) \<subseteq> {k}" by auto
  ultimately have "length (map key ?f) \<le> card {k}"
    by (metis card_mono distinct_card finite.emptyI finite.insertI)
  then show ?thesis by (simp add: count_where_def)
qed

lemma update_distinct:
  "(\<And>r. p r \<Longrightarrow> key (f r) = key r) \<Longrightarrow> distinct (map key t) \<Longrightarrow>
   distinct (map key (update_where p f t))"
  by (simp add: update_where_keeps)

end

end
