(* ===== verification/Models.thy ===== *)
theory Models
  imports Sql_Table
begin

text \<open>
  The data of \<open>src/src/models.rs\<close> and the record types of \<open>src/src/db.rs\<close>. The twelve
  columns that CAs and certificates share are the record \<open>subject_meta\<close> (which is
  \<open>CaMeta\<close>); \<open>CertMeta\<close> and the API views extend it. Private fields carry a prefix, since
  record selectors are global names.
\<close>

section \<open>Metadata, secrets, views\<close>

record subject_meta =
  m_id :: string
  m_common_name :: string
  m_country_code :: string
  m_state :: string
  m_city :: string
  m_organization :: string
  m_organization_unit :: string
  m_subject :: string
  m_issue_time :: int
  m_valid_days :: int
  m_key_profile :: string
  m_digest_algorithm :: string

type_synonym ca_meta = subject_meta

record cert_meta = subject_meta +
  m_ca_id :: string
  m_dns_list :: "string list"
  m_ip_list :: "string list"
  m_revoked_at :: "int option"
  m_revocation_reason :: "string option"

record ca_secrets =
  s_cert_pem :: string
  s_key_pem :: string
  s_pkcs12 :: string
  s_password :: string
  s_index_txt :: string
  s_serial_txt :: string
  s_crl_der :: string
  s_crl_updated_at :: int
  s_crlnumber_txt :: string

record cert_secrets =
  k_cert_pem :: string
  k_key_pem :: string
  k_csr_pem :: string
  k_pkcs12 :: string
  k_password :: string
  k_bundle_zip :: string

record certificate_authority = subject_meta +
  v_cert_count :: int
  v_cert_pem :: string
  v_key_pem :: string
  v_crl_url :: "string option"

record certificate = cert_meta +
  w_cert_pem :: string
  w_key_pem :: string

record user_record =
  u_id :: string
  u_username :: string
  u_password_hash :: string
  u_role :: string
  u_created_at :: int

record user_view =
  uv_id :: string
  uv_username :: string
  uv_role :: string
  uv_created_at :: int

section \<open>Requests\<close>

record create_ca_request =
  rq_common_name :: string
  rq_country_code :: string
  rq_state :: string
  rq_city :: string
  rq_organization :: string
  rq_organization_unit :: string
  rq_valid_days :: int
  rq_digest_algorithm :: string
  rq_key_profile :: string
  rq_password :: "string option"

record create_cert_request = create_ca_request +
  rq_dns_list :: "string list"
  rq_ip_list :: "string list"

record create_user_request =
  cu_username :: string
  cu_password :: string
  cu_role :: string

section \<open>Templates\<close>

datatype template_scope = Both | Ca | Certificate

definition scope_parse :: "string \<Rightarrow> template_scope option" where
  "scope_parse v =
     (if trim v = ''both'' then Some Both
      else if trim v = ''ca'' then Some Ca
      else if trim v = ''certificate'' then Some Certificate
      else None)"

fun scope_as_str :: "template_scope \<Rightarrow> string" where
  "scope_as_str Both = ''both''"
| "scope_as_str Ca = ''ca''"
| "scope_as_str Certificate = ''certificate''"

definition scope_covers :: "template_scope \<Rightarrow> template_scope \<Rightarrow> bool" where
  "scope_covers s kind \<longleftrightarrow> s = Both \<or> s = kind"

definition scope_overlaps :: "template_scope \<Rightarrow> template_scope \<Rightarrow> bool" where
  "scope_overlaps s t \<longleftrightarrow> s = Both \<or> t = Both \<or> s = t"

record template_values =
  tv_country_code :: "string option"
  tv_state :: "string option"
  tv_city :: "string option"
  tv_organization :: "string option"
  tv_organization_unit :: "string option"
  tv_valid_days :: "int option"
  tv_digest_algorithm :: "string option"
  tv_key_profile :: "string option"

definition or_else :: "'a option \<Rightarrow> 'a option \<Rightarrow> 'a option" where
  "or_else a b = (case a of None \<Rightarrow> b | Some x \<Rightarrow> Some x)"

definition values_over :: "template_values \<Rightarrow> template_values \<Rightarrow> template_values" where
  "values_over s base =
     \<lparr>tv_country_code = or_else (tv_country_code s) (tv_country_code base),
      tv_state = or_else (tv_state s) (tv_state base),
      tv_city = or_else (tv_city s) (tv_city base),
      tv_organization = or_else (tv_organization s) (tv_organization base),
      tv_organization_unit = or_else (tv_organization_unit s) (tv_organization_unit base),
      tv_valid_days = or_else (tv_valid_days s) (tv_valid_days base),
      tv_digest_algorithm = or_else (tv_digest_algorithm s) (tv_digest_algorithm base),
      tv_key_profile = or_else (tv_key_profile s) (tv_key_profile base)\<rparr>"

definition clean_field :: "string option \<Rightarrow> string option" where
  "clean_field v =
     (case v of None \<Rightarrow> None | Some x \<Rightarrow> if trim x = [] then None else Some (trim x))"

definition values_normalized :: "template_values \<Rightarrow> template_values" where
  "values_normalized v =
     \<lparr>tv_country_code = map_option to_uppercase (clean_field (tv_country_code v)),
      tv_state = clean_field (tv_state v),
      tv_city = clean_field (tv_city v),
      tv_organization = clean_field (tv_organization v),
      tv_organization_unit = clean_field (tv_organization_unit v),
      tv_valid_days = tv_valid_days v,
      tv_digest_algorithm = map_option to_lowercase (clean_field (tv_digest_algorithm v)),
      tv_key_profile = map_option to_lowercase (clean_field (tv_key_profile v))\<rparr>"

record template =
  t_id :: string
  t_name :: string
  t_scope :: string
  t_is_default :: bool
  t_values :: template_values
  t_created_at :: int
  t_updated_at :: int

definition template_scope_of :: "template \<Rightarrow> template_scope" where
  "template_scope_of t = (case scope_parse (t_scope t) of Some s \<Rightarrow> s | None \<Rightarrow> Both)"

record template_request =
  tr_name :: string
  tr_scope :: "string option"
  tr_is_default :: bool
  tr_values :: template_values

section \<open>Facts on scopes and values\<close>

lemma scope_word_trim: "trim (scope_as_str s) = scope_as_str s"
  by (rule trim_graphic) (cases s; simp add: is_ascii_graphic_def byte_def)

lemma scope_parse_as_str [simp]: "scope_parse (scope_as_str s) = Some s"
  unfolding scope_parse_def scope_word_trim by (cases s) auto

lemma scope_parse_Some: "scope_parse v = Some s \<Longrightarrow> trim v = scope_as_str s"
  by (auto simp: scope_parse_def split: if_splits)

lemma scope_overlaps_sym: "scope_overlaps s t = scope_overlaps t s"
  by (auto simp: scope_overlaps_def)

text \<open>Two scopes overlap exactly when some creation form is covered by both.\<close>

lemma scope_overlaps_iff_common_form:
  "scope_overlaps s t \<longleftrightarrow> (\<exists>kind \<in> {Ca, Certificate}. scope_covers s kind \<and> scope_covers t kind)"
  by (cases s; cases t) (auto simp: scope_overlaps_def scope_covers_def)

lemma or_else_simps [simp]:
  "or_else None b = b" "or_else (Some x) b = Some x" "or_else a None = a"
  by (auto simp: or_else_def split: option.splits)

lemma or_else_assoc: "or_else (or_else a b) c = or_else a (or_else b c)"
  by (cases a) auto

lemma values_over_assoc:
  "values_over (values_over a b) c = values_over a (values_over b c)"
  by (simp add: values_over_def or_else_assoc)

lemma clean_field_idem [simp]: "clean_field (clean_field v) = clean_field v"
  by (auto simp: clean_field_def split: option.splits)

lemma clean_field_Some: "clean_field v = Some x \<Longrightarrow> x \<noteq> [] \<and> trim x = x"
  by (auto simp: clean_field_def split: option.splits if_splits)

end
