(* ===== verification/Db_State.thy ===== *)
theory Db_State
  imports Models
begin

text \<open>
  The database of \<open>src/src/db.rs\<close>: its five tables with the columns of the schema, and
  the integrity the schema itself declares (primary keys, unique columns, references).
  Rows group the columns of \<open>CaMeta\<close>, \<open>CaSecrets\<close> and \<open>CertSecrets\<close> as records;
  \<open>dns_list\<close> and \<open>ip_list\<close> are stored as one ';'-joined text, as in the schema.
\<close>

record ca_row =
  car_meta :: ca_meta
  car_secrets :: ca_secrets
  car_truststore :: string
  car_deleted :: bool
  car_created_at :: int
  car_updated_at :: int
  car_meta_version :: int

record cert_row =
  cer_meta :: subject_meta
  cer_ca_id :: string
  cer_dns_list :: string
  cer_ip_list :: string
  cer_secrets :: cert_secrets
  cer_revoked_at :: "int option"
  cer_revocation_reason :: "string option"
  cer_deleted :: bool
  cer_created_at :: int
  cer_updated_at :: int
  cer_meta_version :: int

record lock_row =
  l_ca_id :: string
  l_owner_id :: string
  l_locked_at :: int
  l_expires_at :: int

record db =
  cas :: "ca_row list"
  certs :: "cert_row list"
  ca_locks :: "lock_row list"
  users :: "user_record list"
  templates :: "template list"

definition empty_db :: db where
  "empty_db = \<lparr>cas = [], certs = [], ca_locks = [], users = [], templates = []\<rparr>"

definition car_id :: "ca_row \<Rightarrow> string" where "car_id r = m_id (car_meta r)"
definition cer_id :: "cert_row \<Rightarrow> string" where "cer_id r = m_id (cer_meta r)"

text \<open>The selections that most statements make.\<close>

definition active_ca :: "string \<Rightarrow> ca_row \<Rightarrow> bool" where
  "active_ca i r \<longleftrightarrow> car_id r = i \<and> \<not> car_deleted r"

definition active_cert :: "string \<Rightarrow> string \<Rightarrow> cert_row \<Rightarrow> bool" where
  "active_cert ca_id i r \<longleftrightarrow> cer_ca_id r = ca_id \<and> cer_id r = i \<and> \<not> cer_deleted r"

text \<open>\<open>(SELECT deleted FROM certificate_authorities WHERE id = ?1) = 0\<close>; NULL is not 0.\<close>

definition ca_live :: "db \<Rightarrow> string \<Rightarrow> bool" where
  "ca_live d i = (case find (\<lambda>r. car_id r = i) (cas d) of
     None \<Rightarrow> False | Some r \<Rightarrow> \<not> car_deleted r)"

definition split_list :: "string \<Rightarrow> string list" where
  "split_list s = filter (\<lambda>x. x \<noteq> []) (map trim (split_on (\<lambda>c. c = CHR '';'') s))"

definition blob_string :: "string \<Rightarrow> string" where
  "blob_string b = from_utf8_lossy b"

text \<open>The text used to compare common names: \<open>lower(trim(common_name))\<close>.\<close>

definition cn_key :: "string \<Rightarrow> string" where
  "cn_key s = sql_lower (sql_trim s)"

section \<open>Integrity of the schema\<close>

text \<open>
  What the \<open>CREATE TABLE\<close> statements enforce. The engine refuses every statement that
  would break it; that the statements of the model never do is proved operation by
  operation in the theories that follow.
\<close>

definition keys_ok :: "db \<Rightarrow> bool" where
  "keys_ok d \<longleftrightarrow>
     distinct (map car_id (cas d)) \<and> distinct (map cer_id (certs d)) \<and>
     distinct (map l_ca_id (ca_locks d)) \<and> distinct (map u_id (users d)) \<and>
     distinct (map u_username (users d)) \<and> distinct (map t_id (templates d)) \<and>
     distinct (map (\<lambda>t. nocase (t_name t)) (templates d))"

definition refs_ok :: "db \<Rightarrow> bool" where
  "refs_ok d \<longleftrightarrow>
     cer_ca_id ` set (certs d) \<subseteq> car_id ` set (cas d) \<and>
     l_ca_id ` set (ca_locks d) \<subseteq> car_id ` set (cas d)"

definition schema_ok :: "db \<Rightarrow> bool" where
  "schema_ok d \<longleftrightarrow> keys_ok d \<and> refs_ok d"

lemmas schema_defs = schema_ok_def keys_ok_def refs_ok_def

text \<open>The columns that tie the tables together: no statement that leaves them alone can
  break the schema's integrity.\<close>

lemma schema_ok_cong:
  assumes "map car_id (cas d') = map car_id (cas d)"
    and "map cer_id (certs d') = map cer_id (certs d)"
    and "map cer_ca_id (certs d') = map cer_ca_id (certs d)"
    and "ca_locks d' = ca_locks d" and "users d' = users d" and "templates d' = templates d"
  shows "schema_ok d' = schema_ok d"
proof -
  have "car_id ` set (cas d') = car_id ` set (cas d)"
    by (metis assms(1) set_map)
  moreover have "cer_ca_id ` set (certs d') = cer_ca_id ` set (certs d)"
    by (metis assms(3) set_map)
  ultimately show ?thesis
    by (simp only: schema_defs assms)
qed

text \<open>One table at a time.\<close>

lemma schema_ok_users:
  "schema_ok d \<Longrightarrow> distinct (map u_id us) \<Longrightarrow> distinct (map u_username us) \<Longrightarrow>
   schema_ok (d\<lparr>users := us\<rparr>)"
  by (simp add: schema_defs)

lemma schema_ok_templates:
  "schema_ok d \<Longrightarrow> distinct (map t_id ts) \<Longrightarrow> distinct (map (\<lambda>t. nocase (t_name t)) ts) \<Longrightarrow>
   schema_ok (d\<lparr>templates := ts\<rparr>)"
  by (simp add: schema_defs)

lemma schema_ok_locks:
  "schema_ok d \<Longrightarrow> distinct (map l_ca_id ls) \<Longrightarrow> l_ca_id ` set ls \<subseteq> car_id ` set (cas d) \<Longrightarrow>
   schema_ok (d\<lparr>ca_locks := ls\<rparr>)"
  by (simp add: schema_defs)

lemma schema_ok_certs:
  "schema_ok d \<Longrightarrow> distinct (map cer_id cs) \<Longrightarrow> cer_ca_id ` set cs \<subseteq> car_id ` set (cas d) \<Longrightarrow>
   schema_ok (d\<lparr>certs := cs\<rparr>)"
  by (simp add: schema_defs)

lemma schema_ok_empty: "schema_ok empty_db"
  by (simp add: schema_defs empty_db_def)

lemma find_ca_row:
  assumes "schema_ok d" and "r \<in> set (cas d)" and "car_id r = i"
  shows "find (\<lambda>x. car_id x = i) (cas d) = Some r"
  using assms by (intro find_distinct [where g = car_id]) (auto simp: schema_defs)

lemma find_cert_row:
  assumes "schema_ok d" and "r \<in> set (certs d)" and "cer_id r = i"
  shows "find (\<lambda>x. cer_id x = i) (certs d) = Some r"
  using assms by (intro find_distinct [where g = cer_id]) (auto simp: schema_defs)

lemma ca_row_unique:
  assumes "schema_ok d" "r \<in> set (cas d)" "s \<in> set (cas d)" "car_id r = car_id s"
  shows "r = s"
  using assms by (auto simp: schema_defs distinct_map inj_on_def)

lemma cert_row_unique:
  assumes "schema_ok d" "r \<in> set (certs d)" "s \<in> set (certs d)" "cer_id r = cer_id s"
  shows "r = s"
  using assms by (auto simp: schema_defs distinct_map inj_on_def)

lemma ca_live_iff:
  "schema_ok d \<Longrightarrow> ca_live d i \<longleftrightarrow> (\<exists>r \<in> set (cas d). active_ca i r)"
  unfolding ca_live_def active_ca_def
  by (auto simp: find_None_D split: option.splits dest!: find_Some_iff_D dest: ca_row_unique)

section \<open>Lists of names in one column\<close>

text \<open>
  \<open>join(";")\<close> and \<open>split_list\<close> are inverse on entries that are trimmed, non-empty and
  free of ';', which is why the program filters such entries before storing them.
\<close>

lemma split_list_join:
  assumes "\<forall>x \<in> set xs. x \<noteq> [] \<and> trim x = x \<and> CHR '';'' \<notin> set x"
  shows "split_list (join '';'' xs) = xs"
proof (cases "xs = []")
  case True
  then show ?thesis by (simp add: split_list_def)
next
  case False
  have "split_on (\<lambda>c. c = CHR '';'') (join '';'' xs) = xs"
    using False assms by (intro split_on_join) auto
  moreover have "map trim xs = xs"
    using assms by (simp add: map_idI)
  ultimately show ?thesis
    using assms by (simp add: split_list_def)
qed

lemma split_list_entries:
  "x \<in> set (split_list s) \<Longrightarrow> x \<noteq> [] \<and> trim x = x \<and> CHR '';'' \<notin> set x"
proof -
  assume "x \<in> set (split_list s)"
  then obtain w where w: "w \<in> set (split_on (\<lambda>c. c = CHR '';'') s)" "x = trim w" "x \<noteq> []"
    by (auto simp: split_list_def)
  then have "CHR '';'' \<notin> set w" using split_on_pieces by fastforce
  with w show ?thesis using set_trim_subset by auto
qed

text \<open>So reading a stored list and storing it again changes nothing.\<close>

lemma split_list_stable: "split_list (join '';'' (split_list s)) = split_list s"
  by (rule split_list_join) (auto dest: split_list_entries)

end
