(* ===== verification/Db_Ca.thy ===== *)
theory Db_Ca
  imports Db_State
begin

text \<open>
  The operations of \<open>Db\<close> on certificate authorities (\<open>src/src/db.rs\<close>): insertion,
  listing, soft deletion and restoration, metadata repair, truststore and CRL columns.
  \<open>now\<close> is \<open>Utc::now().timestamp_millis()\<close>. An operation that is one transaction
  returns the new database or an error; an error is a rollback, so it returns no state.
\<close>

section \<open>Operations\<close>

definition insert_ca :: "int \<Rightarrow> ca_meta \<Rightarrow> ca_secrets \<Rightarrow> db \<Rightarrow> db result" where
  "insert_ca now meta secrets d =
     bind_res
       (insert_row ''certificate_authorities.id'' car_id
          \<lparr>car_meta = meta, car_secrets = secrets, car_truststore = [], car_deleted = False,
           car_created_at = now, car_updated_at = now, car_meta_version = 1\<rparr> (cas d))
       (\<lambda>t. Inr (d\<lparr>cas := t\<rparr>))"

definition live_cert_count :: "db \<Rightarrow> string \<Rightarrow> int" where
  "live_cert_count d i = int (count_where (\<lambda>c. cer_ca_id c = i \<and> \<not> cer_deleted c) (certs d))"

definition ca_view :: "db \<Rightarrow> ca_row \<Rightarrow> certificate_authority" where
  "ca_view d r =
     subject_meta.extend (car_meta r)
       (certificate_authority.fields (live_cert_count d (car_id r))
          (blob_string (s_cert_pem (car_secrets r))) (blob_string (s_key_pem (car_secrets r))) None)"

definition list_cas :: "db \<Rightarrow> certificate_authority list" where
  "list_cas d =
     map (ca_view d) (order_by_desc car_created_at (filter (\<lambda>r. \<not> car_deleted r) (cas d)))"

definition get_ca :: "string \<Rightarrow> db \<Rightarrow> certificate_authority result" where
  "get_ca i d = ok_or (Bail (''CA not found: '' @ i)) (find (\<lambda>ca. m_id ca = i) (list_cas d))"

definition update_ca_metadata :: "int \<Rightarrow> string \<Rightarrow> string \<Rightarrow> string \<Rightarrow> db \<Rightarrow> db result" where
  "update_ca_metadata now i key_profile digest d =
     (if count_where (active_ca i) (cas d) = 0 then Inl (Bail (''CA not found: '' @ i))
      else Inr (d\<lparr>cas := update_where (active_ca i)
        (\<lambda>r. r\<lparr>car_meta := (car_meta r)\<lparr>m_key_profile := key_profile,
                 m_digest_algorithm := digest\<rparr>, car_updated_at := now\<rparr>) (cas d)\<rparr>))"

definition ca_exists :: "string \<Rightarrow> db \<Rightarrow> bool" where
  "ca_exists i d \<longleftrightarrow> 0 < count_where (\<lambda>r. car_id r = i) (cas d)"

definition list_cas_for_repair :: "db \<Rightarrow> (ca_meta \<times> string) list" where
  "list_cas_for_repair d =
     map (\<lambda>r. (car_meta r, s_cert_pem (car_secrets r)))
       (order_by car_created_at (filter (\<lambda>r. car_meta_version r = 0) (cas d)))"

definition update_ca_meta_repaired :: "ca_meta \<Rightarrow> db \<Rightarrow> db" where
  "update_ca_meta_repaired meta d =
     d\<lparr>cas := update_where (\<lambda>r. car_id r = m_id meta)
       (\<lambda>r. r\<lparr>car_meta := (car_meta r)\<lparr>m_country_code := m_country_code meta,
                m_state := m_state meta, m_city := m_city meta,
                m_organization := m_organization meta,
                m_organization_unit := m_organization_unit meta,
                m_subject := m_subject meta, m_issue_time := m_issue_time meta,
                m_valid_days := m_valid_days meta\<rparr>,
              car_meta_version := 1\<rparr>) (cas d)\<rparr>"

definition mark_ca_meta_checked :: "string \<Rightarrow> db \<Rightarrow> db" where
  "mark_ca_meta_checked i d =
     d\<lparr>cas := update_where (\<lambda>r. car_id r = i) (\<lambda>r. r\<lparr>car_meta_version := 1\<rparr>) (cas d)\<rparr>"

definition get_ca_secrets :: "string \<Rightarrow> db \<Rightarrow> ca_secrets result" where
  "get_ca_secrets i d =
     ok_or (Bail (''CA not found: '' @ i)) (map_option car_secrets (find (active_ca i) (cas d)))"

definition delete_ca :: "int \<Rightarrow> string \<Rightarrow> db \<Rightarrow> db result" where
  "delete_ca now i d =
     (if count_where (active_ca i) (cas d) = 0 then Inl (Bail (''CA not found: '' @ i))
      else Inr (d\<lparr>cas := update_where (active_ca i)
             (\<lambda>r. r\<lparr>car_deleted := True, car_updated_at := now\<rparr>) (cas d)\<rparr>))"

definition restore_ca :: "int \<Rightarrow> string \<Rightarrow> db \<Rightarrow> db result" where
  "restore_ca now i d =
     bind_res
       (ok_or (Bail (''deleted CA not found: '' @ i))
          (map_option (\<lambda>r. m_common_name (car_meta r))
             (find (\<lambda>r. car_id r = i \<and> car_deleted r) (cas d))))
       (\<lambda>common_name.
          if 0 < count_where (\<lambda>r. \<not> car_deleted r \<and>
                   cn_key (m_common_name (car_meta r)) = cn_key common_name) (cas d)
          then Inl (Bail (''cannot restore CA: an active CA already uses the common name ''
                     @ trim common_name))
          else Inr (d\<lparr>cas := update_where (\<lambda>r. car_id r = i \<and> car_deleted r)
                 (\<lambda>r. r\<lparr>car_deleted := False, car_updated_at := now\<rparr>) (cas d)\<rparr>))"

definition list_deleted_cas :: "db \<Rightarrow> certificate_authority list" where
  "list_deleted_cas d =
     map (ca_view d) (order_by_desc car_updated_at (filter car_deleted (cas d)))"

definition ca_common_name :: "string \<Rightarrow> db \<Rightarrow> string option" where
  "ca_common_name i d =
     map_option (\<lambda>r. m_common_name (car_meta r)) (find (\<lambda>r. car_id r = i) (cas d))"

definition ca_common_name_exists :: "string \<Rightarrow> db \<Rightarrow> bool" where
  "ca_common_name_exists common_name d \<longleftrightarrow>
     0 < count_where (\<lambda>r. \<not> car_deleted r \<and>
           cn_key (m_common_name (car_meta r)) = sql_lower (trim common_name)) (cas d)"

definition get_ca_truststore :: "string \<Rightarrow> db \<Rightarrow> string result" where
  "get_ca_truststore i d =
     ok_or (Bail (''CA not found: '' @ i)) (map_option car_truststore (find (active_ca i) (cas d)))"

definition truststore_target :: "string \<Rightarrow> string \<Rightarrow> ca_row \<Rightarrow> bool" where
  "truststore_target i cert_pem r \<longleftrightarrow> active_ca i r \<and> s_cert_pem (car_secrets r) = cert_pem"

definition set_ca_truststore :: "string \<Rightarrow> string \<Rightarrow> string \<Rightarrow> db \<Rightarrow> bool \<times> db" where
  "set_ca_truststore i cert_pem truststore d =
     (0 < count_where (truststore_target i cert_pem) (cas d),
      d\<lparr>cas := update_where (truststore_target i cert_pem)
                (\<lambda>r. r\<lparr>car_truststore := truststore\<rparr>) (cas d)\<rparr>)"

definition get_ca_crl :: "string \<Rightarrow> db \<Rightarrow> string result" where
  "get_ca_crl i d =
     ok_or (Bail (''CRL not found: '' @ i))
       (map_option (\<lambda>r. s_crl_der (car_secrets r)) (find (active_ca i) (cas d)))"

lemmas ca_op_defs = insert_ca_def update_ca_metadata_def update_ca_meta_repaired_def
  mark_ca_meta_checked_def delete_ca_def restore_ca_def set_ca_truststore_def

section \<open>Reading\<close>

interpretation ca_table: keyed_table car_id "insert_row ''certificate_authorities.id'' car_id"
  by unfold_locales (auto simp: res_simps)

lemma car_id_view [simp]: "m_id (ca_view d r) = car_id r"
  by (simp add: ca_view_def car_id_def subject_meta.defs certificate_authority.defs)

lemma car_id_simps [simp]:
  "car_id (r\<lparr>car_secrets := x\<rparr>) = car_id r" "car_id (r\<lparr>car_truststore := t\<rparr>) = car_id r"
  "car_id (r\<lparr>car_deleted := b\<rparr>) = car_id r" "car_id (r\<lparr>car_created_at := n\<rparr>) = car_id r"
  "car_id (r\<lparr>car_updated_at := n\<rparr>) = car_id r"
  "car_id (r\<lparr>car_meta_version := n\<rparr>) = car_id r"
  by (simp_all add: car_id_def)

lemma find_active_ca:
  assumes "schema_ok d" and "r \<in> set (cas d)" and "active_ca i r"
  shows "find (active_ca i) (cas d) = Some r"
  using assms
  by (intro find_distinct [where g = car_id]) (auto simp: schema_defs active_ca_def)

lemma find_active_ca_iff:
  "schema_ok d \<Longrightarrow> find (active_ca i) (cas d) = Some r \<longleftrightarrow> r \<in> set (cas d) \<and> active_ca i r"
  using find_active_ca by (blast dest: find_Some_iff_D)

text \<open>\<open>get_ca\<close> searches the listing; it finds exactly the active row with that id.\<close>

lemma get_ca_Inr:
  assumes "schema_ok d"
  shows "get_ca i d = Inr v \<longleftrightarrow> (\<exists>r \<in> set (cas d). active_ca i r \<and> v = ca_view d r)"
proof -
  let ?l = "order_by_desc car_created_at (filter (\<lambda>r. \<not> car_deleted r) (cas d))"
  have dist: "distinct (map car_id ?l)"
    using assms
    by (simp add: schema_defs order_by_desc_def distinct_map inj_on_def)
  have m: "map m_id (map (ca_view d) ?l) = map car_id ?l" by simp
  show ?thesis
  proof
    assume "get_ca i d = Inr v"
    then have "v \<in> set (list_cas d) \<and> m_id v = i"
      by (auto simp: get_ca_def res_simps dest: find_Some_iff_D)
    then show "\<exists>r \<in> set (cas d). active_ca i r \<and> v = ca_view d r"
      by (auto simp: list_cas_def active_ca_def)
  next
    assume "\<exists>r \<in> set (cas d). active_ca i r \<and> v = ca_view d r"
    then obtain r where r: "r \<in> set ?l" "car_id r = i" "v = ca_view d r"
      by (auto simp: active_ca_def)
    have "find (\<lambda>ca. m_id ca = i) (map (ca_view d) ?l) = Some v"
      using dist r by (intro find_distinct [where g = m_id]) (auto simp: o_def)
    then show "get_ca i d = Inr v"
      by (simp add: get_ca_def list_cas_def)
  qed
qed

lemma get_ca_Inl:
  assumes "schema_ok d"
  shows "get_ca i d = Inl e \<longleftrightarrow>
    (\<forall>r \<in> set (cas d). \<not> active_ca i r) \<and> e = Bail (''CA not found: '' @ i)"
proof (cases "get_ca i d")
  case (Inl e')
  then have "e' = Bail (''CA not found: '' @ i)" by (auto simp: get_ca_def res_simps)
  moreover have "\<forall>r \<in> set (cas d). \<not> active_ca i r"
    using get_ca_Inr [OF assms] Inl by (metis sum.distinct(1))
  ultimately show ?thesis using Inl by auto
next
  case (Inr v)
  then show ?thesis using get_ca_Inr [OF assms, of i v] by auto
qed

lemma get_ca_live: "schema_ok d \<Longrightarrow> (\<exists>v. get_ca i d = Inr v) \<longleftrightarrow> ca_live d i"
  by (auto simp: get_ca_Inr ca_live_iff)

lemma get_ca_secrets_Inr:
  "schema_ok d \<Longrightarrow> get_ca_secrets i d = Inr s \<longleftrightarrow>
     (\<exists>r \<in> set (cas d). active_ca i r \<and> s = car_secrets r)"
  by (auto simp: get_ca_secrets_def res_simps find_active_ca_iff)

section \<open>Writing\<close>

lemma insert_ca_Inr:
  "insert_ca now meta secrets d = Inr d' \<longleftrightarrow>
     m_id meta \<notin> car_id ` set (cas d) \<and>
     d' = d\<lparr>cas := cas d @
       [\<lparr>car_meta = meta, car_secrets = secrets, car_truststore = [], car_deleted = False,
         car_created_at = now, car_updated_at = now, car_meta_version = 1\<rparr>]\<rparr>"
  by (auto simp: insert_ca_def res_simps car_id_def)

lemma delete_ca_Inr:
  "delete_ca now i d = Inr d' \<longleftrightarrow>
     (\<exists>r \<in> set (cas d). active_ca i r) \<and>
     d' = d\<lparr>cas := update_where (active_ca i)
            (\<lambda>r. r\<lparr>car_deleted := True, car_updated_at := now\<rparr>) (cas d)\<rparr>"
  by (auto simp: delete_ca_def table_simps)

definition ca_cn :: "ca_row \<Rightarrow> string" where "ca_cn r = cn_key (m_common_name (car_meta r))"

lemma restore_ca_Inr:
  assumes "schema_ok d"
  shows "restore_ca now i d = Inr d' \<longleftrightarrow>
    (\<exists>r \<in> set (cas d). car_id r = i \<and> car_deleted r \<and>
       (\<forall>s \<in> set (cas d). \<not> car_deleted s \<longrightarrow> ca_cn s \<noteq> ca_cn r)) \<and>
    d' = d\<lparr>cas := update_where (\<lambda>r. car_id r = i \<and> car_deleted r)
            (\<lambda>r. r\<lparr>car_deleted := False, car_updated_at := now\<rparr>) (cas d)\<rparr>"
proof (cases "find (\<lambda>r. car_id r = i \<and> car_deleted r) (cas d)")
  case None
  then have "\<forall>r \<in> set (cas d). \<not> (car_id r = i \<and> car_deleted r)"
    by (simp add: find_None_D)
  then show ?thesis by (auto simp: restore_ca_def None)
next
  case (Some r)
  then have r: "r \<in> set (cas d)" "car_id r = i" "car_deleted r"
    by (auto dest: find_Some_iff_D)
  have uniq: "s = r" if "s \<in> set (cas d)" "car_id s = i" for s
    using ca_row_unique [OF assms that(1) r(1)] that r by simp
  have "(\<exists>r' \<in> set (cas d). car_id r' = i \<and> car_deleted r' \<and>
       (\<forall>s \<in> set (cas d). \<not> car_deleted s \<longrightarrow> ca_cn s \<noteq> ca_cn r')) \<longleftrightarrow>
     (\<forall>s \<in> set (cas d). \<not> car_deleted s \<longrightarrow> ca_cn s \<noteq> ca_cn r)"
    using r uniq by metis
  then show ?thesis
    using Some by (auto simp: restore_ca_def res_simps table_simps ca_cn_def)
qed

text \<open>Every operation on CAs keeps the schema's integrity.\<close>

lemma update_cas_schema_ok:
  assumes "\<And>r. p r \<Longrightarrow> car_id (f r) = car_id r"
  shows "schema_ok (d\<lparr>cas := update_where p f (cas d)\<rparr>) = schema_ok d"
  using assms by (intro schema_ok_cong) (simp_all add: update_where_keeps)

lemma insert_ca_schema_ok:
  assumes "insert_ca now meta secrets d = Inr d'" and "schema_ok d"
  shows "schema_ok d'"
  using assms by (auto simp: insert_ca_Inr schema_defs car_id_def)

lemma delete_ca_schema_ok: "delete_ca now i d = Inr d' \<Longrightarrow> schema_ok d \<Longrightarrow> schema_ok d'"
  by (auto simp: delete_ca_Inr update_cas_schema_ok)

lemma restore_ca_schema_ok: "restore_ca now i d = Inr d' \<Longrightarrow> schema_ok d \<Longrightarrow> schema_ok d'"
  by (auto simp: restore_ca_Inr update_cas_schema_ok)

lemma update_ca_metadata_schema_ok:
  "update_ca_metadata now i p g d = Inr d' \<Longrightarrow> schema_ok d \<Longrightarrow> schema_ok d'"
  by (auto simp: update_ca_metadata_def car_id_def update_cas_schema_ok split: if_splits)

lemma repair_schema_ok:
  "schema_ok (update_ca_meta_repaired meta d) = schema_ok d"
  "schema_ok (mark_ca_meta_checked i d) = schema_ok d"
  "schema_ok (snd (set_ca_truststore i c t d)) = schema_ok d"
  by (auto simp: update_ca_meta_repaired_def mark_ca_meta_checked_def set_ca_truststore_def
      car_id_def update_cas_schema_ok)

section \<open>Names of active CAs\<close>

text \<open>
  The rule \<open>restore_ca\<close> enforces: no two active CAs share \<open>lower(trim(common_name))\<close>.
\<close>

definition ca_names_ok :: "db \<Rightarrow> bool" where
  "ca_names_ok d \<longleftrightarrow>
     (\<forall>r \<in> set (cas d). \<forall>s \<in> set (cas d).
        \<not> car_deleted r \<longrightarrow> \<not> car_deleted s \<longrightarrow> ca_cn r = ca_cn s \<longrightarrow> car_id r = car_id s)"

lemma ca_cn_simps [simp]:
  "ca_cn (r\<lparr>car_deleted := b\<rparr>) = ca_cn r" "ca_cn (r\<lparr>car_updated_at := n\<rparr>) = ca_cn r"
  by (simp_all add: ca_cn_def)

text \<open>An operation that adds at most one active name, which was free, keeps the rule.\<close>

lemma ca_names_ok_step:
  assumes "ca_names_ok d"
    and "\<And>r. r \<in> set (cas d') \<Longrightarrow> \<not> car_deleted r \<Longrightarrow>
       (car_id r = i \<and> ca_cn r = n) \<or>
       (\<exists>s \<in> set (cas d). \<not> car_deleted s \<and> ca_cn s = ca_cn r \<and> car_id s = car_id r)"
    and "\<And>s. s \<in> set (cas d) \<Longrightarrow> \<not> car_deleted s \<Longrightarrow> ca_cn s \<noteq> n"
  shows "ca_names_ok d'"
  unfolding ca_names_ok_def
proof (intro ballI impI)
  fix r s
  assume "r \<in> set (cas d')" "s \<in> set (cas d')" "\<not> car_deleted r" "\<not> car_deleted s"
    and eq: "ca_cn r = ca_cn s"
  with assms(2) [of r] assms(2) [of s] show "car_id r = car_id s"
    using assms(1,3) eq unfolding ca_names_ok_def by metis
qed

lemma ca_names_ok_mono:
  assumes "ca_names_ok d"
    and "\<And>r. r \<in> set (cas d') \<Longrightarrow> \<not> car_deleted r \<Longrightarrow>
       \<exists>s \<in> set (cas d). \<not> car_deleted s \<and> ca_cn s = ca_cn r \<and> car_id s = car_id r"
  shows "ca_names_ok d'"
  using assms unfolding ca_names_ok_def by metis

lemma delete_ca_names_ok: "delete_ca now i d = Inr d' \<Longrightarrow> ca_names_ok d \<Longrightarrow> ca_names_ok d'"
  by (rule ca_names_ok_mono [of d]) (auto simp: delete_ca_Inr table_simps)

lemma restore_ca_names_ok:
  assumes "restore_ca now i d = Inr d'" and "schema_ok d" and "ca_names_ok d"
  shows "ca_names_ok d'"
proof -
  from assms obtain r where r: "r \<in> set (cas d)" "car_id r = i" "car_deleted r"
    "\<forall>s \<in> set (cas d). \<not> car_deleted s \<longrightarrow> ca_cn s \<noteq> ca_cn r"
    and d': "d' = d\<lparr>cas := update_where (\<lambda>r. car_id r = i \<and> car_deleted r)
            (\<lambda>r. r\<lparr>car_deleted := False, car_updated_at := now\<rparr>) (cas d)\<rparr>"
    by (auto simp: restore_ca_Inr)
  have uniq: "s = r" if "s \<in> set (cas d)" "car_id s = i" for s
    using ca_row_unique [OF assms(2) that(1) r(1)] that r by simp
  show ?thesis
  proof (rule ca_names_ok_step [OF assms(3), where i = i and n = "ca_cn r"])
    fix s assume "s \<in> set (cas d')" and "\<not> car_deleted s"
    then consider "s \<in> set (cas d)" "\<not> car_deleted s"
      | "car_id s = i" "ca_cn s = ca_cn r"
      using uniq by (auto simp: d' table_simps)
    then show "car_id s = i \<and> ca_cn s = ca_cn r \<or>
       (\<exists>t \<in> set (cas d). \<not> car_deleted t \<and> ca_cn t = ca_cn s \<and> car_id t = car_id s)"
      by cases auto
  qed (use r in blast)
qed

text \<open>
  The check made before a CA is created trims its argument the Rust way and the stored
  names the SQL way. The two agree on names whose outer white space is spaces only.
\<close>

lemma ca_common_name_exists_iff:
  assumes "trim n = sql_trim n"
  shows "ca_common_name_exists n d \<longleftrightarrow>
    (\<exists>r \<in> set (cas d). \<not> car_deleted r \<and> ca_cn r = cn_key n)"
  using assms by (auto simp: ca_common_name_exists_def table_simps ca_cn_def cn_key_def)

lemma insert_ca_names_ok:
  assumes "insert_ca now meta secrets d = Inr d'" and "ca_names_ok d"
    and "\<not> ca_common_name_exists (m_common_name meta) d"
    and "trim (m_common_name meta) = sql_trim (m_common_name meta)"
  shows "ca_names_ok d'"
proof (rule ca_names_ok_step [OF assms(2), where i = "m_id meta"
      and n = "cn_key (m_common_name meta)"])
  fix r assume "r \<in> set (cas d')" "\<not> car_deleted r"
  with assms(1) show "car_id r = m_id meta \<and> ca_cn r = cn_key (m_common_name meta) \<or>
     (\<exists>s \<in> set (cas d). \<not> car_deleted s \<and> ca_cn s = ca_cn r \<and> car_id s = car_id r)"
    by (auto simp: insert_ca_Inr car_id_def ca_cn_def)
next
  fix s assume "s \<in> set (cas d)" "\<not> car_deleted s"
  with assms(3) show "ca_cn s \<noteq> cn_key (m_common_name meta)"
    by (auto simp: ca_common_name_exists_iff [OF assms(4)])
qed

end
