(* ===== verification/Db_Lock.thy ===== *)
theory Db_Lock
  imports Db_Ca
begin

text \<open>
  The per-CA signing lock (\<open>acquire_ca_lock\<close>, \<open>release_ca_lock\<close>, \<open>verify_lock_tx\<close> of
  \<open>src/src/db.rs\<close>) and its contract as a locale: at most one holder per CA, a holder that
  is not expired cannot be displaced, and only the holder passes \<open>verify_lock_tx\<close>.
\<close>

section \<open>Operations\<close>

definition acquire_ca_lock :: "int \<Rightarrow> string \<Rightarrow> string \<Rightarrow> int \<Rightarrow> db \<Rightarrow> db result" where
  "acquire_ca_lock now ca_id owner_id ttl_ms d =
     (let expires = add64 now ttl_ms;
          locks = delete_where (\<lambda>l. l_expires_at l < now) (ca_locks d)
      in case find (\<lambda>l. l_ca_id l = ca_id) locks of
           Some _ \<Rightarrow> Inl (Bail ''CA is busy; retry shortly'')
         | None \<Rightarrow>
             if \<not> ca_exists ca_id d then Inl Foreign_key_violation
             else bind_res
               (insert_row ''ca_locks.ca_id'' l_ca_id
                  \<lparr>l_ca_id = ca_id, l_owner_id = owner_id, l_locked_at = now,
                   l_expires_at = expires\<rparr> locks)
               (\<lambda>t. Inr (d\<lparr>ca_locks := t\<rparr>)))"

definition owns_lock :: "string \<Rightarrow> string \<Rightarrow> lock_row \<Rightarrow> bool" where
  "owns_lock ca_id owner_id l \<longleftrightarrow> l_ca_id l = ca_id \<and> l_owner_id l = owner_id"

definition release_ca_lock :: "string \<Rightarrow> string \<Rightarrow> db \<Rightarrow> db" where
  "release_ca_lock ca_id owner_id d =
     d\<lparr>ca_locks := delete_where (owns_lock ca_id owner_id) (ca_locks d)\<rparr>"

definition verify_lock_tx :: "string \<Rightarrow> string \<Rightarrow> db \<Rightarrow> unit result" where
  "verify_lock_tx ca_id owner_id d =
     (case find (owns_lock ca_id owner_id) (ca_locks d) of
        None \<Rightarrow> Inl (Bail ''lost CA signing lock'')
      | Some _ \<Rightarrow> Inr ())"

text \<open>The lock's holder, as a function of the table.\<close>

definition lock_holder :: "db \<Rightarrow> string \<Rightarrow> string option" where
  "lock_holder d ca_id = map_option l_owner_id (find (\<lambda>l. l_ca_id l = ca_id) (ca_locks d))"

section \<open>Facts\<close>

interpretation lock_table: keyed_table l_ca_id "insert_row ''ca_locks.ca_id'' l_ca_id"
  by unfold_locales (auto simp: res_simps)

lemma acquire_Inr:
  "acquire_ca_lock now ca_id o_id ttl d = Inr d' \<longleftrightarrow>
     ca_exists ca_id d \<and>
     (\<forall>l \<in> set (ca_locks d). l_ca_id l = ca_id \<longrightarrow> l_expires_at l < now) \<and>
     d' = d\<lparr>ca_locks := delete_where (\<lambda>l. l_expires_at l < now) (ca_locks d) @
             [\<lparr>l_ca_id = ca_id, l_owner_id = o_id, l_locked_at = now,
               l_expires_at = add64 now ttl\<rparr>]\<rparr>"
proof (cases "find (\<lambda>l. l_ca_id l = ca_id) (delete_where (\<lambda>l. l_expires_at l < now) (ca_locks d))")
  case None
  then have free: "\<forall>l \<in> set (ca_locks d). l_ca_id l = ca_id \<longrightarrow> l_expires_at l < now"
    by (auto simp: find_None_D table_simps)
  then show ?thesis
    using None by (auto simp: acquire_ca_lock_def Let_def res_simps table_simps)
next
  case (Some l)
  then have "l \<in> set (ca_locks d)" "l_ca_id l = ca_id" "\<not> l_expires_at l < now"
    by (auto dest!: find_Some_iff_D simp: table_simps)
  then show ?thesis
    using Some by (auto simp: acquire_ca_lock_def Let_def)
qed

lemma acquire_busy:
  "acquire_ca_lock now ca_id o_id ttl d = Inl (Bail ''CA is busy; retry shortly'') \<longleftrightarrow>
     (\<exists>l \<in> set (ca_locks d). l_ca_id l = ca_id \<and> now \<le> l_expires_at l)"
  by (auto simp: acquire_ca_lock_def Let_def find_None_D table_simps not_less res_simps
      split: option.splits dest!: find_Some_iff_D)

lemma verify_lock_Inr:
  "verify_lock_tx ca_id o_id d = Inr u \<longleftrightarrow> (\<exists>l \<in> set (ca_locks d). owns_lock ca_id o_id l)"
  by (auto simp: verify_lock_tx_def find_None_D split: option.splits dest!: find_Some_iff_D)

lemma verify_lock_Inl:
  "verify_lock_tx ca_id o_id d = Inl e \<longleftrightarrow>
     (\<forall>l \<in> set (ca_locks d). \<not> owns_lock ca_id o_id l) \<and> e = Bail ''lost CA signing lock''"
  by (auto simp: verify_lock_tx_def find_None_D split: option.splits dest!: find_Some_iff_D)

lemma lock_holder_iff:
  assumes "distinct (map l_ca_id (ca_locks d))"
  shows "lock_holder d ca_id = Some o_id \<longleftrightarrow> (\<exists>l \<in> set (ca_locks d). owns_lock ca_id o_id l)"
proof
  assume "lock_holder d ca_id = Some o_id"
  then show "\<exists>l \<in> set (ca_locks d). owns_lock ca_id o_id l"
    by (auto simp: lock_holder_def owns_lock_def dest!: find_Some_iff_D)
next
  assume "\<exists>l \<in> set (ca_locks d). owns_lock ca_id o_id l"
  then obtain l where l: "l \<in> set (ca_locks d)" "l_ca_id l = ca_id" "l_owner_id l = o_id"
    by (auto simp: owns_lock_def)
  with lock_table.find_by_key [OF assms l(1)] show "lock_holder d ca_id = Some o_id"
    by (simp add: lock_holder_def)
qed

section \<open>The contract of a lock\<close>

text \<open>
  What the signing operations rely on. \<open>holds s c o\<close>: the state says that \<open>o\<close> holds the
  lock of \<open>c\<close>. A successful acquisition makes the owner the holder; acquisition keeps
  the holders whose time is not over and gives nobody else a lock; verification accepts
  exactly holders; release ends the lock of its owner alone.
\<close>

locale lease_lock =
  fixes ok :: "'s \<Rightarrow> bool"
    and holds :: "'s \<Rightarrow> string \<Rightarrow> string \<Rightarrow> bool"
    and live :: "int \<Rightarrow> 's \<Rightarrow> string \<Rightarrow> string \<Rightarrow> bool"
    and acquire :: "int \<Rightarrow> string \<Rightarrow> string \<Rightarrow> int \<Rightarrow> 's \<Rightarrow> 's result"
    and release :: "string \<Rightarrow> string \<Rightarrow> 's \<Rightarrow> 's"
    and verify :: "string \<Rightarrow> string \<Rightarrow> 's \<Rightarrow> unit result"
  assumes one_holder: "ok s \<Longrightarrow> holds s c p \<Longrightarrow> holds s c q \<Longrightarrow> p = q"
    and live_holds: "live now s c p \<Longrightarrow> holds s c p"
    and acquire_ok: "ok s \<Longrightarrow> acquire now c p ttl s = Inr s' \<Longrightarrow> ok s'"
    and acquire_holds: "acquire now c p ttl s = Inr s' \<Longrightarrow> holds s' c p"
    and acquire_refuses: "live now s c q \<Longrightarrow> acquire now c p ttl s \<noteq> Inr s'"
    and acquire_others:
      "acquire now c p ttl s = Inr s' \<Longrightarrow> b \<noteq> c \<Longrightarrow> holds s' b q \<Longrightarrow> holds s b q"
    and release_ok: "ok s \<Longrightarrow> ok (release c p s)"
    and release_holds: "holds (release c p s) b q \<longleftrightarrow> holds s b q \<and> \<not> (b = c \<and> q = p)"
    and verify_holds: "verify c p s = Inr u \<longleftrightarrow> holds s c p"
begin

lemma verify_exclusive:
  "ok s \<Longrightarrow> verify c p s = Inr u \<Longrightarrow> verify c q s = Inr v \<Longrightarrow> p = q"
  using one_holder verify_holds by blast

lemma acquire_displaces:
  assumes "ok s" "acquire now c p ttl s = Inr s'" "q \<noteq> p"
  shows "\<not> holds s' c q"
  using assms acquire_ok acquire_holds one_holder by blast

text \<open>After somebody else acquired the lock, the earlier owner can no longer verify it.\<close>

lemma stale_owner_refused:
  assumes "ok s" "acquire now c p ttl s = Inr s'" "q \<noteq> p"
  shows "\<exists>e. verify c q s' = Inl e"
  using acquire_displaces [OF assms] verify_holds by (cases "verify c q s'") auto

lemma released_not_held: "\<not> holds (release c p s) c p"
  by (simp add: release_holds)

lemma acquire_needs_expiry:
  "acquire now c p ttl s = Inr s' \<Longrightarrow> holds s c q \<Longrightarrow> \<not> live now s c q"
  using acquire_refuses by blast

end

definition locks_ok :: "db \<Rightarrow> bool" where
  "locks_ok d \<longleftrightarrow> distinct (map l_ca_id (ca_locks d))"

definition db_holds :: "db \<Rightarrow> string \<Rightarrow> string \<Rightarrow> bool" where
  "db_holds d c p \<longleftrightarrow> (\<exists>l \<in> set (ca_locks d). owns_lock c p l)"

definition db_holds_live :: "int \<Rightarrow> db \<Rightarrow> string \<Rightarrow> string \<Rightarrow> bool" where
  "db_holds_live now d c p \<longleftrightarrow>
     (\<exists>l \<in> set (ca_locks d). owns_lock c p l \<and> now \<le> l_expires_at l)"

interpretation ca_lease: lease_lock locks_ok db_holds db_holds_live acquire_ca_lock
  release_ca_lock verify_lock_tx
proof
  fix s c p q
  assume "locks_ok s" "db_holds s c p" "db_holds s c q"
  then show "p = q"
    unfolding locks_ok_def db_holds_def
    by (metis lock_holder_iff option.inject)
next
  fix now s c p s' ttl
  assume "locks_ok s" "acquire_ca_lock now c p ttl s = Inr s'"
  then show "locks_ok s'"
    by (auto simp: locks_ok_def acquire_Inr table_simps delete_where_def
        intro: distinct_map_filter)
next
  fix now c p ttl s s'
  assume "acquire_ca_lock now c p ttl s = Inr s'"
  then show "db_holds s' c p"
    by (auto simp: db_holds_def owns_lock_def acquire_Inr)
qed (auto simp: db_holds_def db_holds_live_def owns_lock_def acquire_Inr verify_lock_Inr
    locks_ok_def release_ca_lock_def table_simps intro: distinct_delete_where)

end
