(* ===== verification/Db_Cert.thy ===== *)
theory Db_Cert
  imports Db_Lock
begin

text \<open>
  The operations of \<open>Db\<close> on certificates (\<open>src/src/db.rs\<close>). The three that follow a
  signing operation (\<open>insert_cert_with_state\<close>, \<open>update_cert_with_state\<close>,
  \<open>revoke_cert_with_state\<close>) and \<open>renew_ca_with_state\<close> verify the signing lock, write the
  certificate and the CA's openssl state and drop the lock in one transaction.
\<close>

section \<open>The statements they share\<close>

definition touch_ca :: "string \<Rightarrow> (ca_row \<Rightarrow> ca_row) \<Rightarrow> db \<Rightarrow> db result" where
  "touch_ca i f d =
     (if count_where (active_ca i) (cas d) = 0 then Inl (Bail (''CA not found: '' @ i))
      else Inr (d\<lparr>cas := update_where (active_ca i) f (cas d)\<rparr>))"

definition put_ca_state :: "string \<Rightarrow> string \<Rightarrow> int \<Rightarrow> ca_row \<Rightarrow> ca_row" where
  "put_ca_state index_txt serial_txt now r =
     r\<lparr>car_secrets := (car_secrets r)\<lparr>s_index_txt := index_txt, s_serial_txt := serial_txt\<rparr>,
       car_updated_at := now\<rparr>"

definition put_ca_crl :: "string \<Rightarrow> string \<Rightarrow> int \<Rightarrow> ca_row \<Rightarrow> ca_row" where
  "put_ca_crl crl_der crlnumber_txt now r =
     r\<lparr>car_secrets := (car_secrets r)\<lparr>s_crl_der := crl_der, s_crlnumber_txt := crlnumber_txt,
       s_crl_updated_at := now\<rparr>\<rparr>"

text \<open>\<open>INSERT INTO certificates\<close>: the primary key and the reference to the CA.\<close>

definition insert_cert_stmt :: "cert_row \<Rightarrow> db \<Rightarrow> db result" where
  "insert_cert_stmt r d =
     bind_res (insert_row ''certificates.id'' cer_id r (certs d))
       (\<lambda>t. if \<not> ca_exists (cer_ca_id r) d then Inl Foreign_key_violation
            else Inr (d\<lparr>certs := t\<rparr>))"

definition new_cert_row :: "int \<Rightarrow> int \<Rightarrow> cert_meta \<Rightarrow> cert_secrets \<Rightarrow> cert_row" where
  "new_cert_row now version meta secrets =
     \<lparr>cer_meta = subject_meta.truncate meta, cer_ca_id = m_ca_id meta,
      cer_dns_list = join '';'' (m_dns_list meta), cer_ip_list = join '';'' (m_ip_list meta),
      cer_secrets = secrets, cer_revoked_at = None, cer_revocation_reason = None,
      cer_deleted = False, cer_created_at = now, cer_updated_at = now,
      cer_meta_version = version\<rparr>"

section \<open>Operations under the signing lock\<close>

definition insert_cert_with_state ::
  "int \<Rightarrow> cert_meta \<Rightarrow> cert_secrets \<Rightarrow> (string \<times> string) option \<Rightarrow> string \<Rightarrow> db \<Rightarrow> db result"
where
  "insert_cert_with_state now meta secrets ca_state lock_owner d =
     bind_res (verify_lock_tx (m_ca_id meta) lock_owner d) (\<lambda>_.
     bind_res
       (touch_ca (m_ca_id meta)
          (case ca_state of
             Some (index_txt, serial_txt) \<Rightarrow> put_ca_state index_txt serial_txt now
           | None \<Rightarrow> (\<lambda>r. r\<lparr>car_updated_at := now\<rparr>)) d) (\<lambda>d1.
     bind_res (insert_cert_stmt (new_cert_row now 1 meta secrets) d1) (\<lambda>d2.
     Inr (release_ca_lock (m_ca_id meta) lock_owner d2))))"

definition renewable_cert :: "string \<Rightarrow> string \<Rightarrow> cert_row \<Rightarrow> bool" where
  "renewable_cert ca_id cert_id r \<longleftrightarrow> active_cert ca_id cert_id r \<and> cer_revoked_at r = None"

definition update_cert_with_state ::
  "int \<Rightarrow> string \<Rightarrow> string \<Rightarrow> string \<Rightarrow> string \<Rightarrow> string \<Rightarrow> int \<Rightarrow> int \<Rightarrow> string \<times> string \<Rightarrow>
   string \<Rightarrow> db \<Rightarrow> db result"
where
  "update_cert_with_state now ca_id cert_id cert_pem pkcs12 bundle_zip issue_time valid_days
     ca_state lock_owner d =
     bind_res (verify_lock_tx ca_id lock_owner d) (\<lambda>_.
     if count_where (renewable_cert ca_id cert_id) (certs d) = 0
     then Inl (Bail (''certificate not found or revoked: '' @ ca_id @ ''/'' @ cert_id))
     else
       (let d1 = d\<lparr>certs := update_where (renewable_cert ca_id cert_id)
              (\<lambda>r. r\<lparr>cer_secrets := (cer_secrets r)\<lparr>k_cert_pem := cert_pem, k_pkcs12 := pkcs12,
                       k_bundle_zip := bundle_zip\<rparr>,
                     cer_meta := (cer_meta r)\<lparr>m_issue_time := issue_time,
                       m_valid_days := valid_days\<rparr>,
                     cer_updated_at := now\<rparr>) (certs d)\<rparr>
        in bind_res (touch_ca ca_id (put_ca_state (fst ca_state) (snd ca_state) now) d1)
             (\<lambda>d2. Inr (release_ca_lock ca_id lock_owner d2))))"

definition revoke_cert_with_state ::
  "int \<Rightarrow> string \<Rightarrow> string \<Rightarrow> string \<Rightarrow> int \<Rightarrow> string \<times> string \<Rightarrow> string \<times> string \<Rightarrow> string \<Rightarrow>
   db \<Rightarrow> db result"
where
  "revoke_cert_with_state now ca_id cert_id reason revoked_at ca_state crl lock_owner d =
     bind_res (verify_lock_tx ca_id lock_owner d) (\<lambda>_.
     if count_where (active_cert ca_id cert_id) (certs d) = 0
     then Inl (Bail (''certificate not found: '' @ ca_id @ ''/'' @ cert_id))
     else
       (let d1 = d\<lparr>certs := update_where (active_cert ca_id cert_id)
              (\<lambda>r. r\<lparr>cer_revoked_at := Some revoked_at, cer_revocation_reason := Some reason,
                     cer_updated_at := now\<rparr>) (certs d)\<rparr>
        in bind_res
             (touch_ca ca_id (\<lambda>r. put_ca_crl (fst crl) (snd crl) now
                (put_ca_state (fst ca_state) (snd ca_state) now r)) d1)
             (\<lambda>d2. Inr (release_ca_lock ca_id lock_owner d2))))"

definition list_cert_secrets_for_ca :: "string \<Rightarrow> db \<Rightarrow> (string \<times> cert_secrets) list" where
  "list_cert_secrets_for_ca ca_id d =
     map (\<lambda>r. (cer_id r, cer_secrets r))
       (order_by cer_id (filter (\<lambda>r. cer_ca_id r = ca_id) (certs d)))"

definition put_bundle :: "int \<Rightarrow> string \<Rightarrow> string \<times> string \<Rightarrow> cert_row list \<Rightarrow> cert_row list" where
  "put_bundle now ca_id b t =
     update_where (\<lambda>r. cer_id r = fst b \<and> cer_ca_id r = ca_id)
       (\<lambda>r. r\<lparr>cer_secrets := (cer_secrets r)\<lparr>k_bundle_zip := snd b\<rparr>, cer_updated_at := now\<rparr>) t"

definition renew_ca_with_state ::
  "int \<Rightarrow> string \<Rightarrow> string \<Rightarrow> string \<Rightarrow> int \<Rightarrow> int \<Rightarrow> (string \<times> string) option \<Rightarrow>
   (string \<times> string) list \<Rightarrow> string \<Rightarrow> db \<Rightarrow> db result"
where
  "renew_ca_with_state now ca_id cert_pem pkcs12 issue_time valid_days crl cert_bundles
     lock_owner d =
     bind_res (verify_lock_tx ca_id lock_owner d) (\<lambda>_.
     bind_res
       (touch_ca ca_id
          (\<lambda>r. r\<lparr>car_secrets := (car_secrets r)\<lparr>s_cert_pem := cert_pem, s_pkcs12 := pkcs12\<rparr>,
                 car_truststore := [],
                 car_meta := (car_meta r)\<lparr>m_issue_time := issue_time,
                   m_valid_days := valid_days\<rparr>,
                 car_updated_at := now\<rparr>) d) (\<lambda>d1.
       let d2 = (case crl of
                   None \<Rightarrow> d1
                 | Some (crl_der, crlnumber_txt) \<Rightarrow>
                     d1\<lparr>cas := update_where (\<lambda>r. car_id r = ca_id)
                          (put_ca_crl crl_der crlnumber_txt now) (cas d1)\<rparr>);
           d3 = d2\<lparr>certs := fold (put_bundle now ca_id) cert_bundles (certs d2)\<rparr>
       in Inr (release_ca_lock ca_id lock_owner d3)))"

section \<open>Other operations\<close>

definition insert_cert_restore :: "int \<Rightarrow> cert_meta \<Rightarrow> cert_secrets \<Rightarrow> db \<Rightarrow> db result" where
  "insert_cert_restore now meta secrets d =
     insert_cert_stmt (new_cert_row now 0 meta secrets) d"

definition row_to_meta :: "cert_row \<Rightarrow> cert_meta" where
  "row_to_meta r =
     subject_meta.extend (cer_meta r)
       (cert_meta.fields (cer_ca_id r) (split_list (cer_dns_list r)) (split_list (cer_ip_list r))
          (cer_revoked_at r) (cer_revocation_reason r))"

definition row_to_cert :: "cert_row \<Rightarrow> certificate" where
  "row_to_cert r =
     cert_meta.extend (row_to_meta r)
       (certificate.fields (blob_string (k_cert_pem (cer_secrets r)))
          (blob_string (k_key_pem (cer_secrets r))))"

definition list_certs :: "string \<Rightarrow> db \<Rightarrow> certificate list" where
  "list_certs ca_id d =
     map row_to_cert (order_by_desc cer_created_at
       (filter (\<lambda>r. cer_ca_id r = ca_id \<and> \<not> cer_deleted r \<and> ca_live d ca_id) (certs d)))"

definition get_cert :: "string \<Rightarrow> string \<Rightarrow> db \<Rightarrow> certificate result" where
  "get_cert ca_id cert_id d =
     ok_or (Bail (''certificate not found: '' @ ca_id @ ''/'' @ cert_id))
       (map_option row_to_cert
          (find (\<lambda>r. active_cert ca_id cert_id r \<and> ca_live d ca_id) (certs d)))"

definition get_cert_secrets :: "string \<Rightarrow> string \<Rightarrow> db \<Rightarrow> cert_secrets result" where
  "get_cert_secrets ca_id cert_id d =
     ok_or (Bail (''certificate not found: '' @ ca_id @ ''/'' @ cert_id))
       (map_option cer_secrets
          (find (\<lambda>r. active_cert ca_id cert_id r \<and> ca_live d ca_id) (certs d)))"

definition delete_cert :: "int \<Rightarrow> string \<Rightarrow> string \<Rightarrow> db \<Rightarrow> db result" where
  "delete_cert now ca_id cert_id d =
     (if count_where (active_cert ca_id cert_id) (certs d) = 0
      then Inl (Bail (''certificate not found: '' @ ca_id @ ''/'' @ cert_id))
      else Inr (d\<lparr>certs := update_where (active_cert ca_id cert_id)
             (\<lambda>r. r\<lparr>cer_deleted := True, cer_updated_at := now\<rparr>) (certs d)\<rparr>))"

definition trashed_cert :: "string \<Rightarrow> string \<Rightarrow> cert_row \<Rightarrow> bool" where
  "trashed_cert ca_id i r \<longleftrightarrow> cer_ca_id r = ca_id \<and> cer_id r = i \<and> cer_deleted r"

definition cer_cn :: "cert_row \<Rightarrow> string" where
  "cer_cn r = cn_key (m_common_name (cer_meta r))"

definition restore_cert :: "int \<Rightarrow> string \<Rightarrow> string \<Rightarrow> db \<Rightarrow> db result" where
  "restore_cert now ca_id cert_id d =
     bind_res
       (ok_or (Bail (''deleted certificate not found: '' @ ca_id @ ''/'' @ cert_id))
          (map_option (\<lambda>r. m_common_name (cer_meta r)) (find (trashed_cert ca_id cert_id) (certs d))))
       (\<lambda>common_name.
          if map_option car_deleted (find (\<lambda>r. car_id r = ca_id) (cas d)) \<noteq> Some False
          then Inl (Bail ''cannot restore certificate: its CA is deleted; restore the CA first'')
          else if 0 < count_where (\<lambda>r. \<not> cer_deleted r \<and> cer_ca_id r = ca_id \<and>
                        cer_cn r = cn_key common_name) (certs d)
          then Inl (Bail (''cannot restore certificate: an active certificate in this CA already uses the common name '' @ trim common_name))
          else Inr (d\<lparr>certs := update_where (trashed_cert ca_id cert_id)
                 (\<lambda>r. r\<lparr>cer_deleted := False, cer_updated_at := now\<rparr>) (certs d)\<rparr>))"

definition list_deleted_certs :: "db \<Rightarrow> certificate list" where
  "list_deleted_certs d =
     map row_to_cert (order_by_desc cer_updated_at (filter cer_deleted (certs d)))"

definition cert_exists :: "string \<Rightarrow> db \<Rightarrow> bool" where
  "cert_exists i d \<longleftrightarrow> 0 < count_where (\<lambda>r. cer_id r = i) (certs d)"

definition list_certs_for_repair :: "db \<Rightarrow> (cert_meta \<times> string) list" where
  "list_certs_for_repair d =
     map (\<lambda>r. (row_to_meta r, k_cert_pem (cer_secrets r)))
       (order_by cer_created_at (filter (\<lambda>r. cer_meta_version r = 0) (certs d)))"

definition update_cert_meta_repaired :: "cert_meta \<Rightarrow> db \<Rightarrow> db" where
  "update_cert_meta_repaired meta d =
     d\<lparr>certs := update_where (\<lambda>r. cer_id r = m_id meta)
       (\<lambda>r. r\<lparr>cer_meta := (cer_meta r)\<lparr>m_country_code := m_country_code meta,
                m_state := m_state meta, m_city := m_city meta,
                m_organization := m_organization meta,
                m_organization_unit := m_organization_unit meta,
                m_subject := m_subject meta\<rparr>,
              cer_meta_version := 1\<rparr>) (certs d)\<rparr>"

definition mark_cert_meta_checked :: "string \<Rightarrow> db \<Rightarrow> db" where
  "mark_cert_meta_checked i d =
     d\<lparr>certs := update_where (\<lambda>r. cer_id r = i) (\<lambda>r. r\<lparr>cer_meta_version := 1\<rparr>) (certs d)\<rparr>"

definition cert_common_name_exists :: "string \<Rightarrow> string \<Rightarrow> db \<Rightarrow> bool" where
  "cert_common_name_exists ca_id common_name d \<longleftrightarrow>
     0 < count_where (\<lambda>r. \<not> cer_deleted r \<and> cer_ca_id r = ca_id \<and>
           cer_cn r = sql_lower (trim common_name)) (certs d)"

definition find_cert_id_by_cn :: "string \<Rightarrow> string \<Rightarrow> db \<Rightarrow> string option" where
  "find_cert_id_by_cn ca_id common_name d =
     map_option cer_id
       (find (\<lambda>r. cer_ca_id r = ca_id \<and> \<not> cer_deleted r \<and>
                  cer_cn r = sql_lower (trim common_name) \<and> ca_live d ca_id) (certs d))"

section \<open>Reading certificates\<close>

interpretation cert_table: keyed_table cer_id "insert_row ''certificates.id'' cer_id"
  by unfold_locales (auto simp: res_simps)

lemma ca_exists_iff: "ca_exists i d \<longleftrightarrow> i \<in> car_id ` set (cas d)"
  by (auto simp: ca_exists_def table_simps)

lemma find_cert_iff:
  assumes "schema_ok d" and "\<And>r. P r \<Longrightarrow> cer_id r = i"
  shows "find P (certs d) = Some r \<longleftrightarrow> r \<in> set (certs d) \<and> P r"
proof
  assume "r \<in> set (certs d) \<and> P r"
  then show "find P (certs d) = Some r"
    using assms by (intro find_distinct [where g = cer_id]) (auto simp: schema_defs)
qed (auto dest: find_Some_iff_D)

lemma get_cert_Inr:
  assumes "schema_ok d"
  shows "get_cert c i d = Inr v \<longleftrightarrow>
    ca_live d c \<and> (\<exists>r \<in> set (certs d). active_cert c i r \<and> v = row_to_cert r)"
  using find_cert_iff [OF assms, of "\<lambda>r. active_cert c i r \<and> ca_live d c" i]
  by (auto simp: get_cert_def res_simps active_cert_def)

lemma get_cert_secrets_Inr:
  assumes "schema_ok d"
  shows "get_cert_secrets c i d = Inr v \<longleftrightarrow>
    ca_live d c \<and> (\<exists>r \<in> set (certs d). active_cert c i r \<and> v = cer_secrets r)"
  using find_cert_iff [OF assms, of "\<lambda>r. active_cert c i r \<and> ca_live d c" i]
  by (auto simp: get_cert_secrets_def res_simps active_cert_def)

lemma row_to_cert_simps [simp]:
  "m_id (row_to_cert r) = cer_id r" "m_ca_id (row_to_cert r) = cer_ca_id r"
  "m_common_name (row_to_cert r) = m_common_name (cer_meta r)"
  "m_revoked_at (row_to_cert r) = cer_revoked_at r"
  "m_revocation_reason (row_to_cert r) = cer_revocation_reason r"
  "m_issue_time (row_to_cert r) = m_issue_time (cer_meta r)"
  "m_valid_days (row_to_cert r) = m_valid_days (cer_meta r)"
  "m_dns_list (row_to_cert r) = split_list (cer_dns_list r)"
  "m_ip_list (row_to_cert r) = split_list (cer_ip_list r)"
  by (simp_all add: row_to_cert_def row_to_meta_def cer_id_def subject_meta.defs cert_meta.defs
      certificate.defs)

lemma cer_id_simps [simp]:
  "cer_id (r\<lparr>cer_secrets := x\<rparr>) = cer_id r" "cer_id (r\<lparr>cer_revoked_at := t\<rparr>) = cer_id r"
  "cer_id (r\<lparr>cer_revocation_reason := y\<rparr>) = cer_id r"
  "cer_id (r\<lparr>cer_deleted := b\<rparr>) = cer_id r" "cer_id (r\<lparr>cer_updated_at := n\<rparr>) = cer_id r"
  "cer_id (r\<lparr>cer_meta_version := n\<rparr>) = cer_id r"
  by (simp_all add: cer_id_def)

lemma put_ca_simps [simp]:
  "car_id (put_ca_state a b n r) = car_id r" "car_id (put_ca_crl a b n r) = car_id r"
  "car_meta (put_ca_state a b n r) = car_meta r" "car_meta (put_ca_crl a b n r) = car_meta r"
  "car_deleted (put_ca_state a b n r) = car_deleted r"
  "car_deleted (put_ca_crl a b n r) = car_deleted r"
  by (simp_all add: put_ca_state_def put_ca_crl_def)

lemma new_cert_row_simps [simp]:
  "cer_id (new_cert_row now v meta secrets) = m_id meta"
  "cer_ca_id (new_cert_row now v meta secrets) = m_ca_id meta"
  "cer_deleted (new_cert_row now v meta secrets) = False"
  "cer_revoked_at (new_cert_row now v meta secrets) = None"
  "m_common_name (cer_meta (new_cert_row now v meta secrets)) = m_common_name meta"
  by (simp_all add: new_cert_row_def cer_id_def subject_meta.defs)

section \<open>What the signing operations do when they succeed\<close>

lemma touch_ca_Inr [res_simps]:
  "touch_ca i f d = Inr d' \<longleftrightarrow>
     (\<exists>r \<in> set (cas d). active_ca i r) \<and> d' = d\<lparr>cas := update_where (active_ca i) f (cas d)\<rparr>"
  by (auto simp: touch_ca_def table_simps)

lemma insert_cert_stmt_Inr [res_simps]:
  "insert_cert_stmt r d = Inr d' \<longleftrightarrow>
     cer_id r \<notin> cer_id ` set (certs d) \<and> cer_ca_id r \<in> car_id ` set (cas d) \<and>
     d' = d\<lparr>certs := certs d @ [r]\<rparr>"
  by (auto simp: insert_cert_stmt_def res_simps ca_exists_iff)

lemma verify_db_holds: "verify_lock_tx c p d = Inr u \<longleftrightarrow> db_holds d c p"
  by (simp add: verify_lock_Inr db_holds_def)

lemma active_ca_in_ids: "r \<in> set (cas d) \<Longrightarrow> active_ca i r \<Longrightarrow> i \<in> car_id ` set (cas d)"
  by (auto simp: active_ca_def)

lemma update_ids: "(\<And>r. p r \<Longrightarrow> car_id (f r) = car_id r) \<Longrightarrow>
    car_id ` set (update_where p f t) = car_id ` set t"
  using update_where_keeps [of p car_id f t] by (metis set_map)

definition ca_state_change :: "(string \<times> string) option \<Rightarrow> int \<Rightarrow> ca_row \<Rightarrow> ca_row" where
  "ca_state_change ca_state now =
     (case ca_state of
        Some (index_txt, serial_txt) \<Rightarrow> put_ca_state index_txt serial_txt now
      | None \<Rightarrow> (\<lambda>r. r\<lparr>car_updated_at := now\<rparr>))"

lemma ca_state_change_id [simp]: "car_id (ca_state_change st now r) = car_id r"
  by (simp add: ca_state_change_def split: option.splits)

lemma insert_cert_Inr:
  "insert_cert_with_state now meta secrets st p d = Inr d' \<longleftrightarrow>
     db_holds d (m_ca_id meta) p \<and> (\<exists>r \<in> set (cas d). active_ca (m_ca_id meta) r) \<and>
     m_id meta \<notin> cer_id ` set (certs d) \<and>
     d' = release_ca_lock (m_ca_id meta) p
            (d\<lparr>cas := update_where (active_ca (m_ca_id meta)) (ca_state_change st now) (cas d),
               certs := certs d @ [new_cert_row now 1 meta secrets]\<rparr>)"
  by (auto simp: insert_cert_with_state_def res_simps verify_db_holds update_ids
      ca_state_change_def [symmetric] dest: active_ca_in_ids)

definition renewed_cert :: "string \<Rightarrow> string \<Rightarrow> string \<Rightarrow> int \<Rightarrow> int \<Rightarrow> int \<Rightarrow> cert_row \<Rightarrow> cert_row" where
  "renewed_cert cert_pem pkcs12 bundle issue_time valid_days now r =
     r\<lparr>cer_secrets := (cer_secrets r)\<lparr>k_cert_pem := cert_pem, k_pkcs12 := pkcs12,
         k_bundle_zip := bundle\<rparr>,
       cer_meta := (cer_meta r)\<lparr>m_issue_time := issue_time, m_valid_days := valid_days\<rparr>,
       cer_updated_at := now\<rparr>"

definition revoked_cert :: "string \<Rightarrow> int \<Rightarrow> int \<Rightarrow> cert_row \<Rightarrow> cert_row" where
  "revoked_cert reason revoked_at now r =
     r\<lparr>cer_revoked_at := Some revoked_at, cer_revocation_reason := Some reason,
       cer_updated_at := now\<rparr>"

lemma update_cert_Inr:
  "update_cert_with_state now c i pem p12 bun it vd st p d = Inr d' \<longleftrightarrow>
     db_holds d c p \<and> (\<exists>r \<in> set (certs d). renewable_cert c i r) \<and>
     (\<exists>r \<in> set (cas d). active_ca c r) \<and>
     d' = release_ca_lock c p
            (d\<lparr>certs := update_where (renewable_cert c i) (renewed_cert pem p12 bun it vd now) (certs d),
               cas := update_where (active_ca c) (put_ca_state (fst st) (snd st) now) (cas d)\<rparr>)"
  by (auto simp: update_cert_with_state_def res_simps verify_db_holds table_simps Let_def
      renewed_cert_def [abs_def])

lemma revoke_cert_Inr:
  "revoke_cert_with_state now c i reason at st crl p d = Inr d' \<longleftrightarrow>
     db_holds d c p \<and> (\<exists>r \<in> set (certs d). active_cert c i r) \<and>
     (\<exists>r \<in> set (cas d). active_ca c r) \<and>
     d' = release_ca_lock c p
            (d\<lparr>certs := update_where (active_cert c i) (revoked_cert reason at now) (certs d),
               cas := update_where (active_ca c)
                 (\<lambda>r. put_ca_crl (fst crl) (snd crl) now (put_ca_state (fst st) (snd st) now r))
                 (cas d)\<rparr>)"
  by (auto simp: revoke_cert_with_state_def res_simps verify_db_holds table_simps Let_def
      revoked_cert_def [abs_def])

definition renewed_ca :: "string \<Rightarrow> string \<Rightarrow> int \<Rightarrow> int \<Rightarrow> int \<Rightarrow> ca_row \<Rightarrow> ca_row" where
  "renewed_ca cert_pem pkcs12 issue_time valid_days now r =
     r\<lparr>car_secrets := (car_secrets r)\<lparr>s_cert_pem := cert_pem, s_pkcs12 := pkcs12\<rparr>,
       car_truststore := [],
       car_meta := (car_meta r)\<lparr>m_issue_time := issue_time, m_valid_days := valid_days\<rparr>,
       car_updated_at := now\<rparr>"

definition crl_change :: "string \<Rightarrow> (string \<times> string) option \<Rightarrow> int \<Rightarrow> ca_row list \<Rightarrow> ca_row list" where
  "crl_change c crl now t =
     (case crl of None \<Rightarrow> t
      | Some (der, num) \<Rightarrow> update_where (\<lambda>r. car_id r = c) (put_ca_crl der num now) t)"

lemma renew_ca_Inr:
  "renew_ca_with_state now c pem p12 it vd crl bundles p d = Inr d' \<longleftrightarrow>
     db_holds d c p \<and> (\<exists>r \<in> set (cas d). active_ca c r) \<and>
     d' = release_ca_lock c p
            (d\<lparr>cas := crl_change c crl now
                  (update_where (active_ca c) (renewed_ca pem p12 it vd now) (cas d)),
               certs := fold (put_bundle now c) bundles (certs d)\<rparr>)"
  by (auto simp: renew_ca_with_state_def res_simps verify_db_holds Let_def crl_change_def
      renewed_ca_def [abs_def] split: option.splits)

end
