(* ===== verification/Db_Account.thy ===== *)
theory Db_Account
  imports Db_Cert
begin

text \<open>
  Users and form templates in the database (\<open>src/src/db.rs\<close>): unique user names, template
  names that are unique ignoring case, and the rule that each creation form has at most one
  default template, which \<open>save_template\<close> maintains.
\<close>

section \<open>Users\<close>

definition user_insert_error :: "string \<Rightarrow> error \<Rightarrow> error" where
  "user_insert_error username e =
     (if str_contains ''UNIQUE'' (error_text e)
      then Bail (''username already exists: '' @ username) else e)"

definition insert_user :: "int \<Rightarrow> string \<Rightarrow> string \<Rightarrow> string \<Rightarrow> string \<Rightarrow> db \<Rightarrow> db result" where
  "insert_user now i username password_hash role d =
     (let r = \<lparr>u_id = i, u_username = username, u_password_hash = password_hash,
               u_role = role, u_created_at = now\<rparr>
      in case bind_res (insert_row ''users.id'' u_id r (users d))
                (\<lambda>_. insert_row ''users.username'' u_username r (users d)) of
           Inl e \<Rightarrow> Inl (user_insert_error username e)
         | Inr t \<Rightarrow> Inr (d\<lparr>users := t\<rparr>))"

definition db_list_users :: "db \<Rightarrow> user_record list" where
  "db_list_users d = order_by u_username (users d)"

definition find_user :: "string \<Rightarrow> db \<Rightarrow> user_record option" where
  "find_user username d = find (\<lambda>u. u_username u = username) (users d)"

definition db_delete_user :: "string \<Rightarrow> db \<Rightarrow> db result" where
  "db_delete_user i d =
     (if count_where (\<lambda>u. u_id u = i) (users d) = 0 then Inl (Bail (''user not found: '' @ i))
      else Inr (d\<lparr>users := delete_where (\<lambda>u. u_id u = i) (users d)\<rparr>))"

interpretation user_table: keyed_table u_username
  "\<lambda>r t. bind_res (insert_row ''users.id'' u_id r t)
          (\<lambda>_. insert_row ''users.username'' u_username r t)"
  by unfold_locales (auto simp: res_simps)

lemma insert_user_Inr:
  "insert_user now i username h role d = Inr d' \<longleftrightarrow>
     i \<notin> u_id ` set (users d) \<and> username \<notin> u_username ` set (users d) \<and>
     d' = d\<lparr>users := users d @ [\<lparr>u_id = i, u_username = username, u_password_hash = h,
                                  u_role = role, u_created_at = now\<rparr>]\<rparr>"
  by (auto simp: insert_user_def Let_def res_simps split: sum.splits)

lemma unique_contains: "str_contains ''UNIQUE'' (error_text (Unique_violation c))"
  unfolding str_contains_iff by (rule exI [of _ "[]"]) simp

text \<open>Whatever goes wrong when a user is inserted, the message names the user name.\<close>

lemma insert_user_Inl:
  "insert_user now i username h role d = Inl e \<longleftrightarrow>
     (i \<in> u_id ` set (users d) \<or> username \<in> u_username ` set (users d)) \<and>
     e = Bail (''username already exists: '' @ username)"
  by (auto simp: insert_user_def Let_def res_simps user_insert_error_def unique_contains
      split: sum.splits simp del: error_text.simps)

lemma insert_user_schema_ok:
  "insert_user now i username h role d = Inr d' \<Longrightarrow> schema_ok d \<Longrightarrow> schema_ok d'"
  by (auto simp: insert_user_Inr schema_defs intro!: schema_ok_users)

lemma delete_user_schema_ok: "db_delete_user i d = Inr d' \<Longrightarrow> schema_ok d \<Longrightarrow> schema_ok d'"
  by (auto simp: db_delete_user_def split: if_splits intro!: schema_ok_users distinct_delete_where)
    (simp_all add: schema_defs)

lemma find_inserted_user:
  assumes "insert_user now i username h role d = Inr d'"
  shows "find_user username d' = Some \<lparr>u_id = i, u_username = username, u_password_hash = h,
           u_role = role, u_created_at = now\<rparr>"
    and "name \<noteq> username \<Longrightarrow> find_user name d' = find_user name d"
proof -
  let ?r = "\<lparr>u_id = i, u_username = username, u_password_hash = h, u_role = role,
             u_created_at = now\<rparr>"
  have ins: "bind_res (insert_row ''users.id'' u_id ?r (users d))
      (\<lambda>_. insert_row ''users.username'' u_username ?r (users d)) = Inr (users d')"
    using assms by (auto simp: insert_user_Inr res_simps)
  show "find_user username d' = Some ?r"
    using user_table.find_inserted [OF ins] by (simp add: find_user_def)
  show "find_user name d' = find_user name d" if "name \<noteq> username"
    using user_table.find_other [OF ins] that by (simp add: find_user_def)
qed

section \<open>Templates\<close>

definition query_templates :: "db \<Rightarrow> template list" where
  "query_templates d = order_by (\<lambda>t. nocase (t_name t)) (templates d)"

definition db_get_template :: "string \<Rightarrow> db \<Rightarrow> template option" where
  "db_get_template i d = find (\<lambda>t. t_id t = i) (templates d)"

definition template_name_taken :: "string \<Rightarrow> string option \<Rightarrow> db \<Rightarrow> bool" where
  "template_name_taken name except_id d \<longleftrightarrow>
     0 < count_where (\<lambda>t. nocase (t_name t) = nocase name \<and>
           t_id t \<noteq> (case except_id of None \<Rightarrow> [] | Some i \<Rightarrow> i)) (templates d)"

definition template_insert_error :: "string \<Rightarrow> error \<Rightarrow> error" where
  "template_insert_error name e =
     (if str_contains ''UNIQUE'' (error_text e)
      then Bail (''template name already exists: '' @ name) else e)"

definition insert_template_row :: "template \<Rightarrow> db \<Rightarrow> db result" where
  "insert_template_row t d =
     (case bind_res (insert_row ''templates.id'' t_id t (templates d))
             (\<lambda>_. insert_row ''templates.name'' (\<lambda>x. nocase (t_name x)) t (templates d)) of
        Inl e \<Rightarrow> Inl (template_insert_error (t_name t) e)
      | Inr ts \<Rightarrow> Inr (d\<lparr>templates := ts\<rparr>))"

text \<open>The other default templates that would apply to a form the new default covers.\<close>

definition displaced :: "template \<Rightarrow> template \<Rightarrow> bool" where
  "displaced t x \<longleftrightarrow> t_id x \<noteq> t_id t \<and> t_is_default x \<and>
     scope_overlaps (template_scope_of x) (template_scope_of t)"

definition clear_default :: "int \<Rightarrow> template \<Rightarrow> template list \<Rightarrow> template list" where
  "clear_default now x ts =
     update_where (\<lambda>y. t_id y = t_id x) (\<lambda>y. y\<lparr>t_is_default := False, t_updated_at := now\<rparr>) ts"

definition clear_displaced :: "template \<Rightarrow> db \<Rightarrow> db" where
  "clear_displaced t d =
     (if t_is_default t
      then d\<lparr>templates := fold (clear_default (t_updated_at t))
             (filter (displaced t) (query_templates d)) (templates d)\<rparr>
      else d)"

definition replace_template :: "template \<Rightarrow> template \<Rightarrow> template" where
  "replace_template t x =
     x\<lparr>t_name := t_name t, t_scope := t_scope t, t_is_default := t_is_default t,
       t_values := t_values t, t_updated_at := t_updated_at t\<rparr>"

text \<open>\<open>UPDATE templates ... WHERE id = ?\<close>, which the unique index on the name can refuse.\<close>

definition update_template_row :: "template \<Rightarrow> db \<Rightarrow> db result" where
  "update_template_row t d =
     (if count_where (\<lambda>x. t_id x = t_id t) (templates d) = 0
      then Inl (Bail (''template not found: '' @ t_id t))
      else if list_ex (\<lambda>x. t_id x \<noteq> t_id t \<and> nocase (t_name x) = nocase (t_name t)) (templates d)
      then Inl (Unique_violation ''templates.name'')
      else Inr (d\<lparr>templates := update_where (\<lambda>x. t_id x = t_id t) (replace_template t)
                  (templates d)\<rparr>))"

definition save_template :: "template \<Rightarrow> bool \<Rightarrow> db \<Rightarrow> db result" where
  "save_template t new d =
     (let d1 = clear_displaced t d
      in if new then insert_template_row t d1 else update_template_row t d1)"

definition db_delete_template :: "string \<Rightarrow> db \<Rightarrow> db result" where
  "db_delete_template i d =
     (if count_where (\<lambda>t. t_id t = i) (templates d) = 0
      then Inl (Bail (''template not found: '' @ i))
      else Inr (d\<lparr>templates := delete_where (\<lambda>t. t_id t = i) (templates d)\<rparr>))"

section \<open>At most one default per form\<close>

text \<open>How many templates claim to be the default of the creation form of a kind.\<close>

definition default_for :: "template_scope \<Rightarrow> template \<Rightarrow> bool" where
  "default_for kind t \<longleftrightarrow> t_is_default t \<and> scope_covers (template_scope_of t) kind"

definition default_count :: "template_scope \<Rightarrow> db \<Rightarrow> nat" where
  "default_count kind d = count_where (default_for kind) (templates d)"

definition one_default :: "db \<Rightarrow> bool" where
  "one_default d \<longleftrightarrow> (\<forall>kind \<in> {Ca, Certificate}. default_count kind d \<le> 1)"

lemma template_clear_simps [simp]:
  "template_scope_of (x\<lparr>t_is_default := b\<rparr>) = template_scope_of x"
  "template_scope_of (x\<lparr>t_updated_at := n\<rparr>) = template_scope_of x"
  by (simp_all add: template_scope_of_def)

text \<open>The loop over the displaced templates is one conditional update.\<close>

lemma clear_default_fold:
  "fold (clear_default now) xs ts =
     map (\<lambda>y. if t_id y \<in> t_id ` set xs then y\<lparr>t_is_default := False, t_updated_at := now\<rparr>
              else y) ts"
proof (induction xs arbitrary: ts)
  case Nil
  then show ?case by simp
next
  case (Cons x xs)
  then show ?case by (auto simp: clear_default_def update_where_def)
qed

lemma clear_displaced_templates:
  assumes "distinct (map t_id (templates d))"
  shows "templates (clear_displaced t d) =
    map (\<lambda>y. if t_is_default t \<and> displaced t y
             then y\<lparr>t_is_default := False, t_updated_at := t_updated_at t\<rparr> else y) (templates d)"
proof -
  have "t_id y \<in> t_id ` set (filter (displaced t) (query_templates d)) \<longleftrightarrow> displaced t y"
    if "y \<in> set (templates d)" for y
    using assms that by (auto simp: query_templates_def distinct_map inj_on_def)
  then show ?thesis
    by (auto simp: clear_displaced_def clear_default_fold)
qed

lemma clear_displaced_frame:
  "cas (clear_displaced t d) = cas d" "certs (clear_displaced t d) = certs d"
  "ca_locks (clear_displaced t d) = ca_locks d" "users (clear_displaced t d) = users d"
  by (simp_all add: clear_displaced_def)

lemma clear_displaced_keys:
  assumes "distinct (map t_id (templates d))"
  shows "map t_id (templates (clear_displaced t d)) = map t_id (templates d)"
    and "map (\<lambda>t. nocase (t_name t)) (templates (clear_displaced t d)) =
         map (\<lambda>t. nocase (t_name t)) (templates d)"
  by (simp_all add: clear_displaced_templates [OF assms])

text \<open>A count of at most one says that any two members are the same row.\<close>

lemma count_le_1_iff:
  assumes "distinct (map g ts)"
  shows "count_where p ts \<le> 1 \<longleftrightarrow>
    (\<forall>x \<in> set ts. \<forall>y \<in> set ts. p x \<longrightarrow> p y \<longrightarrow> g x = g y)"
proof -
  have dist: "distinct (map g (filter p ts))" using assms by (rule distinct_map_filter)
  have "count_where p ts = card (g ` {x \<in> set ts. p x})"
    using distinct_card [OF dist] by (simp add: count_where_def)
  moreover have "finite (g ` {x \<in> set ts. p x})" by simp
  ultimately have "count_where p ts \<le> 1 \<longleftrightarrow>
      (\<forall>a \<in> g ` {x \<in> set ts. p x}. \<forall>b \<in> g ` {x \<in> set ts. p x}. a = b)"
    by (simp only: One_nat_def card_le_Suc0_iff_eq)
  then show ?thesis by blast
qed

lemma one_default_iff:
  assumes "distinct (map t_id (templates d))"
  shows "one_default d \<longleftrightarrow>
    (\<forall>x \<in> set (templates d). \<forall>y \<in> set (templates d). t_is_default x \<longrightarrow> t_is_default y \<longrightarrow>
       scope_overlaps (template_scope_of x) (template_scope_of y) \<longrightarrow> t_id x = t_id y)"
  unfolding one_default_def default_count_def count_le_1_iff [OF assms] default_for_def
    scope_overlaps_iff_common_form
  by blast

text \<open>
  Saving a template keeps the rule, whichever template is saved; saving a default template
  establishes it for the forms it covers.
\<close>

lemma clear_displaced_default:
  assumes "distinct (map t_id (templates d))" and "x \<in> set (templates (clear_displaced t d))"
    and "default_for kind x"
  obtains y where "y \<in> set (templates d)" and "t_id y = t_id x" and "default_for kind y"
  using assms(2,3) unfolding clear_displaced_templates [OF assms(1)]
  by (auto simp: default_for_def split: if_splits)

lemma clear_displaced_cleared:
  assumes "distinct (map t_id (templates d))" and "t_is_default t"
    and "x \<in> set (templates (clear_displaced t d))"
  shows "\<not> displaced t x"
  using assms(3) unfolding clear_displaced_templates [OF assms(1)]
  using assms(2) by (auto simp: displaced_def)

lemma template_scope_of_replace [simp]:
  "template_scope_of (replace_template t x) = template_scope_of t"
  by (simp add: replace_template_def template_scope_of_def)

lemma replace_template_simps [simp]:
  "t_id (replace_template t x) = t_id x" "t_name (replace_template t x) = t_name t"
  "t_is_default (replace_template t x) = t_is_default t"
  by (simp_all add: replace_template_def)

lemma insert_template_Inr:
  "insert_template_row t d = Inr d' \<longleftrightarrow>
     t_id t \<notin> t_id ` set (templates d) \<and>
     nocase (t_name t) \<notin> (\<lambda>x. nocase (t_name x)) ` set (templates d) \<and>
     d' = d\<lparr>templates := templates d @ [t]\<rparr>"
  by (auto simp: insert_template_row_def res_simps split: sum.splits)

lemma update_template_Inr:
  "update_template_row t d = Inr d' \<longleftrightarrow>
     (\<exists>x \<in> set (templates d). t_id x = t_id t) \<and>
     (\<forall>x \<in> set (templates d). t_id x \<noteq> t_id t \<longrightarrow> nocase (t_name x) \<noteq> nocase (t_name t)) \<and>
     d' = d\<lparr>templates := update_where (\<lambda>x. t_id x = t_id t) (replace_template t) (templates d)\<rparr>"
  by (auto simp: update_template_row_def table_simps list_ex_iff)

lemma save_template_schema_ok:
  assumes "save_template t new d = Inr d'" and "schema_ok d"
  shows "schema_ok d'"
proof -
  let ?d1 = "clear_displaced t d"
  have ids: "distinct (map t_id (templates d))" using assms(2) by (simp add: schema_defs)
  note keys = clear_displaced_keys [OF ids, of t]
  have ok1: "schema_ok ?d1"
    using assms(2)
    unfolding schema_defs clear_displaced_frame keys by simp
  then have dist: "distinct (map t_id (templates ?d1))"
    "distinct (map (\<lambda>t. nocase (t_name t)) (templates ?d1))"
    by (simp_all add: schema_defs)
  show ?thesis
  proof (cases new)
    case True
    then have "insert_template_row t ?d1 = Inr d'"
      using assms(1) by (simp add: save_template_def Let_def)
    then show ?thesis
      using dist by (auto simp: insert_template_Inr intro!: schema_ok_templates ok1)
  next
    case False
    then have up: "update_template_row t ?d1 = Inr d'"
      using assms(1) by (simp add: save_template_def Let_def)
    let ?ts = "update_where (\<lambda>x. t_id x = t_id t) (replace_template t) (templates ?d1)"
    from up have free: "\<And>x. x \<in> set (templates ?d1) \<Longrightarrow> t_id x \<noteq> t_id t \<Longrightarrow>
        nocase (t_name x) \<noteq> nocase (t_name t)" and d': "d' = ?d1\<lparr>templates := ?ts\<rparr>"
      by (auto simp: update_template_Inr)
    have "map t_id ?ts = map t_id (templates ?d1)" by (simp add: update_where_keeps)
    then have "distinct (map t_id ?ts)" using dist(1) by simp
    moreover have "distinct (map (\<lambda>t. nocase (t_name t)) ?ts)"
      by (rule distinct_update_key [OF dist, where v = "nocase (t_name t)"]) (use free in simp_all)
    ultimately show ?thesis
      unfolding d' by (intro schema_ok_templates ok1)
  qed
qed

lemma save_template_default_count:
  assumes "save_template t new d = Inr d'" and "schema_ok d" and "kind \<in> {Ca, Certificate}"
    and "default_count kind d \<le> 1 \<or> default_for kind t"
  shows "default_count kind d' \<le> 1"
proof -
  let ?d1 = "clear_displaced t d"
  have ids: "distinct (map t_id (templates d))" using assms(2) by (simp add: schema_defs)
  have ids': "distinct (map t_id (templates d'))"
    using save_template_schema_ok [OF assms(1,2)] by (simp add: schema_defs)
  have rows: "x \<in> set (templates ?d1) \<or> t_id x = t_id t \<and> default_for kind t"
    if "x \<in> set (templates d')" "default_for kind x" for x
    using assms(1) that
    by (cases new) (auto simp: save_template_def Let_def insert_template_Inr update_template_Inr
        table_simps default_for_def)
  have displaced: "t_id x = t_id t"
    if "x \<in> set (templates ?d1)" "default_for kind x" "default_for kind t" for x
    using clear_displaced_cleared [OF ids _ that(1)] that(2,3) assms(3)
    by (auto simp: displaced_def default_for_def scope_overlaps_iff_common_form)
  show ?thesis
    unfolding default_count_def count_le_1_iff [OF ids']
  proof (intro ballI impI)
    fix x y
    assume xy: "x \<in> set (templates d')" "y \<in> set (templates d')" "default_for kind x" "default_for kind y"
    show "t_id x = t_id y"
    proof (cases "default_for kind t")
      case True
      then show ?thesis using rows displaced xy by metis
    next
      case False
      then have "x \<in> set (templates ?d1)" "y \<in> set (templates ?d1)" using rows xy by blast+
      then obtain x0 y0 where "x0 \<in> set (templates d)" "t_id x0 = t_id x" "default_for kind x0"
        "y0 \<in> set (templates d)" "t_id y0 = t_id y" "default_for kind y0"
        using clear_displaced_default [OF ids] xy(3,4) by metis
      moreover have "default_count kind d \<le> 1" using False assms(4) by simp
      ultimately show ?thesis unfolding default_count_def count_le_1_iff [OF ids] by metis
    qed
  qed
qed

lemma save_template_one_default:
  assumes "save_template t new d = Inr d'" and "schema_ok d" and "one_default d"
  shows "one_default d'"
  using assms save_template_default_count [OF assms(1,2)] by (auto simp: one_default_def)

lemma delete_template_ok:
  assumes "db_delete_template i d = Inr d'" and "schema_ok d"
  shows "schema_ok d'" and "default_count kind d' \<le> default_count kind d"
proof -
  have d': "d' = d\<lparr>templates := delete_where (\<lambda>t. t_id t = i) (templates d)\<rparr>"
    using assms(1) by (auto simp: db_delete_template_def split: if_splits)
  show ok: "schema_ok d'"
    unfolding d' using assms(2)
    by (intro schema_ok_templates distinct_delete_where) (simp_all add: schema_defs)
  show "default_count kind d' \<le> default_count kind d"
    unfolding d' default_count_def count_where_def delete_where_def
  proof -
    have "length (filter p (filter q ts)) \<le> length (filter p ts)" for p q :: "template \<Rightarrow> bool" and ts
      by (induction ts) auto
    then show "length (filter (default_for kind) (templates (d\<lparr>templates := filter (\<lambda>r. \<not> t_id r = i) (templates d)\<rparr>)))
        \<le> length (filter (default_for kind) (templates d))"
      by simp
  qed
qed

end
