(* ===== verification/Db_Backup.thy ===== *)
theory Db_Backup
  imports Db_Account "HOL-Library.Product_Lexorder"
begin

text \<open>
  Backup and restore of the whole database (\<open>backup_snapshot\<close>, \<open>restore_backup\<close>,
  \<open>nuke_all\<close> and \<open>is_empty\<close> of \<open>src/src/db.rs\<close>). A snapshot lists users, templates and
  CAs with their certificates; a restore runs in one transaction on an empty database.
  The clock is read once per restore in the model, once per row in the code.
\<close>

section \<open>Snapshots\<close>

record backup_ca_row =
  bc_meta :: ca_meta
  bc_secrets :: ca_secrets
  bc_deleted :: bool
  bc_created_at :: int
  bc_updated_at :: int

record backup_cert_row =
  be_meta :: cert_meta
  be_secrets :: cert_secrets
  be_deleted :: bool
  be_revoked_at :: "int option"
  be_revocation_reason :: "string option"
  be_created_at :: int
  be_updated_at :: int

record backup_snapshot =
  sn_users :: "user_record list"
  sn_templates :: "template list"
  sn_cas :: "(backup_ca_row \<times> backup_cert_row list) list"

definition backup_ca :: "ca_row \<Rightarrow> backup_ca_row" where
  "backup_ca r =
     \<lparr>bc_meta = car_meta r, bc_secrets = car_secrets r, bc_deleted = car_deleted r,
      bc_created_at = car_created_at r, bc_updated_at = car_updated_at r\<rparr>"

definition backup_cert :: "cert_row \<Rightarrow> backup_cert_row" where
  "backup_cert r =
     \<lparr>be_meta = row_to_meta r, be_secrets = cer_secrets r, be_deleted = cer_deleted r,
      be_revoked_at = cer_revoked_at r, be_revocation_reason = cer_revocation_reason r,
      be_created_at = cer_created_at r, be_updated_at = cer_updated_at r\<rparr>"

definition query_backup_cas :: "db \<Rightarrow> backup_ca_row list" where
  "query_backup_cas d = map backup_ca (order_by (\<lambda>r. (car_created_at r, car_id r)) (cas d))"

definition query_backup_certs :: "string \<Rightarrow> db \<Rightarrow> backup_cert_row list" where
  "query_backup_certs ca_id d =
     map backup_cert (order_by (\<lambda>r. (cer_created_at r, cer_id r))
       (filter (\<lambda>r. cer_ca_id r = ca_id) (certs d)))"

definition take_snapshot :: "db \<Rightarrow> backup_snapshot" where
  "take_snapshot d =
     \<lparr>sn_users = db_list_users d, sn_templates = query_templates d,
      sn_cas = map (\<lambda>ca. (ca, query_backup_certs (m_id (bc_meta ca)) d)) (query_backup_cas d)\<rparr>"

section \<open>Restore\<close>

definition is_empty :: "db \<Rightarrow> bool" where
  "is_empty d \<longleftrightarrow>
     int (length (cas d)) + int (length (certs d)) + int (length (users d)) +
     int (length (templates d)) = 0"

definition restore_timestamps :: "int \<Rightarrow> int \<Rightarrow> int \<Rightarrow> int \<times> int" where
  "restore_timestamps now created_at updated_at =
     (let c = if created_at = 0 then now else created_at
      in (c, if updated_at = 0 then c else updated_at))"

definition restored_user :: "int \<Rightarrow> user_record \<Rightarrow> user_record" where
  "restored_user now u = u\<lparr>u_created_at := fst (restore_timestamps now (u_created_at u) 0)\<rparr>"

definition insert_user_row :: "int \<Rightarrow> user_record \<Rightarrow> db \<Rightarrow> db result" where
  "insert_user_row now u d =
     with_context (''failed to restore user '' @ u_username u)
       (bind_res (insert_row ''users.id'' u_id (restored_user now u) (users d)) (\<lambda>_.
        bind_res (insert_row ''users.username'' u_username (restored_user now u) (users d)) (\<lambda>t.
        Inr (d\<lparr>users := t\<rparr>))))"

definition restored_ca :: "int \<Rightarrow> backup_ca_row \<Rightarrow> ca_row" where
  "restored_ca now b =
     (let (c, u) = restore_timestamps now (bc_created_at b) (bc_updated_at b)
      in \<lparr>car_meta = bc_meta b, car_secrets = bc_secrets b, car_truststore = [],
          car_deleted = bc_deleted b, car_created_at = c, car_updated_at = u,
          car_meta_version = 0\<rparr>)"

definition insert_ca_row :: "int \<Rightarrow> backup_ca_row \<Rightarrow> db \<Rightarrow> db result" where
  "insert_ca_row now b d =
     with_context (''failed to restore CA '' @ m_id (bc_meta b))
       (bind_res (insert_row ''certificate_authorities.id'' car_id (restored_ca now b) (cas d))
          (\<lambda>t. Inr (d\<lparr>cas := t\<rparr>)))"

definition restored_cert :: "int \<Rightarrow> backup_cert_row \<Rightarrow> cert_row" where
  "restored_cert now b =
     (let (c, u) = restore_timestamps now (be_created_at b) (be_updated_at b)
      in \<lparr>cer_meta = subject_meta.truncate (be_meta b), cer_ca_id = m_ca_id (be_meta b),
          cer_dns_list = join '';'' (m_dns_list (be_meta b)),
          cer_ip_list = join '';'' (m_ip_list (be_meta b)), cer_secrets = be_secrets b,
          cer_revoked_at = be_revoked_at b, cer_revocation_reason = be_revocation_reason b,
          cer_deleted = be_deleted b, cer_created_at = c, cer_updated_at = u,
          cer_meta_version = 0\<rparr>)"

definition insert_cert_row :: "int \<Rightarrow> backup_cert_row \<Rightarrow> db \<Rightarrow> db result" where
  "insert_cert_row now b d =
     with_context (''failed to restore certificate '' @ m_id (be_meta b))
       (insert_cert_stmt (restored_cert now b) d)"

definition restore_cert_of :: "int \<Rightarrow> string \<Rightarrow> backup_cert_row \<Rightarrow> db \<Rightarrow> db result" where
  "restore_cert_of now ca_id b d =
     (if m_ca_id (be_meta b) \<noteq> ca_id
      then Inl (Bail (''backup certificate '' @ m_id (be_meta b) @ '' does not belong to CA '' @ ca_id))
      else insert_cert_row now b d)"

definition restore_ca_of ::
  "int \<Rightarrow> backup_ca_row \<times> backup_cert_row list \<Rightarrow> db \<Rightarrow> db result" where
  "restore_ca_of now p d =
     bind_res (insert_ca_row now (fst p) d)
       (fold_res (restore_cert_of now (m_id (bc_meta (fst p)))) (snd p))"

definition restore_backup :: "int \<Rightarrow> backup_snapshot \<Rightarrow> db \<Rightarrow> db result" where
  "restore_backup now s d =
     (if \<not> is_empty d then Inl (Bail ''backup restore requires an empty database'')
      else bind_res (fold_res (insert_user_row now) (sn_users s) d) (\<lambda>d1.
           bind_res (fold_res insert_template_row (sn_templates s) d1) (\<lambda>d2.
           fold_res (restore_ca_of now) (sn_cas s) d2)))"

definition nuke_all :: "db \<Rightarrow> db" where
  "nuke_all d =
     d\<lparr>ca_locks := delete_where (\<lambda>_. True) (ca_locks d),
       certs := delete_where (\<lambda>_. True) (certs d),
       cas := delete_where (\<lambda>_. True) (cas d),
       users := delete_where (\<lambda>_. True) (users d),
       templates := delete_where (\<lambda>_. True) (templates d)\<rparr>"

lemma nuke_all_empty: "nuke_all d = empty_db"
  by (simp add: nuke_all_def empty_db_def delete_where_def)

lemma is_empty_iff:
  "schema_ok d \<Longrightarrow> is_empty d \<longleftrightarrow> d = empty_db"
proof -
  assume "schema_ok d"
  then have "cas d = [] \<Longrightarrow> ca_locks d = []" by (simp add: schema_defs)
  moreover have "is_empty d \<longleftrightarrow> cas d = [] \<and> certs d = [] \<and> users d = [] \<and> templates d = []"
    unfolding is_empty_def length_0_conv [symmetric] by linarith
  ultimately show ?thesis by (auto simp: empty_db_def)
qed

section \<open>Loops that insert rows\<close>

text \<open>
  The contract of a loop that inserts rows into one table: each round appends one row
  whose two keys must be free. The whole loop then succeeds exactly when all keys are
  distinct, and appends all the rows.
\<close>

locale bulk_insert =
  fixes tab :: "'s \<Rightarrow> 'r list"
    and put :: "'r list \<Rightarrow> 's \<Rightarrow> 's"
    and key1 :: "'r \<Rightarrow> 'k"
    and key2 :: "'r \<Rightarrow> 'h"
    and row :: "'x \<Rightarrow> 'r"
    and allowed :: "'x \<Rightarrow> 's \<Rightarrow> bool"
    and ins :: "'x \<Rightarrow> 's \<Rightarrow> 's result"
  assumes ins_Inr: "ins x s = Inr s' \<longleftrightarrow>
      allowed x s \<and> key1 (row x) \<notin> key1 ` set (tab s) \<and> key2 (row x) \<notin> key2 ` set (tab s) \<and>
      s' = put (tab s @ [row x]) s"
    and allowed_put: "allowed x (put t s) \<longleftrightarrow> allowed x s"
    and tab_put: "tab (put t s) = t"
    and put_put: "put t (put t' s) = put t s"
    and put_tab: "put (tab s) s = s"
begin

lemma loop_Inr:
  assumes "distinct (map key1 (tab s))" and "distinct (map key2 (tab s))"
  shows "fold_res ins xs s = Inr s' \<longleftrightarrow>
    (\<forall>x \<in> set xs. allowed x s) \<and>
    distinct (map key1 (tab s @ map row xs)) \<and> distinct (map key2 (tab s @ map row xs)) \<and>
    s' = put (tab s @ map row xs) s"
  using assms
proof (induction xs arbitrary: s)
  case Nil
  then show ?case by (auto simp: put_tab)
next
  case (Cons x xs)
  let ?s1 = "put (tab s @ [row x]) s"
  have step: "fold_res ins (x # xs) s = Inr s' \<longleftrightarrow>
      allowed x s \<and> key1 (row x) \<notin> key1 ` set (tab s) \<and> key2 (row x) \<notin> key2 ` set (tab s) \<and>
      fold_res ins xs ?s1 = Inr s'"
    by (auto simp: bind_res_eq_Inr ins_Inr)
  show ?case
  proof (cases "key1 (row x) \<notin> key1 ` set (tab s) \<and> key2 (row x) \<notin> key2 ` set (tab s)")
    case True
    then have "distinct (map key1 (tab ?s1))" "distinct (map key2 (tab ?s1))"
      using Cons.prems by (simp_all add: tab_put)
    from Cons.IH [OF this] have rest: "fold_res ins xs ?s1 = Inr s' \<longleftrightarrow>
        (\<forall>x \<in> set xs. allowed x s) \<and> distinct (map key1 (tab s @ map row (x # xs))) \<and>
        distinct (map key2 (tab s @ map row (x # xs))) \<and> s' = put (tab s @ map row (x # xs)) s"
      by (simp add: allowed_put tab_put put_put)
    have "(\<forall>y \<in> set (x # xs). allowed y s) \<longleftrightarrow> allowed x s \<and> (\<forall>y \<in> set xs. allowed y s)"
      by simp
    with True show ?thesis unfolding step rest by blast
  next
    case False
    have "\<not> (distinct (map key1 (tab s @ map row (x # xs))) \<and>
              distinct (map key2 (tab s @ map row (x # xs))))"
      using False by auto
    with False show ?thesis unfolding step by metis
  qed
qed

end

interpretation users_loop: bulk_insert users "\<lambda>t d. d\<lparr>users := t\<rparr>" u_id u_username
  "restored_user now" "\<lambda>_ _. True" "insert_user_row now" for now
  by unfold_locales (auto simp: insert_user_row_def res_simps)

interpretation templates_loop: bulk_insert templates "\<lambda>t d. d\<lparr>templates := t\<rparr>" t_id
  "\<lambda>t. nocase (t_name t)" "\<lambda>t. t" "\<lambda>_ _. True" insert_template_row
  by unfold_locales (auto simp: insert_template_Inr)

interpretation certs_loop: bulk_insert certs "\<lambda>t d. d\<lparr>certs := t\<rparr>" cer_id cer_id
  "restored_cert now"
  "\<lambda>b d. m_ca_id (be_meta b) = i \<and> cer_ca_id (restored_cert now b) \<in> car_id ` set (cas d)"
  "restore_cert_of now i" for now i
  by unfold_locales (auto simp: restore_cert_of_def insert_cert_row_def res_simps)

section \<open>When a restore succeeds, and what it leaves\<close>

definition cert_matches :: "string \<Rightarrow> backup_cert_row \<Rightarrow> bool" where
  "cert_matches i b \<longleftrightarrow> m_ca_id (be_meta b) = i"

definition cas_match :: "(backup_ca_row \<times> backup_cert_row list) list \<Rightarrow> bool" where
  "cas_match ps \<longleftrightarrow> (\<forall>p \<in> set ps. \<forall>b \<in> set (snd p). cert_matches (m_id (bc_meta (fst p))) b)"

definition snapshot_ok :: "backup_snapshot \<Rightarrow> bool" where
  "snapshot_ok s \<longleftrightarrow>
     distinct (map u_id (sn_users s)) \<and> distinct (map u_username (sn_users s)) \<and>
     distinct (map t_id (sn_templates s)) \<and>
     distinct (map (\<lambda>t. nocase (t_name t)) (sn_templates s)) \<and>
     distinct (map (\<lambda>p. m_id (bc_meta (fst p))) (sn_cas s)) \<and>
     distinct (map (\<lambda>b. m_id (be_meta b)) (concat (map snd (sn_cas s)))) \<and>
     cas_match (sn_cas s)"

definition restored_db :: "int \<Rightarrow> backup_snapshot \<Rightarrow> db" where
  "restored_db now s =
     \<lparr>cas = map (\<lambda>p. restored_ca now (fst p)) (sn_cas s),
      certs = map (restored_cert now) (concat (map snd (sn_cas s))), ca_locks = [],
      users = map (restored_user now) (sn_users s), templates = sn_templates s\<rparr>"

lemma restored_ids [simp]:
  "car_id (restored_ca now b) = m_id (bc_meta b)"
  "cer_id (restored_cert now e) = m_id (be_meta e)"
  "cer_ca_id (restored_cert now e) = m_ca_id (be_meta e)"
  "u_id (restored_user now u) = u_id u" "u_username (restored_user now u) = u_username u"
  by (simp_all add: restored_ca_def restored_cert_def restored_user_def restore_timestamps_def
      Let_def car_id_def cer_id_def subject_meta.defs)

lemma insert_ca_row_Inr:
  "insert_ca_row now b d = Inr d' \<longleftrightarrow>
     m_id (bc_meta b) \<notin> car_id ` set (cas d) \<and>
     d' = d\<lparr>cas := cas d @ [restored_ca now b]\<rparr>"
  by (auto simp: insert_ca_row_def res_simps)

lemma restore_ca_of_Inr:
  assumes "distinct (map cer_id (certs d))"
  shows "restore_ca_of now (c, bs) d = Inr d' \<longleftrightarrow>
    m_id (bc_meta c) \<notin> car_id ` set (cas d) \<and> (\<forall>b \<in> set bs. cert_matches (m_id (bc_meta c)) b) \<and>
    distinct (map cer_id (certs d @ map (restored_cert now) bs)) \<and>
    d' = d\<lparr>cas := cas d @ [restored_ca now c], certs := certs d @ map (restored_cert now) bs\<rparr>"
proof -
  let ?d1 = "d\<lparr>cas := cas d @ [restored_ca now c]\<rparr>"
  have "distinct (map cer_id (certs ?d1))" using assms by simp
  from certs_loop.loop_Inr [OF this this, of now "m_id (bc_meta c)" bs d']
  show ?thesis
    unfolding restore_ca_of_def bind_res_eq_Inr fst_conv snd_conv insert_ca_row_Inr cert_matches_def
    by auto
qed

lemma restore_cas_Inr:
  assumes "distinct (map car_id (cas d))" and "distinct (map cer_id (certs d))"
  shows "fold_res (restore_ca_of now) ps d = Inr d' \<longleftrightarrow>
    distinct (map car_id (cas d @ map (\<lambda>p. restored_ca now (fst p)) ps)) \<and>
    distinct (map cer_id (certs d @ map (restored_cert now) (concat (map snd ps)))) \<and>
    cas_match ps \<and>
    d' = d\<lparr>cas := cas d @ map (\<lambda>p. restored_ca now (fst p)) ps,
           certs := certs d @ map (restored_cert now) (concat (map snd ps))\<rparr>"
  using assms
proof (induction ps arbitrary: d)
  case Nil
  then show ?case by (auto simp: cas_match_def)
next
  case (Cons p ps)
  obtain c bs where p: "p = (c, bs)" by (cases p)
  let ?d1 = "d\<lparr>cas := cas d @ [restored_ca now c], certs := certs d @ map (restored_cert now) bs\<rparr>"
  have "fold_res (restore_ca_of now) (p # ps) d = Inr d' \<longleftrightarrow>
      m_id (bc_meta c) \<notin> car_id ` set (cas d) \<and>
      (\<forall>b \<in> set bs. cert_matches (m_id (bc_meta c)) b) \<and>
      distinct (map cer_id (certs d @ map (restored_cert now) bs)) \<and>
      fold_res (restore_ca_of now) ps ?d1 = Inr d'"
    unfolding p fold_res.simps bind_res_eq_Inr restore_ca_of_Inr [OF Cons.prems(2)] by metis
  also have "\<dots> \<longleftrightarrow>
      distinct (map car_id (cas d @ [restored_ca now c])) \<and>
      (\<forall>b \<in> set bs. cert_matches (m_id (bc_meta c)) b) \<and>
      distinct (map cer_id (certs d @ map (restored_cert now) bs)) \<and>
      fold_res (restore_ca_of now) ps ?d1 = Inr d'"
    using Cons.prems(1) by simp
  also have "\<dots> \<longleftrightarrow>
      distinct (map car_id (cas d @ map (\<lambda>p. restored_ca now (fst p)) (p # ps))) \<and>
      distinct (map cer_id (certs d @ map (restored_cert now) (concat (map snd (p # ps))))) \<and>
      cas_match (p # ps) \<and>
      d' = d\<lparr>cas := cas d @ map (\<lambda>p. restored_ca now (fst p)) (p # ps),
           certs := certs d @ map (restored_cert now) (concat (map snd (p # ps)))\<rparr>"
    (is "?L \<longleftrightarrow> ?R")
  proof (cases "distinct (map car_id (cas ?d1)) \<and> distinct (map cer_id (certs ?d1))")
    case True
    then have "distinct (map car_id (cas ?d1))" "distinct (map cer_id (certs ?d1))" by simp_all
    note IH = Cons.IH [OF this]
    have "cas ?d1 @ map (\<lambda>p. restored_ca now (fst p)) ps =
          cas d @ map (\<lambda>p. restored_ca now (fst p)) (p # ps)"
      and "certs ?d1 @ map (restored_cert now) (concat (map snd ps)) =
          certs d @ map (restored_cert now) (concat (map snd (p # ps)))"
      by (simp_all add: p)
    note IH = IH [unfolded this]
    have m: "cas_match (p # ps) \<longleftrightarrow>
        (\<forall>b \<in> set bs. cert_matches (m_id (bc_meta c)) b) \<and> cas_match ps"
      by (simp add: p cas_match_def)
    have "distinct (map car_id (cas d @ [restored_ca now c]))"
      "distinct (map cer_id (certs d @ map (restored_cert now) bs))"
      using True by simp_all
    then show ?thesis unfolding IH m by auto
  next
    case False
    then show ?thesis by (auto simp: p)
  qed
  finally show ?case .
qed

lemma restore_backup_Inr:
  assumes "schema_ok d"
  shows "restore_backup now s d = Inr d' \<longleftrightarrow>
    d = empty_db \<and> snapshot_ok s \<and> d' = restored_db now s"
proof (cases "d = empty_db")
  case True
  let ?us = "map (restored_user now) (sn_users s)"
  have "restore_backup now s d = Inr d' \<longleftrightarrow>
      (\<exists>d1. fold_res (insert_user_row now) (sn_users s) empty_db = Inr d1 \<and>
        (\<exists>d2. fold_res insert_template_row (sn_templates s) d1 = Inr d2 \<and>
           fold_res (restore_ca_of now) (sn_cas s) d2 = Inr d'))"
    using is_empty_iff [OF assms] True by (simp add: restore_backup_def bind_res_eq_Inr)
  also have "\<dots> \<longleftrightarrow> snapshot_ok s \<and> d' = restored_db now s"
    by (auto simp: users_loop.loop_Inr templates_loop.loop_Inr restore_cas_Inr empty_db_def
        restored_db_def snapshot_ok_def comp_def)
  finally show ?thesis using True by simp
next
  case False
  then show ?thesis using is_empty_iff [OF assms] by (auto simp: restore_backup_def)
qed

lemma restored_db_schema_ok: "snapshot_ok s \<Longrightarrow> schema_ok (restored_db now s)"
  by (auto simp: snapshot_ok_def schema_defs restored_db_def comp_def cas_match_def cert_matches_def
      image_image intro: image_eqI [rotated])

section \<open>Restoring what was backed up\<close>

text \<open>
  A backup keeps everything but the truststore (rebuilt on demand) and the metadata
  version (rows are checked again), when no timestamp is 0 (the mark of an old backup)
  and the stored name lists are in the form \<open>split_list\<close> reads back.
\<close>

definition list_stable :: "string \<Rightarrow> bool" where
  "list_stable s \<longleftrightarrow> join '';'' (split_list s) = s"

definition backup_stable :: "db \<Rightarrow> bool" where
  "backup_stable d \<longleftrightarrow>
     list_all (\<lambda>r. car_created_at r \<noteq> 0 \<and> car_updated_at r \<noteq> 0) (cas d) \<and>
     list_all (\<lambda>r. cer_created_at r \<noteq> 0 \<and> cer_updated_at r \<noteq> 0 \<and>
                 list_stable (cer_dns_list r) \<and> list_stable (cer_ip_list r)) (certs d) \<and>
     list_all (\<lambda>u. u_created_at u \<noteq> 0) (users d)"

definition reset_ca :: "ca_row \<Rightarrow> ca_row" where
  "reset_ca r = r\<lparr>car_truststore := [], car_meta_version := 0\<rparr>"

definition reset_cert :: "cert_row \<Rightarrow> cert_row" where
  "reset_cert r = r\<lparr>cer_meta_version := 0\<rparr>"

lemma restored_backup_ca:
  "car_created_at r \<noteq> 0 \<Longrightarrow> car_updated_at r \<noteq> 0 \<Longrightarrow>
   restored_ca now (backup_ca r) = reset_ca r"
  by (simp add: restored_ca_def backup_ca_def restore_timestamps_def reset_ca_def)

lemma row_to_meta_sel [simp]:
  "m_ca_id (row_to_meta r) = cer_ca_id r" "m_dns_list (row_to_meta r) = split_list (cer_dns_list r)"
  "m_ip_list (row_to_meta r) = split_list (cer_ip_list r)" "m_id (row_to_meta r) = cer_id r"
  "subject_meta.truncate (row_to_meta r) = cer_meta r"
  by (simp_all add: row_to_meta_def cert_meta.defs subject_meta.defs cer_id_def)

lemma restored_backup_cert:
  "cer_created_at r \<noteq> 0 \<Longrightarrow> cer_updated_at r \<noteq> 0 \<Longrightarrow> list_stable (cer_dns_list r) \<Longrightarrow>
   list_stable (cer_ip_list r) \<Longrightarrow> restored_cert now (backup_cert r) = reset_cert r"
  by (simp add: restored_cert_def backup_cert_def restore_timestamps_def reset_cert_def
      list_stable_def)

lemma backup_reset [simp]:
  "backup_ca (reset_ca r) = backup_ca r" "backup_cert (reset_cert c) = backup_cert c"
  by (simp_all add: backup_ca_def backup_cert_def reset_ca_def reset_cert_def row_to_meta_def)

lemma reset_sel [simp]:
  "car_id (reset_ca r) = car_id r" "car_created_at (reset_ca r) = car_created_at r"
  "cer_id (reset_cert c) = cer_id c" "cer_created_at (reset_cert c) = cer_created_at c"
  "cer_ca_id (reset_cert c) = cer_ca_id c"
  by (simp_all add: reset_ca_def reset_cert_def)

lemma backup_sel [simp]:
  "m_id (bc_meta (backup_ca r)) = car_id r" "m_id (be_meta (backup_cert c)) = cer_id c"
  "m_ca_id (be_meta (backup_cert c)) = cer_ca_id c"
  by (simp_all add: backup_ca_def backup_cert_def car_id_def)

definition ca_order :: "db \<Rightarrow> ca_row list" where
  "ca_order d = order_by (\<lambda>r. (car_created_at r, car_id r)) (cas d)"

definition cert_order :: "string \<Rightarrow> db \<Rightarrow> cert_row list" where
  "cert_order i d =
     order_by (\<lambda>r. (cer_created_at r, cer_id r)) (filter (\<lambda>r. cer_ca_id r = i) (certs d))"

lemma take_snapshot_alt:
  "take_snapshot d =
     \<lparr>sn_users = db_list_users d, sn_templates = query_templates d,
      sn_cas = map (\<lambda>r. (backup_ca r, map backup_cert (cert_order (car_id r) d))) (ca_order d)\<rparr>"
  by (simp add: take_snapshot_def query_backup_cas_def query_backup_certs_def ca_order_def
      cert_order_def)

text \<open>Grouping rows by key and listing the groups of all keys loses and repeats nothing.\<close>

lemma mset_groups:
  "distinct ks \<Longrightarrow>
   mset (concat (map (\<lambda>i. filter (\<lambda>r. key r = i) xs) ks)) = mset (filter (\<lambda>r. key r \<in> set ks) xs)"
proof (induction ks)
  case Nil
  then show ?case by simp
next
  case (Cons k ks)
  have "filter_mset (\<lambda>r. key r = k \<or> key r \<in> set ks) (mset xs) =
      filter_mset (\<lambda>r. key r = k) (mset xs) + filter_mset (\<lambda>r. key r \<in> set ks) (mset xs)"
    using Cons.prems by (intro multiset_eqI) auto
  then show ?case using Cons by (simp flip: mset_filter)
qed

lemma filter_groups:
  assumes "distinct ks" and "\<And>i r. r \<in> set (g i) \<Longrightarrow> key r = i"
  shows "filter (\<lambda>r. key r = k) (concat (map g ks)) = (if k \<in> set ks then g k else [])"
  using assms(1)
proof (induction ks)
  case Nil
  then show ?case by simp
next
  case (Cons i ks)
  have "filter (\<lambda>r. key r = k) (g i) = (if i = k then g k else [])"
    using assms(2) by (auto simp: filter_id_conv filter_empty_conv)
  then show ?case using Cons by auto
qed

lemma order_by_sorted: "sorted (map f xs) \<Longrightarrow> order_by f xs = xs"
  by (simp add: order_by_def sort_key_id_if_sorted)

lemma sorted_order_by: "sorted (map f (order_by f xs))"
  by (simp add: order_by_def)

lemma order_by_again:
  "(\<And>x. f (g x) = f x) \<Longrightarrow> order_by f (map g (order_by f xs)) = map g (order_by f xs)"
  by (rule order_by_sorted) (simp add: comp_def sorted_order_by)

lemma ca_order_ids:
  assumes "schema_ok d"
  shows "distinct (map car_id (ca_order d))" and "set (ca_order d) = set (cas d)"
  using assms by (simp_all add: schema_defs ca_order_def distinct_order_by)

lemma mset_cert_order:
  assumes "schema_ok d"
  shows "mset (concat (map (\<lambda>r. cert_order (car_id r) d) (ca_order d))) = mset (certs d)"
proof -
  have same: "mset (concat (map (\<lambda>i. cert_order i d) ks)) =
      mset (concat (map (\<lambda>i. filter (\<lambda>r. cer_ca_id r = i) (certs d)) ks))" for ks
    by (induction ks) (simp_all add: cert_order_def)
  have "filter (\<lambda>r. cer_ca_id r \<in> set (map car_id (ca_order d))) (certs d) = certs d"
    using assms by (auto simp: filter_id_conv schema_defs ca_order_ids(2) [OF assms])
  then show ?thesis
    using same [of "map car_id (ca_order d)"]
      mset_groups [OF ca_order_ids(1) [OF assms], of cer_ca_id "certs d"]
    by (simp add: comp_def flip: mset_filter)
qed

lemma restored_snapshot:
  assumes "schema_ok d" and "backup_stable d"
  shows "restored_db now (take_snapshot d) =
    \<lparr>cas = map reset_ca (ca_order d),
     certs = map reset_cert (concat (map (\<lambda>r. cert_order (car_id r) d) (ca_order d))),
     ca_locks = [], users = db_list_users d, templates = query_templates d\<rparr>"
proof -
  have c: "r \<in> set (ca_order d) \<Longrightarrow> restored_ca now (backup_ca r) = reset_ca r" for r
    using assms(2)
    by (auto simp: ca_order_ids [OF assms(1)] backup_stable_def list_all_iff
        intro: restored_backup_ca)
  have e: "r \<in> set (cert_order i d) \<Longrightarrow> restored_cert now (backup_cert r) = reset_cert r" for r i
    using assms(2)
    by (auto simp: cert_order_def backup_stable_def list_all_iff intro: restored_backup_cert)
  have u: "map (restored_user now) (db_list_users d) = db_list_users d"
    using assms(2)
    by (intro map_idI)
      (auto simp: db_list_users_def backup_stable_def list_all_iff restored_user_def
        restore_timestamps_def Let_def)
  show ?thesis
    unfolding restored_db_def take_snapshot_alt
    by (auto simp: c e u map_concat comp_def intro!: arg_cong [where f = concat])
qed

lemma snapshot_is_ok:
  assumes "schema_ok d"
  shows "snapshot_ok (take_snapshot d)"
proof -
  let ?cs = "concat (map (\<lambda>r. cert_order (car_id r) d) (ca_order d))"
  have "mset (map cer_id ?cs) = mset (map cer_id (certs d))"
    using mset_cert_order [OF assms] by (metis mset_map)
  moreover have "distinct (map cer_id (certs d))" using assms by (simp add: schema_defs)
  ultimately have "distinct (map cer_id ?cs)" by (metis mset_eq_imp_distinct_iff)
  then have "distinct (map (\<lambda>b. m_id (be_meta b)) (concat (map snd (sn_cas (take_snapshot d)))))"
    by (simp add: take_snapshot_alt comp_def map_concat)
  moreover have "cas_match (sn_cas (take_snapshot d))"
    by (auto simp: take_snapshot_alt cas_match_def cert_matches_def cert_order_def)
  moreover have "distinct (map (\<lambda>p. m_id (bc_meta (fst p))) (sn_cas (take_snapshot d)))"
    using ca_order_ids(1) [OF assms] by (simp add: take_snapshot_alt comp_def)
  moreover have "sn_users (take_snapshot d) = db_list_users d"
    "sn_templates (take_snapshot d) = query_templates d"
    by (simp_all add: take_snapshot_def)
  ultimately show ?thesis
    using assms
    by (simp add: snapshot_ok_def schema_defs db_list_users_def query_templates_def
        distinct_order_by)
qed

text \<open>A second backup, of the restored database, is the first one.\<close>

lemma snapshot_restored:
  assumes "schema_ok d" and "backup_stable d"
  shows "take_snapshot (restored_db now (take_snapshot d)) = take_snapshot d"
proof -
  let ?d' = "restored_db now (take_snapshot d)"
  note d' = restored_snapshot [OF assms, of now]
  have cas': "ca_order ?d' = map reset_ca (ca_order d)"
    unfolding d' ca_order_def by (simp add: order_by_again)
  have certs': "cert_order i ?d' = map reset_cert (cert_order i d)"
    if "i \<in> car_id ` set (cas d)" for i
  proof -
    have "filter (\<lambda>r. cer_ca_id r = i) (certs ?d') = map reset_cert (filter (\<lambda>r. cer_ca_id r = i)
        (concat (map (\<lambda>i. cert_order i d) (map car_id (ca_order d)))))"
      unfolding d' by (simp add: filter_map comp_def)
    also have "\<dots> = map reset_cert (cert_order i d)"
      using that ca_order_ids [OF assms(1)]
      by (subst filter_groups) (auto simp: cert_order_def)
    finally show ?thesis
      unfolding cert_order_def [of i ?d'] by (simp add: cert_order_def [of i d] order_by_again)
  qed
  have "map (\<lambda>r. (backup_ca r, map backup_cert (cert_order (car_id r) ?d'))) (ca_order ?d') =
      map (\<lambda>r. (backup_ca r, map backup_cert (cert_order (car_id r) d))) (ca_order d)"
    using ca_order_ids(2) [OF assms(1)] by (auto simp: cas' certs' comp_def)
  moreover have "db_list_users ?d' = db_list_users d" "query_templates ?d' = query_templates d"
    unfolding d' by (simp_all add: db_list_users_def query_templates_def order_by_sorted sorted_order_by)
  ultimately show ?thesis by (simp only: take_snapshot_alt)
qed

end
