(* ===== verification/Db_Ops.thy ===== *)
theory Db_Ops
  imports Db_Backup
begin

text \<open>
  The database as a state machine. \<open>db_op\<close> has one constructor per public operation of
  \<open>Db\<close> that writes (\<open>src/src/db.rs\<close>); each is one transaction, so a run is a sequence of
  them in the order in which they commit, whichever client issued them. A transaction
  that fails leaves the state as it was. The theory shows what every operation keeps and
  what the signing lock guarantees under any interleaving.
\<close>

datatype db_op =
    Insert_ca int ca_meta ca_secrets
  | Update_ca_metadata int string string string
  | Repair_ca ca_meta
  | Repair_cert cert_meta
  | Check_ca string
  | Check_cert string
  | Delete_ca int string
  | Restore_ca int string
  | Set_truststore string string string
  | Insert_cert int cert_meta cert_secrets "(string \<times> string) option" string
  | Insert_cert_restore int cert_meta cert_secrets
  | Update_cert int string string string string string int int "string \<times> string" string
  | Revoke_cert int string string string int "string \<times> string" "string \<times> string" string
  | Renew_ca int string string string int int "(string \<times> string) option"
      "(string \<times> string) list" string
  | Delete_cert int string string
  | Restore_cert int string string
  | Acquire int string string int
  | Release string string
  | Insert_user int string string string string
  | Delete_user string
  | Save_template template bool
  | Delete_template string
  | Restore_backup int backup_snapshot
  | Nuke

fun db_exec :: "db_op \<Rightarrow> db \<Rightarrow> db result" where
  "db_exec (Insert_ca now meta secrets) d = insert_ca now meta secrets d"
| "db_exec (Update_ca_metadata now i p g) d = update_ca_metadata now i p g d"
| "db_exec (Repair_ca meta) d = Inr (update_ca_meta_repaired meta d)"
| "db_exec (Repair_cert meta) d = Inr (update_cert_meta_repaired meta d)"
| "db_exec (Check_ca i) d = Inr (mark_ca_meta_checked i d)"
| "db_exec (Check_cert i) d = Inr (mark_cert_meta_checked i d)"
| "db_exec (Delete_ca now i) d = delete_ca now i d"
| "db_exec (Restore_ca now i) d = restore_ca now i d"
| "db_exec (Set_truststore i cert ts) d = Inr (snd (set_ca_truststore i cert ts d))"
| "db_exec (Insert_cert now meta secrets st p) d = insert_cert_with_state now meta secrets st p d"
| "db_exec (Insert_cert_restore now meta secrets) d = insert_cert_restore now meta secrets d"
| "db_exec (Update_cert now c i pem p12 bun it vd st p) d =
     update_cert_with_state now c i pem p12 bun it vd st p d"
| "db_exec (Revoke_cert now c i reason at st crl p) d =
     revoke_cert_with_state now c i reason at st crl p d"
| "db_exec (Renew_ca now c pem p12 it vd crl bundles p) d =
     renew_ca_with_state now c pem p12 it vd crl bundles p d"
| "db_exec (Delete_cert now c i) d = delete_cert now c i d"
| "db_exec (Restore_cert now c i) d = restore_cert now c i d"
| "db_exec (Acquire now c p ttl) d = acquire_ca_lock now c p ttl d"
| "db_exec (Release c p) d = Inr (release_ca_lock c p d)"
| "db_exec (Insert_user now i n h role) d = insert_user now i n h role d"
| "db_exec (Delete_user i) d = db_delete_user i d"
| "db_exec (Save_template t new) d = save_template t new d"
| "db_exec (Delete_template i) d = db_delete_template i d"
| "db_exec (Restore_backup now s) d = restore_backup now s d"
| "db_exec Nuke d = Inr (nuke_all d)"

text \<open>A failed transaction is rolled back.\<close>

definition db_commit :: "db_op \<Rightarrow> db \<Rightarrow> db" where
  "db_commit opn d = unwrap_or d (db_exec opn d)"

fun db_run :: "db_op list \<Rightarrow> db \<Rightarrow> db" where
  "db_run [] d = d"
| "db_run (opn # ops) d = db_run ops (db_commit opn d)"

inductive db_reachable :: "db \<Rightarrow> bool" where
  start: "db_reachable empty_db"
| step: "db_reachable d \<Longrightarrow> db_exec opn d = Inr d' \<Longrightarrow> db_reachable d'"

lemma db_run_append: "db_run (xs @ ys) d = db_run ys (db_run xs d)"
  by (induction xs arbitrary: d) auto

lemma db_commit_cases:
  obtains "db_commit opn d = d" | d' where "db_exec opn d = Inr d'" "db_commit opn d = d'"
  by (cases "db_exec opn d") (auto simp: db_commit_def)

text \<open>What every transaction keeps, every run keeps.\<close>

lemma db_run_invariant:
  assumes "\<And>opn d d'. opn \<in> set ops \<Longrightarrow> P d \<Longrightarrow> db_exec opn d = Inr d' \<Longrightarrow> P d'" and "P d"
  shows "P (db_run ops d)"
  using assms
proof (induction ops arbitrary: d)
  case Nil
  then show ?case by simp
next
  case (Cons opn ops)
  have "P (db_commit opn d)"
    using Cons.prems by (cases rule: db_commit_cases [of opn d]) auto
  then have "P (db_run ops (db_commit opn d))"
    by (intro Cons.IH) (use Cons.prems(1) in \<open>meson list.set_intros(2)\<close>)
  then show ?case by simp
qed

section \<open>Effects, table by table\<close>

lemma release_frame [simp]:
  "cas (release_ca_lock c p d) = cas d" "certs (release_ca_lock c p d) = certs d"
  "users (release_ca_lock c p d) = users d" "templates (release_ca_lock c p d) = templates d"
  by (simp_all add: release_ca_lock_def)

lemma release_schema_ok: "schema_ok d \<Longrightarrow> schema_ok (release_ca_lock c p d)"
  unfolding release_ca_lock_def
  by (rule schema_ok_locks) (auto simp: schema_defs table_simps intro: distinct_delete_where)

lemma update_certs_schema_ok:
  assumes "\<And>r. p r \<Longrightarrow> cer_id (f r) = cer_id r" and "\<And>r. p r \<Longrightarrow> cer_ca_id (f r) = cer_ca_id r"
  shows "schema_ok (d\<lparr>certs := update_where p f (certs d)\<rparr>) = schema_ok d"
  using assms by (intro schema_ok_cong) (simp_all add: update_where_keeps)

lemma renewed_simps [simp]:
  "cer_id (renewed_cert pem p12 bun it vd now r) = cer_id r"
  "cer_ca_id (renewed_cert pem p12 bun it vd now r) = cer_ca_id r"
  "cer_id (revoked_cert reason at now r) = cer_id r"
  "cer_ca_id (revoked_cert reason at now r) = cer_ca_id r"
  "car_id (renewed_ca pem p12 it vd now c) = car_id c"
  by (simp_all add: renewed_cert_def revoked_cert_def renewed_ca_def cer_id_def car_id_def)

lemma crl_change_ids [simp]: "map car_id (crl_change c crl now t) = map car_id t"
  by (auto simp: crl_change_def update_where_keeps split: option.splits)

lemma put_bundle_ids [simp]:
  "map cer_id (put_bundle now c b t) = map cer_id t"
  "map cer_ca_id (put_bundle now c b t) = map cer_ca_id t"
  by (simp_all add: put_bundle_def update_where_keeps)

lemma put_bundles_ids [simp]:
  "map cer_id (fold (put_bundle now c) bs t) = map cer_id t"
  "map cer_ca_id (fold (put_bundle now c) bs t) = map cer_ca_id t"
  by (induction bs arbitrary: t) simp_all

lemma acquire_schema_ok:
  assumes "acquire_ca_lock now c p ttl d = Inr d'" and "schema_ok d"
  shows "schema_ok d'"
proof -
  have "locks_ok d'"
    using ca_lease.acquire_ok [OF _ assms(1)] assms(2) by (simp add: locks_ok_def schema_defs)
  moreover have "l_ca_id ` set (ca_locks d') \<subseteq> car_id ` set (cas d)" and "\<exists>ls. d' = d\<lparr>ca_locks := ls\<rparr>"
    using assms by (auto simp: acquire_Inr table_simps schema_defs ca_exists_iff)
  ultimately show ?thesis
    using assms(2) by (auto simp: locks_ok_def intro!: schema_ok_locks)
qed

lemma insert_cert_schema_ok:
  assumes "insert_cert_with_state now meta secrets st p d = Inr d'" and "schema_ok d"
  shows "schema_ok d'"
proof -
  let ?c = "m_ca_id meta"
  let ?d1 = "d\<lparr>cas := update_where (active_ca ?c) (ca_state_change st now) (cas d)\<rparr>"
  have ok1: "schema_ok ?d1" using assms(2) by (simp add: update_cas_schema_ok)
  have "?c \<in> car_id ` set (cas ?d1)" "m_id meta \<notin> cer_id ` set (certs d)"
    using assms(1) by (auto simp: insert_cert_Inr update_ids active_ca_in_ids)
  with ok1 have "schema_ok (?d1\<lparr>certs := certs ?d1 @ [new_cert_row now 1 meta secrets]\<rparr>)"
    by (intro schema_ok_certs) (auto simp: schema_defs)
  then show ?thesis
    using assms(1) by (auto simp: insert_cert_Inr intro!: release_schema_ok)
qed

lemma update_cert_schema_ok:
  assumes "update_cert_with_state now c i pem p12 bun it vd st p d = Inr d'" and "schema_ok d"
  shows "schema_ok d'"
  using assms(1)
  by (auto simp: update_cert_Inr update_where_keeps assms(2) schema_ok_cong [where d = d]
      intro!: release_schema_ok)

lemma revoke_cert_schema_ok:
  assumes "revoke_cert_with_state now c i reason at st crl p d = Inr d'" and "schema_ok d"
  shows "schema_ok d'"
  using assms(1)
  by (auto simp: revoke_cert_Inr update_where_keeps assms(2) schema_ok_cong [where d = d]
      intro!: release_schema_ok)

lemma renew_ca_schema_ok:
  assumes "renew_ca_with_state now c pem p12 it vd crl bundles p d = Inr d'" and "schema_ok d"
  shows "schema_ok d'"
  using assms(1)
  by (auto simp: renew_ca_Inr update_where_keeps assms(2) schema_ok_cong [where d = d]
      intro!: release_schema_ok)

lemma cert_ops_schema_ok:
  "delete_cert now c i d = Inr d' \<Longrightarrow> schema_ok d \<Longrightarrow> schema_ok d'"
  "schema_ok (update_cert_meta_repaired meta d) = schema_ok d"
  "schema_ok (mark_cert_meta_checked i d) = schema_ok d"
  by (auto simp: delete_cert_def update_cert_meta_repaired_def mark_cert_meta_checked_def
      cer_id_def update_certs_schema_ok split: if_splits)

lemma restore_cert_Inr_D:
  "restore_cert now c i d = Inr d' \<Longrightarrow>
   d' = d\<lparr>certs := update_where (trashed_cert c i)
             (\<lambda>r. r\<lparr>cer_deleted := False, cer_updated_at := now\<rparr>) (certs d)\<rparr>"
  by (auto simp: restore_cert_def res_simps split: if_splits)

lemma insert_cert_restore_schema_ok:
  "insert_cert_restore now meta secrets d = Inr d' \<Longrightarrow> schema_ok d \<Longrightarrow> schema_ok d'"
  by (auto simp: insert_cert_restore_def res_simps schema_defs)

text \<open>Every transaction keeps the integrity of the schema.\<close>

lemma db_exec_schema_ok: "db_exec opn d = Inr d' \<Longrightarrow> schema_ok d \<Longrightarrow> schema_ok d'"
proof (cases opn)
  case (Restore_backup now s)
  assume "db_exec opn d = Inr d'" "schema_ok d"
  with Restore_backup show ?thesis by (auto simp: restore_backup_Inr restored_db_schema_ok)
next
  case (Restore_cert now c i)
  assume "db_exec opn d = Inr d'" "schema_ok d"
  with Restore_cert show ?thesis
    by (auto dest!: restore_cert_Inr_D simp: update_certs_schema_ok)
qed (auto simp: repair_schema_ok cert_ops_schema_ok(2,3) nuke_all_empty schema_ok_empty release_schema_ok
    dest: insert_ca_schema_ok update_ca_metadata_schema_ok delete_ca_schema_ok restore_ca_schema_ok
      insert_cert_schema_ok insert_cert_restore_schema_ok update_cert_schema_ok revoke_cert_schema_ok
      renew_ca_schema_ok cert_ops_schema_ok(1) acquire_schema_ok insert_user_schema_ok
      delete_user_schema_ok save_template_schema_ok delete_template_ok(1))

end
