(* ===== verification/Db_Safety.thy ===== *)
theory Db_Safety
  imports Db_Ops
begin

text \<open>
  Safety of the database under every sequence of transactions: the signing lock makes
  read-sign-write sequences on one CA atomic, a revoked certificate stays revoked with
  the content it had, the stored truststore belongs to the current CA certificate, and
  each creation form has at most one default template.
\<close>

section \<open>Signing state under the lock\<close>

definition secrets_of :: "string \<Rightarrow> db \<Rightarrow> ca_secrets option" where
  "secrets_of c d = map_option car_secrets (find (\<lambda>r. car_id r = c) (cas d))"

text \<open>The transactions issued by the holder \<open>p\<close> of the lock of \<open>c\<close>.\<close>

fun acts_as :: "string \<Rightarrow> string \<Rightarrow> db_op \<Rightarrow> bool" where
  "acts_as c p (Insert_cert now meta secrets st q) \<longleftrightarrow> m_ca_id meta = c \<and> q = p"
| "acts_as c p (Update_cert now b i pem p12 bun it vd st q) \<longleftrightarrow> b = c \<and> q = p"
| "acts_as c p (Revoke_cert now b i reason at st crl q) \<longleftrightarrow> b = c \<and> q = p"
| "acts_as c p (Renew_ca now b pem p12 it vd crl bundles q) \<longleftrightarrow> b = c \<and> q = p"
| "acts_as c p (Acquire now b q ttl) \<longleftrightarrow> b = c \<and> q = p"
| "acts_as c p (Release b q) \<longleftrightarrow> b = c \<and> q = p"
| "acts_as c p _ \<longleftrightarrow> False"

text \<open>The transactions that write what a signing operation produced.\<close>

fun signs :: "string \<Rightarrow> string \<Rightarrow> db_op \<Rightarrow> bool" where
  "signs c p (Insert_cert now meta secrets st q) \<longleftrightarrow> m_ca_id meta = c \<and> q = p"
| "signs c p (Update_cert now b i pem p12 bun it vd st q) \<longleftrightarrow> b = c \<and> q = p"
| "signs c p (Revoke_cert now b i reason at st crl q) \<longleftrightarrow> b = c \<and> q = p"
| "signs c p (Renew_ca now b pem p12 it vd crl bundles q) \<longleftrightarrow> b = c \<and> q = p"
| "signs c p _ \<longleftrightarrow> False"

lemma secrets_of_update:
  assumes "\<And>r. q r \<Longrightarrow> car_id (f r) = car_id r"
    and "\<And>r. q r \<Longrightarrow> car_id r = c \<Longrightarrow> car_secrets (f r) = car_secrets r"
  shows "secrets_of c (d\<lparr>cas := update_where q f (cas d)\<rparr>) = secrets_of c d"
proof -
  have "find (\<lambda>r. car_id r = c) (update_where q f (cas d)) =
      map_option (\<lambda>r. if q r then f r else r) (find (\<lambda>r. car_id r = c) (cas d))"
    by (rule find_update_where) (simp add: assms(1))
  then show ?thesis
    unfolding secrets_of_def
    by (cases "find (\<lambda>r. car_id r = c) (cas d)") (auto dest!: find_Some_iff_D simp: assms(2))
qed

lemma secrets_of_cong: "cas d' = cas d \<Longrightarrow> secrets_of c d' = secrets_of c d"
  by (simp add: secrets_of_def)

lemma db_holds_cong: "ca_locks d' = ca_locks d \<Longrightarrow> db_holds d' c p = db_holds d c p"
  by (simp add: db_holds_def)

lemma db_holds_exists: "schema_ok d \<Longrightarrow> db_holds d c p \<Longrightarrow> c \<in> car_id ` set (cas d)"
  by (auto simp: db_holds_def owns_lock_def schema_defs)

text \<open>A transaction that only changes other CAs' rows, and no lock of \<open>c\<close>.\<close>

definition lock_safe :: "string \<Rightarrow> string \<Rightarrow> db \<Rightarrow> db \<Rightarrow> bool" where
  "lock_safe c p d d' \<longleftrightarrow>
     (db_holds d' c p \<longrightarrow> db_holds d c p \<and> secrets_of c d' = secrets_of c d)"

lemma lock_safe_cas:
  assumes "\<And>r. q r \<Longrightarrow> car_id (f r) = car_id r"
    and "\<And>r. q r \<Longrightarrow> car_secrets (f r) = car_secrets r"
  shows "lock_safe c p d (d\<lparr>cas := update_where q f (cas d)\<rparr>)"
  using secrets_of_update [of q f c d] assms by (simp add: lock_safe_def db_holds_def)

lemma lock_safe_frame: "cas d' = cas d \<Longrightarrow> ca_locks d' = ca_locks d \<Longrightarrow> lock_safe c p d d'"
  by (simp add: lock_safe_def secrets_of_def db_holds_def)

text \<open>A commit under a lock of another CA, or by another owner, who holds the lock.\<close>

lemma lock_safe_signed:
  assumes "schema_ok d" and "db_holds d b q" and "\<not> (b = c \<and> q = p)"
    and "\<And>r. car_id r = c \<Longrightarrow> b \<noteq> c \<Longrightarrow> g r \<Longrightarrow> car_secrets (f r) = car_secrets r"
    and "\<And>r. g r \<Longrightarrow> car_id (f r) = car_id r"
    and "cas d' = update_where g f (cas d)" and "ca_locks d' = ca_locks d"
  shows "lock_safe c p d (release_ca_lock b q d')"
proof (cases "b = c")
  case True
  then have "q \<noteq> p" using assms(3) by simp
  then have "\<not> db_holds d c p"
    using assms(1,2) True ca_lease.one_holder [of d c p q] by (auto simp: locks_ok_def schema_defs)
  then show ?thesis
    by (simp add: lock_safe_def ca_lease.release_holds db_holds_cong [OF assms(7)])
next
  case False
  then have "secrets_of c (d\<lparr>cas := update_where g f (cas d)\<rparr>) = secrets_of c d"
    using assms(4,5) by (intro secrets_of_update) auto
  then have "secrets_of c (release_ca_lock b q d') = secrets_of c d"
    by (simp add: secrets_of_def assms(6))
  then show ?thesis
    by (simp add: lock_safe_def ca_lease.release_holds db_holds_cong [OF assms(7)])
qed

lemma crl_change_as_update:
  "crl_change c crl now t =
     update_where (\<lambda>r. car_id r = c)
       (case crl of None \<Rightarrow> (\<lambda>r. r) | Some (der, num) \<Rightarrow> put_ca_crl der num now) t"
  by (auto simp: crl_change_def update_where_def split: option.splits)

lemma update_twice:
  "update_where p f (update_where q g t) =
     update_where (\<lambda>_. True) (\<lambda>r. let s = (if q r then g r else r) in if p s then f s else s) t"
  by (simp add: update_where_def Let_def comp_def)

lemma lock_safe_renew:
  assumes "schema_ok d" and "renew_ca_with_state now b pem p12 it vd crl bundles q d = Inr d'"
    and "\<not> (b = c \<and> q = p)"
  shows "lock_safe c p d d'"
proof -
  from assms(2) have h: "db_holds d b q" and d': "d' = release_ca_lock b q
       (d\<lparr>cas := crl_change b crl now (update_where (active_ca b) (renewed_ca pem p12 it vd now) (cas d)),
          certs := fold (put_bundle now b) bundles (certs d)\<rparr>)"
    by (auto simp: renew_ca_Inr)
  show ?thesis
    unfolding d' crl_change_as_update update_twice
    by (rule lock_safe_signed [OF assms(1) h assms(3), where g = "\<lambda>_. True"])
      (auto simp: Let_def active_ca_def split: option.splits)
qed

lemma lock_safe_acquire:
  assumes "acquire_ca_lock now b q ttl d = Inr d'" and "\<not> (b = c \<and> q = p)" and "schema_ok d"
  shows "lock_safe c p d d'"
proof -
  obtain ls where "d' = d\<lparr>ca_locks := ls\<rparr>"
    using assms(1) unfolding acquire_Inr by blast
  then have "secrets_of c d' = secrets_of c d" by (simp add: secrets_of_def)
  moreover have "db_holds d c p" if h: "db_holds d' c p"
  proof (cases "b = c")
    case True
    then have "\<not> db_holds d' c p"
      using ca_lease.acquire_displaces [OF _ assms(1), of p] assms(2,3)
      by (auto simp: locks_ok_def schema_defs)
    with h show ?thesis by simp
  next
    case False
    then have "c \<noteq> b" by simp
    from ca_lease.acquire_others [OF assms(1) this h] show ?thesis .
  qed
  ultimately show ?thesis by (simp add: lock_safe_def)
qed

lemma lock_safe_insert_ca:
  assumes "insert_ca now meta secrets d = Inr d'" and "schema_ok d"
  shows "lock_safe c p d d'"
proof -
  let ?r = "\<lparr>car_meta = meta, car_secrets = secrets, car_truststore = [], car_deleted = False,
         car_created_at = now, car_updated_at = now, car_meta_version = 1\<rparr>"
  have d': "d' = d\<lparr>cas := cas d @ [?r]\<rparr>" using assms(1) by (simp add: insert_ca_Inr)
  have "secrets_of c d' = secrets_of c d" if held: "db_holds d c p"
  proof -
    have "find (\<lambda>r. car_id r = c) (cas d) \<noteq> None"
      using db_holds_exists [OF assms(2) held] by (auto simp: find_None_D)
    then obtain r where "find (\<lambda>r. car_id r = c) (cas d) = Some r" by blast
    then show ?thesis by (simp add: d' secrets_of_def find_append)
  qed
  moreover have "db_holds d' c p = db_holds d c p" by (simp add: d' db_holds_def)
  ultimately show ?thesis by (simp add: lock_safe_def)
qed

text \<open>
  No transaction of anybody else both leaves the lock with its owner and changes the CA's
  keys, index, serial or revocation list.
\<close>

lemma exec_lock_safe:
  assumes "db_exec opn d = Inr d'" and "schema_ok d" and "\<not> acts_as c p opn"
  shows "lock_safe c p d d'"
proof (cases opn)
  case (Insert_cert now meta secrets st q)
  let ?b = "m_ca_id meta"
  have "db_holds d ?b q" "\<not> (?b = c \<and> q = p)" and d': "d' = release_ca_lock ?b q
      (d\<lparr>cas := update_where (active_ca ?b) (ca_state_change st now) (cas d),
         certs := certs d @ [new_cert_row now 1 meta secrets]\<rparr>)"
    using assms(1,3) Insert_cert by (simp_all add: insert_cert_Inr)
  note signed = lock_safe_signed [OF assms(2) this(1,2), where g = "active_ca ?b"]
  show ?thesis
    unfolding d' by (rule signed) (auto simp: active_ca_def)
next
  case (Update_cert now b i pem p12 bun it vd st q)
  have "db_holds d b q" "\<not> (b = c \<and> q = p)" and d': "d' = release_ca_lock b q
      (d\<lparr>certs := update_where (renewable_cert b i) (renewed_cert pem p12 bun it vd now) (certs d),
         cas := update_where (active_ca b) (put_ca_state (fst st) (snd st) now) (cas d)\<rparr>)"
    using assms(1,3) Update_cert by (simp_all add: update_cert_Inr)
  note signed = lock_safe_signed [OF assms(2) this(1,2), where g = "active_ca b"]
  show ?thesis
    unfolding d' by (rule signed) (auto simp: active_ca_def)
next
  case (Revoke_cert now b i reason at st crl q)
  have "db_holds d b q" "\<not> (b = c \<and> q = p)" and d': "d' = release_ca_lock b q
      (d\<lparr>certs := update_where (active_cert b i) (revoked_cert reason at now) (certs d),
         cas := update_where (active_ca b) (\<lambda>r. put_ca_crl (fst crl) (snd crl) now
           (put_ca_state (fst st) (snd st) now r)) (cas d)\<rparr>)"
    using assms(1,3) Revoke_cert by (simp_all add: revoke_cert_Inr)
  note signed = lock_safe_signed [OF assms(2) this(1,2), where g = "active_ca b"]
  show ?thesis
    unfolding d' by (rule signed) (auto simp: active_ca_def)
next
  case (Renew_ca now b pem p12 it vd crl bundles q)
  with assms show ?thesis by (auto intro: lock_safe_renew)
next
  case (Acquire now b q ttl)
  with assms show ?thesis by (auto intro: lock_safe_acquire)
next
  case (Release b q)
  with assms show ?thesis
    by (auto simp: lock_safe_def ca_lease.release_holds secrets_of_def)
next
  case (Insert_ca now meta secrets)
  with assms show ?thesis by (auto intro: lock_safe_insert_ca)
next
  case (Restore_backup now s)
  with assms have "d' = restored_db now s" by (auto simp: restore_backup_Inr)
  then show ?thesis by (simp add: lock_safe_def db_holds_def restored_db_def)
next
  case Nuke
  with assms show ?thesis by (auto simp: lock_safe_def db_holds_def nuke_all_empty empty_db_def)
next
  case (Restore_cert now b i)
  with assms show ?thesis by (auto dest!: restore_cert_Inr_D intro: lock_safe_frame)
next
  case (Save_template t new)
  with assms show ?thesis
    by (auto simp: save_template_def Let_def insert_template_Inr update_template_Inr
        clear_displaced_frame intro!: lock_safe_frame split: if_splits)
next
  case (Restore_ca now i)
  with assms show ?thesis by (auto simp: restore_ca_Inr intro!: lock_safe_cas)
next
  case (Delete_ca now i)
  with assms show ?thesis by (auto simp: delete_ca_Inr intro!: lock_safe_cas)
next
  case (Update_ca_metadata now i kp g)
  with assms show ?thesis
    by (auto simp: update_ca_metadata_def car_id_def intro!: lock_safe_cas split: if_splits)
next
  case (Repair_ca meta)
  with assms show ?thesis
    by (auto simp: update_ca_meta_repaired_def car_id_def intro!: lock_safe_cas)
next
  case (Check_ca i)
  with assms show ?thesis by (auto simp: mark_ca_meta_checked_def intro!: lock_safe_cas)
next
  case (Set_truststore i cert ts)
  with assms show ?thesis by (auto simp: set_ca_truststore_def intro!: lock_safe_cas)
qed (use assms in \<open>auto simp: delete_cert_def insert_cert_restore_def res_simps insert_user_Inr
    db_delete_user_def db_delete_template_def update_cert_meta_repaired_def mark_cert_meta_checked_def
    intro!: lock_safe_frame split: if_splits\<close>)

text \<open>So nothing the owner read after taking the lock can be stale when it commits.\<close>

lemma run_lock_safe:
  assumes "schema_ok d" and "\<And>opn. opn \<in> set ops \<Longrightarrow> \<not> acts_as c p opn"
  shows "lock_safe c p d (db_run ops d)"
  using assms
proof (induction ops arbitrary: d)
  case Nil
  then show ?case by (simp add: lock_safe_def)
next
  case (Cons opn ops)
  have "lock_safe c p d (db_commit opn d) \<and> schema_ok (db_commit opn d)"
    using Cons.prems
    by (cases rule: db_commit_cases [of opn d])
      (auto simp: lock_safe_def [of c p d d] dest: exec_lock_safe db_exec_schema_ok)
  moreover from this have "lock_safe c p (db_commit opn d) (db_run ops (db_commit opn d))"
    using Cons.prems(2) by (intro Cons.IH) auto
  ultimately show ?case by (auto simp: lock_safe_def)
qed

lemma signs_needs_lock:
  "signs c p opn \<Longrightarrow> db_exec opn d = Inr d' \<Longrightarrow> db_holds d c p"
  by (cases opn)
    (auto simp: insert_cert_Inr update_cert_Inr revoke_cert_Inr renew_ca_Inr)

lemma signs_lost_lock:
  "signs c p opn \<Longrightarrow> \<not> db_holds d c p \<Longrightarrow> db_exec opn d = Inl (Bail ''lost CA signing lock'')"
  by (cases opn)
    (auto simp: insert_cert_with_state_def update_cert_with_state_def revoke_cert_with_state_def
      renew_ca_with_state_def verify_lock_Inl db_holds_def bind_res_eq_Inl)

text \<open>A transaction that ran under the lock gave it back.\<close>

lemma signs_releases:
  "signs c p opn \<Longrightarrow> db_exec opn d = Inr d' \<Longrightarrow> \<not> db_holds d' c p"
  by (cases opn)
    (auto simp: insert_cert_Inr update_cert_Inr revoke_cert_Inr renew_ca_Inr
      ca_lease.released_not_held)

lemma lock_not_regained:
  assumes "schema_ok d" and "\<not> db_holds d c p" and "\<And>opn. opn \<in> set ops \<Longrightarrow> \<not> acts_as c p opn"
  shows "\<not> db_holds (db_run ops d) c p"
  using run_lock_safe [OF assms(1,3)] assms(2) by (auto simp: lock_safe_def)

section \<open>What rows never lose\<close>

lemma update_where_related:
  assumes "r \<in> set t" and "\<And>r. R r r" and "\<And>r. p r \<Longrightarrow> R r (f r)"
  shows "\<exists>r' \<in> set (update_where p f t). R r r'"
proof
  show "R r (if p r then f r else r)" using assms(2,3) by simp
  show "(if p r then f r else r) \<in> set (update_where p f t)"
    using assms(1) by (auto simp: table_simps)
qed

text \<open>
  How one transaction may change a certificate: its id, CA, key and request never change,
  and a revoked certificate stays revoked and keeps its certificate and validity.
\<close>

definition cert_evolves :: "cert_row \<Rightarrow> cert_row \<Rightarrow> bool" where
  "cert_evolves r r' \<longleftrightarrow>
     cer_id r' = cer_id r \<and> cer_ca_id r' = cer_ca_id r \<and>
     k_key_pem (cer_secrets r') = k_key_pem (cer_secrets r) \<and>
     k_csr_pem (cer_secrets r') = k_csr_pem (cer_secrets r) \<and>
     (cer_revoked_at r \<noteq> None \<longrightarrow>
        cer_revoked_at r' \<noteq> None \<and> k_cert_pem (cer_secrets r') = k_cert_pem (cer_secrets r) \<and>
        m_issue_time (cer_meta r') = m_issue_time (cer_meta r) \<and>
        m_valid_days (cer_meta r') = m_valid_days (cer_meta r))"

text \<open>A CA keeps its id, name and key.\<close>

definition ca_evolves :: "ca_row \<Rightarrow> ca_row \<Rightarrow> bool" where
  "ca_evolves r r' \<longleftrightarrow>
     car_id r' = car_id r \<and> m_common_name (car_meta r') = m_common_name (car_meta r) \<and>
     s_key_pem (car_secrets r') = s_key_pem (car_secrets r) \<and>
     s_password (car_secrets r') = s_password (car_secrets r)"

lemma cert_evolves_refl [simp]: "cert_evolves r r"
  by (simp add: cert_evolves_def)

lemma cert_evolves_trans: "cert_evolves a b \<Longrightarrow> cert_evolves b c \<Longrightarrow> cert_evolves a c"
  by (auto simp: cert_evolves_def)

lemma ca_evolves_refl [simp]: "ca_evolves r r"
  by (simp add: ca_evolves_def)

lemma ca_evolves_trans: "ca_evolves a b \<Longrightarrow> ca_evolves b c \<Longrightarrow> ca_evolves a c"
  by (auto simp: ca_evolves_def)

lemma cert_evolves_set [simp]:
  "cert_evolves r (r\<lparr>cer_deleted := b\<rparr>)" "cert_evolves r (r\<lparr>cer_updated_at := n\<rparr>)"
  "cert_evolves r (r\<lparr>cer_meta_version := n\<rparr>)"
  "cert_evolves r (r\<lparr>cer_deleted := b, cer_updated_at := n\<rparr>)"
  "cert_evolves r (revoked_cert reason at now r)"
  "cert_evolves r (r\<lparr>cer_secrets := (cer_secrets r)\<lparr>k_bundle_zip := z\<rparr>, cer_updated_at := n\<rparr>)"
  by (simp_all add: cert_evolves_def revoked_cert_def cer_id_def)

lemma cert_evolves_renewed:
  "renewable_cert c i r \<Longrightarrow> cert_evolves r (renewed_cert pem p12 bun it vd now r)"
  by (simp add: cert_evolves_def renewed_cert_def renewable_cert_def cer_id_def)

text \<open>The rows of one table are carried over, each possibly changed.\<close>

definition certs_kept :: "db \<Rightarrow> db \<Rightarrow> bool" where
  "certs_kept d d' \<longleftrightarrow> (\<forall>r \<in> set (certs d). \<exists>r' \<in> set (certs d'). cert_evolves r r')"

lemma certs_kept_refl: "certs d' = certs d \<Longrightarrow> certs_kept d d'"
  unfolding certs_kept_def by (metis cert_evolves_refl)

lemma certs_kept_trans: "certs_kept a b \<Longrightarrow> certs_kept b c \<Longrightarrow> certs_kept a c"
  unfolding certs_kept_def by (meson cert_evolves_trans)

lemma certs_kept_update:
  assumes "certs d' = update_where p f (certs d) @ extra" and "\<And>r. p r \<Longrightarrow> cert_evolves r (f r)"
  shows "certs_kept d d'"
  unfolding certs_kept_def
proof
  fix r assume "r \<in> set (certs d)"
  then have "\<exists>r' \<in> set (update_where p f (certs d)). cert_evolves r r'"
    using assms(2) by (intro update_where_related) auto
  then show "\<exists>r' \<in> set (certs d'). cert_evolves r r'" by (auto simp: assms(1))
qed

lemma put_bundles_related:
  "r \<in> set t \<Longrightarrow> \<exists>r' \<in> set (fold (put_bundle now c) bs t). cert_evolves r r'"
proof (induction bs arbitrary: r t)
  case Nil
  then show ?case by (auto intro: cert_evolves_refl)
next
  case (Cons b bs)
  have "\<exists>r1 \<in> set (put_bundle now c b t). cert_evolves r r1"
    unfolding put_bundle_def using Cons.prems by (intro update_where_related) auto
  then obtain r1 where r1: "r1 \<in> set (put_bundle now c b t)" "cert_evolves r r1" by blast
  from Cons.IH [OF r1(1)] r1(2) show ?case by (auto intro: cert_evolves_trans)
qed

lemma certs_kept_append: "certs d' = certs d @ extra \<Longrightarrow> certs_kept d d'"
  unfolding certs_kept_def by (metis UnI1 cert_evolves_refl set_append)

lemma exec_certs_kept:
  assumes "db_exec opn d = Inr d'" and "schema_ok d" and "opn \<noteq> Nuke"
  shows "certs_kept d d'"
proof (cases opn)
  case (Update_cert now c i pem p12 bun it vd st p)
  with assms show ?thesis
    by (intro certs_kept_update [where extra = "[]" and p = "renewable_cert c i" and
          f = "renewed_cert pem p12 bun it vd now"])
      (auto simp: update_cert_Inr intro: cert_evolves_renewed)
next
  case (Revoke_cert now c i reason at st crl p)
  with assms show ?thesis
    by (intro certs_kept_update [where extra = "[]" and p = "active_cert c i" and
          f = "revoked_cert reason at now"])
      (auto simp: revoke_cert_Inr)
next
  case (Renew_ca now c pem p12 it vd crl bundles p)
  with assms show ?thesis
    by (auto simp: renew_ca_Inr certs_kept_def intro: put_bundles_related)
next
  case (Delete_cert now c i)
  with assms show ?thesis
    by (intro certs_kept_update [where extra = "[]" and p = "active_cert c i" and
          f = "\<lambda>r. r\<lparr>cer_deleted := True, cer_updated_at := now\<rparr>"])
      (auto simp: delete_cert_def split: if_splits)
next
  case (Restore_cert now c i)
  with assms show ?thesis
    by (intro certs_kept_update [where extra = "[]" and p = "trashed_cert c i" and
          f = "\<lambda>r. r\<lparr>cer_deleted := False, cer_updated_at := now\<rparr>"])
      (auto dest!: restore_cert_Inr_D)
next
  case (Repair_cert meta)
  with assms show ?thesis
    unfolding certs_kept_def
    by (auto simp: update_cert_meta_repaired_def cert_evolves_def cer_id_def
        intro!: update_where_related)
next
  case (Check_cert i)
  with assms show ?thesis
    unfolding certs_kept_def
    by (auto simp: mark_cert_meta_checked_def intro!: update_where_related)
next
  case (Insert_cert now meta secrets st p)
  with assms show ?thesis by (auto simp: insert_cert_Inr intro: certs_kept_append)
next
  case (Insert_cert_restore now meta secrets)
  with assms show ?thesis
    by (auto simp: insert_cert_restore_def res_simps intro: certs_kept_append)
next
  case (Restore_backup now s)
  with assms show ?thesis by (auto simp: restore_backup_Inr certs_kept_def empty_db_def)
next
  case (Save_template t new)
  with assms show ?thesis
    by (auto simp: save_template_def Let_def insert_template_Inr update_template_Inr
        clear_displaced_frame intro!: certs_kept_refl split: if_splits)
next
  case (Acquire now c p ttl)
  then have "acquire_ca_lock now c p ttl d = Inr d'" using assms(1) by simp
  then obtain ls where "d' = d\<lparr>ca_locks := ls\<rparr>" unfolding acquire_Inr by blast
  then show ?thesis by (simp add: certs_kept_refl)
qed (use assms in \<open>auto simp: insert_ca_Inr update_ca_metadata_def update_ca_meta_repaired_def
    mark_ca_meta_checked_def delete_ca_Inr restore_ca_Inr set_ca_truststore_def insert_user_Inr
    db_delete_user_def db_delete_template_def intro!: certs_kept_refl split: if_splits\<close>)

lemma run_certs_kept:
  assumes "schema_ok d" and "Nuke \<notin> set ops"
  shows "certs_kept d (db_run ops d)"
proof -
  have "schema_ok (db_run ops d) \<and> certs_kept d (db_run ops d)"
    by (rule db_run_invariant)
      (use assms in \<open>auto intro: certs_kept_refl certs_kept_trans exec_certs_kept db_exec_schema_ok\<close>)
  then show ?thesis ..
qed

section \<open>CA rows and the stored truststore\<close>

text \<open>
  How one transaction may change a CA row. Its truststore is dropped, or kept with the
  certificate it was built from, or set by a client that built it from the certificate
  the row has.
\<close>

fun sets_truststore :: "db_op \<Rightarrow> string \<Rightarrow> string \<Rightarrow> bool" where
  "sets_truststore (Set_truststore i cert ts) cert' ts' \<longleftrightarrow> cert = cert' \<and> ts = ts'"
| "sets_truststore _ _ _ \<longleftrightarrow> False"

definition ca_change :: "db_op \<Rightarrow> ca_row \<Rightarrow> ca_row \<Rightarrow> bool" where
  "ca_change opn r r' \<longleftrightarrow> ca_evolves r r' \<and>
     (car_truststore r' = [] \<or>
      s_cert_pem (car_secrets r') = s_cert_pem (car_secrets r) \<and>
        (car_truststore r' = car_truststore r \<or>
         sets_truststore opn (s_cert_pem (car_secrets r')) (car_truststore r')))"

definition cas_effect :: "db_op \<Rightarrow> db \<Rightarrow> db \<Rightarrow> bool" where
  "cas_effect opn d d' \<longleftrightarrow>
     (\<exists>f extra. cas d' = map f (cas d) @ extra \<and> (\<forall>r. ca_change opn r (f r)) \<and>
        (\<forall>r \<in> set extra. car_truststore r = []))"

lemma ca_change_refl [simp]: "ca_change opn r r"
  by (simp add: ca_change_def)

lemma cas_effect_same: "cas d' = cas d \<Longrightarrow> cas_effect opn d d'"
  unfolding cas_effect_def by (rule exI [of _ "\<lambda>r. r"], rule exI [of _ "[]"]) simp

lemma cas_effect_update:
  assumes "cas d' = update_where p f (cas d)" and "\<And>r. p r \<Longrightarrow> ca_change opn r (f r)"
  shows "cas_effect opn d d'"
  unfolding cas_effect_def
  by (rule exI [of _ "\<lambda>r. if p r then f r else r"], rule exI [of _ "[]"])
    (simp add: assms update_where_def)

lemma cas_effect_append:
  "cas d' = cas d @ extra \<Longrightarrow> \<forall>r \<in> set extra. car_truststore r = [] \<Longrightarrow> cas_effect opn d d'"
  unfolding cas_effect_def by (rule exI [of _ "\<lambda>r. r"], rule exI [of _ extra]) simp

lemma ca_change_simps [simp]:
  "ca_change opn r (put_ca_state a b n r)"
  "ca_change opn r (put_ca_crl a b n r)"
  "ca_change opn r (put_ca_crl x y m (put_ca_state a b n r))"
  "ca_change opn r (ca_state_change st n r)"
  "ca_change opn r (renewed_ca pem p12 it vd n r)"
  "ca_change opn r (put_ca_crl x y m (renewed_ca pem p12 it vd n r))"
  "ca_change opn r (r\<lparr>car_deleted := b', car_updated_at := n\<rparr>)"
  "ca_change opn r (r\<lparr>car_meta_version := n\<rparr>)"
  by (auto simp: ca_change_def ca_evolves_def put_ca_state_def put_ca_crl_def ca_state_change_def
      renewed_ca_def car_id_def split: option.splits)

lemma exec_cas_effect:
  assumes "db_exec opn d = Inr d'" and "schema_ok d" and "opn \<noteq> Nuke"
  shows "cas_effect opn d d'"
proof (cases opn)
  case (Insert_ca now meta secrets)
  with assms show ?thesis by (auto simp: insert_ca_Inr intro: cas_effect_append)
next
  case (Update_ca_metadata now i kp g)
  with assms show ?thesis
    by (intro cas_effect_update [where p = "active_ca i" and
          f = "\<lambda>r. r\<lparr>car_meta := (car_meta r)\<lparr>m_key_profile := kp, m_digest_algorithm := g\<rparr>,
                   car_updated_at := now\<rparr>"])
      (auto simp: update_ca_metadata_def ca_change_def ca_evolves_def car_id_def split: if_splits)
next
  case (Repair_ca meta)
  with assms show ?thesis
    by (auto simp: update_ca_meta_repaired_def ca_change_def ca_evolves_def car_id_def
        intro!: cas_effect_update)
next
  case (Check_ca i)
  with assms show ?thesis
    by (auto simp: mark_ca_meta_checked_def intro!: cas_effect_update)
next
  case (Delete_ca now i)
  with assms show ?thesis by (auto simp: delete_ca_Inr intro!: cas_effect_update)
next
  case (Restore_ca now i)
  with assms show ?thesis by (auto simp: restore_ca_Inr intro!: cas_effect_update)
next
  case (Set_truststore i cert ts)
  with assms show ?thesis
    by (auto simp: set_ca_truststore_def truststore_target_def ca_change_def ca_evolves_def
        intro!: cas_effect_update)
next
  case (Insert_cert now meta secrets st p)
  with assms show ?thesis
    by (intro cas_effect_update [where p = "active_ca (m_ca_id meta)" and f = "ca_state_change st now"])
      (auto simp: insert_cert_Inr)
next
  case (Update_cert now c i pem p12 bun it vd st p)
  with assms show ?thesis
    by (intro cas_effect_update [where p = "active_ca c" and f = "put_ca_state (fst st) (snd st) now"])
      (auto simp: update_cert_Inr)
next
  case (Revoke_cert now c i reason at st crl p)
  with assms show ?thesis
    by (intro cas_effect_update [where p = "active_ca c" and
          f = "\<lambda>r. put_ca_crl (fst crl) (snd crl) now (put_ca_state (fst st) (snd st) now r)"])
      (auto simp: revoke_cert_Inr)
next
  case (Renew_ca now c pem p12 it vd crl bundles p)
  with assms have "cas d' = crl_change c crl now
      (update_where (active_ca c) (renewed_ca pem p12 it vd now) (cas d))"
    by (auto simp: renew_ca_Inr)
  then show ?thesis
    unfolding crl_change_as_update update_twice
    by (rule cas_effect_update) (auto simp: Let_def split: option.splits)
next
  case (Restore_backup now s)
  with assms have "cas d = []" "d' = restored_db now s"
    by (auto simp: restore_backup_Inr empty_db_def)
  then show ?thesis
    by (intro cas_effect_append [where extra = "cas d'"])
      (auto simp: restored_db_def restored_ca_def Let_def split_def)
next
  case (Restore_cert now c i)
  with assms show ?thesis by (auto dest!: restore_cert_Inr_D intro: cas_effect_same)
next
  case (Save_template t new)
  with assms show ?thesis
    by (auto simp: save_template_def Let_def insert_template_Inr update_template_Inr
        clear_displaced_frame intro!: cas_effect_same split: if_splits)
next
  case (Acquire now c p ttl)
  then have "acquire_ca_lock now c p ttl d = Inr d'" using assms(1) by simp
  then obtain ls where "d' = d\<lparr>ca_locks := ls\<rparr>" unfolding acquire_Inr by blast
  then show ?thesis by (simp add: cas_effect_same)
qed (use assms in \<open>auto simp: delete_cert_def insert_cert_restore_def res_simps insert_user_Inr
    db_delete_user_def db_delete_template_def update_cert_meta_repaired_def mark_cert_meta_checked_def
    intro!: cas_effect_same split: if_splits\<close>)

text \<open>\<open>built c t\<close>: the client can get truststore \<open>t\<close> from certificate \<open>c\<close>.\<close>

definition truststores_ok :: "(string \<Rightarrow> string \<Rightarrow> bool) \<Rightarrow> db \<Rightarrow> bool" where
  "truststores_ok built d \<longleftrightarrow>
     (\<forall>r \<in> set (cas d). car_truststore r = [] \<or> built (s_cert_pem (car_secrets r)) (car_truststore r))"

lemma exec_truststores_ok:
  assumes "db_exec opn d = Inr d'" and "schema_ok d" and "truststores_ok built d"
    and "\<And>c t. sets_truststore opn c t \<Longrightarrow> built c t"
  shows "truststores_ok built d'"
proof (cases "opn = Nuke")
  case True
  with assms(1) show ?thesis by (auto simp: nuke_all_empty empty_db_def truststores_ok_def)
next
  case False
  with exec_cas_effect [OF assms(1,2)] obtain f extra where
    e: "cas d' = map f (cas d) @ extra" "\<And>r. ca_change opn r (f r)"
      "\<And>r. r \<in> set extra \<Longrightarrow> car_truststore r = []"
    by (auto simp: cas_effect_def)
  show ?thesis
    unfolding truststores_ok_def
  proof
    fix r' assume "r' \<in> set (cas d')"
    then consider r where "r \<in> set (cas d)" "r' = f r" | "r' \<in> set extra" by (auto simp: e(1))
    then show "car_truststore r' = [] \<or> built (s_cert_pem (car_secrets r')) (car_truststore r')"
    proof cases
      case (1 r)
      from e(2) [of r] have "ca_change opn r r'" by (simp add: 1(2))
      moreover have "car_truststore r = [] \<or> built (s_cert_pem (car_secrets r)) (car_truststore r)"
        using assms(3) 1(1) by (simp add: truststores_ok_def)
      ultimately show ?thesis unfolding ca_change_def using assms(4) by metis
    qed (use e(3) in simp)
  qed
qed

definition cas_kept :: "db \<Rightarrow> db \<Rightarrow> bool" where
  "cas_kept d d' \<longleftrightarrow> (\<forall>r \<in> set (cas d). \<exists>r' \<in> set (cas d'). ca_evolves r r')"

lemma cas_effect_kept: "cas_effect opn d d' \<Longrightarrow> cas_kept d d'"
  unfolding cas_effect_def cas_kept_def ca_change_def by fastforce

lemma run_cas_kept:
  assumes "schema_ok d" and "Nuke \<notin> set ops"
  shows "cas_kept d (db_run ops d)"
proof -
  have refl: "cas_kept d d" unfolding cas_kept_def by (metis ca_evolves_refl)
  have trans: "cas_kept a b \<Longrightarrow> cas_kept b c \<Longrightarrow> cas_kept a c" for a b c
    unfolding cas_kept_def by (meson ca_evolves_trans)
  have "schema_ok (db_run ops d) \<and> cas_kept d (db_run ops d)"
    by (rule db_run_invariant)
      (use assms refl in \<open>auto intro: trans exec_cas_effect cas_effect_kept db_exec_schema_ok\<close>)
  then show ?thesis ..
qed

section \<open>One default per form, whatever the history\<close>

lemma default_count_cong: "templates d' = templates d \<Longrightarrow> default_count kind d' = default_count kind d"
  by (simp add: default_count_def)

lemma exec_default_count:
  assumes "db_exec opn d = Inr d'" and "schema_ok d" and "kind \<in> {Ca, Certificate}"
    and "default_count kind d \<le> 1" and "\<And>now s. opn \<noteq> Restore_backup now s"
  shows "default_count kind d' \<le> 1"
proof (cases opn)
  case (Restore_backup now s)
  with assms(5) show ?thesis by blast
next
  case (Save_template t new)
  then have "save_template t new d = Inr d'" using assms(1) by simp
  with assms(2-4) show ?thesis by (blast intro: save_template_default_count)
next
  case (Delete_template i)
  then have "db_delete_template i d = Inr d'" using assms(1) by simp
  with assms(2,4) show ?thesis using delete_template_ok(2) le_trans by blast
next
  case Nuke
  with assms show ?thesis
    by (auto simp: nuke_all_empty empty_db_def default_count_def count_where_def)
next
  case (Acquire now c p ttl)
  then have "acquire_ca_lock now c p ttl d = Inr d'" using assms(1) by simp
  then obtain ls where "d' = d\<lparr>ca_locks := ls\<rparr>" unfolding acquire_Inr by blast
  then show ?thesis using assms(4) by (simp add: default_count_def)
next
  case (Restore_cert now c i)
  with assms show ?thesis by (auto dest!: restore_cert_Inr_D simp: default_count_def)
qed (use assms in \<open>auto simp: insert_ca_Inr update_ca_metadata_def update_ca_meta_repaired_def
    mark_ca_meta_checked_def delete_ca_Inr restore_ca_Inr set_ca_truststore_def insert_user_Inr
    delete_cert_def insert_cert_restore_def res_simps update_cert_meta_repaired_def
    mark_cert_meta_checked_def insert_cert_Inr update_cert_Inr revoke_cert_Inr renew_ca_Inr
    db_delete_user_def default_count_def split: if_splits\<close>)

lemma run_default_count:
  assumes "schema_ok d" and "kind \<in> {Ca, Certificate}" and "default_count kind d \<le> 1"
    and "\<forall>now s. Restore_backup now s \<notin> set ops"
  shows "default_count kind (db_run ops d) \<le> 1"
proof -
  have "schema_ok (db_run ops d) \<and> default_count kind (db_run ops d) \<le> 1"
  proof (rule db_run_invariant)
    fix opn s s'
    assume "opn \<in> set ops" "schema_ok s \<and> default_count kind s \<le> 1" "db_exec opn s = Inr s'"
    then show "schema_ok s' \<and> default_count kind s' \<le> 1"
      using assms(2,4) exec_default_count [of opn s s' kind] db_exec_schema_ok by blast
  qed (use assms in blast)
  then show ?thesis ..
qed

end
