(* ===== verification/Subject.thy ===== *)
theory Subject
  imports Models
begin

text \<open>
  Distinguished names: reading openssl's renderings (\<open>split_unescaped\<close>,
  \<open>unescape_dn_value\<close>, \<open>subject_attributes\<close>, \<open>DerivedSubject::from_rfc2253\<close> and
  \<open>slash_subject\<close> of \<open>src/src/service.rs\<close>) and writing \<open>-subj\<close> arguments and
  configuration values (\<open>escape_subject\<close>, \<open>create_subject\<close>, \<open>conf_escape\<close> of
  \<open>src/src/openssl.rs\<close>). The locale \<open>escaper\<close> holds what the two escaping loops share.
\<close>

section \<open>Reading\<close>

definition BS :: char where "BS = CHR 0x5C"

text \<open>The loop of \<open>split_unescaped\<close>, with its locals \<open>current\<close> and \<open>escaped\<close>.\<close>

fun split_unescaped_loop :: "(char \<Rightarrow> bool) \<Rightarrow> string \<Rightarrow> string \<Rightarrow> bool \<Rightarrow> string list" where
  "split_unescaped_loop p [] cur esc = [if esc then cur @ [BS] else cur]"
| "split_unescaped_loop p (c # cs) cur esc =
     (if esc then split_unescaped_loop p cs (cur @ [BS, c]) False
      else if c = BS then split_unescaped_loop p cs cur True
      else if p c then cur # split_unescaped_loop p cs [] False
      else split_unescaped_loop p cs (cur @ [c]) False)"

definition split_unescaped :: "(char \<Rightarrow> bool) \<Rightarrow> string \<Rightarrow> string list" where
  "split_unescaped p s = split_unescaped_loop p s [] False"

definition hex_digit :: "char \<Rightarrow> nat option" where
  "hex_digit c =
     (if is_ascii_digit c then Some (byte c - 48)
      else if 97 \<le> byte c \<and> byte c \<le> 102 then Some (byte c - 87)
      else if 65 \<le> byte c \<and> byte c \<le> 70 then Some (byte c - 55)
      else None)"

text \<open>
  \<open>u8::from_str_radix(pair, 16)\<close> on two bytes. The standard library accepts a leading
  \<open>+\<close>, so one digit can also be written \<open>+d\<close>.
\<close>

definition radix16_pair :: "char \<Rightarrow> char \<Rightarrow> nat option" where
  "radix16_pair a b =
     (case hex_digit b of
        None \<Rightarrow> None
      | Some lo \<Rightarrow>
          if a = CHR ''+'' then Some lo
          else map_option (\<lambda>hi. 16 * hi + lo) (hex_digit a))"

fun unescape_bytes :: "string \<Rightarrow> string" where
  "unescape_bytes [] = []"
| "unescape_bytes [c] = [c]"
| "unescape_bytes [c, d] = (if c = BS then [d] else [c] @ unescape_bytes [d])"
| "unescape_bytes (c # d # e # s) =
     (if c = BS
      then (case radix16_pair d e of
              Some b \<Rightarrow> char_of b # unescape_bytes s
            | None \<Rightarrow> d # unescape_bytes (e # s))
      else c # unescape_bytes (d # e # s))"

definition unescape_dn_value :: "string \<Rightarrow> string" where
  "unescape_dn_value v = from_utf8_lossy (unescape_bytes v)"

definition attribute_of :: "string \<Rightarrow> (string \<times> string) option" where
  "attribute_of part =
     (let pieces = split_unescaped (\<lambda>c. c = CHR ''='') part; key = trim (hd pieces)
      in if key = [] then None
         else Some (key, unescape_dn_value (trim (join ''='' (tl pieces)))))"

definition subject_attributes :: "string \<Rightarrow> (string \<times> string) list" where
  "subject_attributes s =
     List.map_filter attribute_of
       (split_unescaped (\<lambda>c. c = CHR '','' \<or> c = CHR ''+'') s)"

section \<open>Writing\<close>

definition subject_special :: "char \<Rightarrow> bool" where
  "subject_special c \<longleftrightarrow> c = BS \<or> c = CHR ''/'' \<or> c = CHR ''+'' \<or> c = CHR ''=''"

fun escape_subject :: "string \<Rightarrow> string" where
  "escape_subject [] = []"
| "escape_subject (c # s) =
     (if subject_special c then BS # c # escape_subject s else c # escape_subject s)"

definition conf_special :: "char \<Rightarrow> bool" where
  "conf_special c \<longleftrightarrow>
     c = BS \<or> c = CHR ''$'' \<or> c = CHR ''#'' \<or> c = CHR 0x22 \<or> c = CHR 0x27"

fun conf_escape :: "string \<Rightarrow> string" where
  "conf_escape [] = []"
| "conf_escape (c # s) =
     (if conf_special c then BS # c # conf_escape s else c # conf_escape s)"

definition slash_attribute :: "string \<times> string \<Rightarrow> string" where
  "slash_attribute p = ''/'' @ fst p @ ''='' @ escape_subject (snd p)"

definition slash_subject :: "(string \<times> string) list \<Rightarrow> string option" where
  "slash_subject attrs = (if attrs = [] then None else Some (concat (map slash_attribute attrs)))"

definition first_control :: "(string \<times> string) list \<Rightarrow> string option" where
  "first_control vs = map_option fst (find (\<lambda>p. has_control (snd p)) vs)"

definition create_subject ::
  "string \<Rightarrow> string \<Rightarrow> string \<Rightarrow> string \<Rightarrow> string \<Rightarrow> string \<Rightarrow> string result"
where
  "create_subject common_name country_code organization state city organization_unit =
     (if trim common_name = [] then Inl (Bail ''common name is required'')
      else if trim country_code = [] then Inl (Bail ''country code is required'')
      else if trim organization = [] then Inl (Bail ''organization is required'')
      else case first_control [(''common name'', common_name), (''country code'', country_code),
               (''organization'', organization), (''state'', state), (''city'', city),
               (''organization unit'', organization_unit)] of
        Some label \<Rightarrow> Inl (Bail (label @ '' must not contain control characters or newlines''))
      | None \<Rightarrow> Inr (
          ''/C='' @ escape_subject country_code @
          (if trim state \<noteq> [] then ''/ST='' @ escape_subject state else []) @
          (if trim city \<noteq> [] then ''/L='' @ escape_subject city else []) @
          ''/O='' @ escape_subject organization @
          (if trim organization_unit \<noteq> [] then ''/OU='' @ escape_subject organization_unit else []) @
          ''/CN='' @ escape_subject common_name))"

record derived_subject =
  ds_subject :: string
  ds_common_name :: "string option"
  ds_country_code :: string
  ds_state :: string
  ds_city :: string
  ds_organization :: string
  ds_organization_unit :: string

definition first_attribute :: "(string \<times> string) list \<Rightarrow> string \<Rightarrow> string option" where
  "first_attribute attrs key = map_option snd (find (\<lambda>p. fst p = key) attrs)"

definition or_default :: "string option \<Rightarrow> string" where
  "or_default v = (case v of None \<Rightarrow> [] | Some s \<Rightarrow> s)"

definition from_rfc2253 :: "string \<Rightarrow> derived_subject" where
  "from_rfc2253 text =
     (let attrs = subject_attributes text; first = first_attribute attrs
      in \<lparr>ds_subject = or_default (slash_subject attrs),
          ds_common_name = (case first ''CN'' of
             None \<Rightarrow> None | Some v \<Rightarrow> if trim v = [] then None else Some v),
          ds_country_code = or_default (first ''C''), ds_state = or_default (first ''ST''),
          ds_city = or_default (first ''L''), ds_organization = or_default (first ''O''),
          ds_organization_unit = or_default (first ''OU'')\<rparr>)"

definition has_fabricated_subject :: "string \<Rightarrow> string \<Rightarrow> bool" where
  "has_fabricated_subject country_code organization \<longleftrightarrow>
     country_code = ''XX'' \<or> organization = ''Imported''"

definition apply_derived_subject :: "derived_subject \<Rightarrow> 'a subject_meta_scheme \<Rightarrow> 'a subject_meta_scheme"
where
  "apply_derived_subject ds meta =
     (if ds_subject ds = [] then meta
      else meta\<lparr>m_country_code := ds_country_code ds, m_state := ds_state ds, m_city := ds_city ds,
        m_organization := ds_organization ds, m_organization_unit := ds_organization_unit ds,
        m_subject := ds_subject ds\<rparr>)"

section \<open>What the splitting loop does\<close>

lemma split_loop_cur:
  "split_unescaped_loop p s (a @ b) esc =
     (a @ hd (split_unescaped_loop p s b esc)) # tl (split_unescaped_loop p s b esc)"
  by (induction p s b esc rule: split_unescaped_loop.induct) auto

lemma split_unescaped_Nil [simp]: "split_unescaped p [] = [[]]"
  by (simp add: split_unescaped_def)

lemma split_unescaped_not_Nil [simp]: "split_unescaped p s \<noteq> []"
proof -
  have "split_unescaped_loop p s cur esc \<noteq> []" for cur esc
    by (induction p s cur esc rule: split_unescaped_loop.induct) auto
  then show ?thesis by (simp add: split_unescaped_def)
qed

lemma split_unescaped_sep: "c \<noteq> BS \<Longrightarrow> p c \<Longrightarrow> split_unescaped p (c # s) = [] # split_unescaped p s"
  by (simp add: split_unescaped_def)

lemma split_unescaped_char:
  "c \<noteq> BS \<Longrightarrow> \<not> p c \<Longrightarrow>
   split_unescaped p (c # s) = (c # hd (split_unescaped p s)) # tl (split_unescaped p s)"
  using split_loop_cur [of p s "[c]" "[]" False] by (simp add: split_unescaped_def)

lemma split_unescaped_esc:
  "split_unescaped p (BS # c # s) = (BS # c # hd (split_unescaped p s)) # tl (split_unescaped p s)"
  using split_loop_cur [of p s "[BS, c]" "[]" False] by (simp add: split_unescaped_def)

section \<open>The two escaping loops\<close>

text \<open>
  The contract: each special character gets one backslash, nothing else changes. Then
  the result determines the input, and no special character of it is unescaped, so
  splitting at such characters cuts no value.
\<close>

locale escaper =
  fixes special :: "char \<Rightarrow> bool" and esc :: "string \<Rightarrow> string"
  assumes esc_Nil: "esc [] = []"
    and esc_special: "special c \<Longrightarrow> esc (c # s) = BS # c # esc s"
    and esc_plain: "\<not> special c \<Longrightarrow> esc (c # s) = c # esc s"
    and special_BS: "special BS"
begin

lemma esc_append: "esc (a @ b) = esc a @ esc b"
proof (induction a)
  case Nil
  then show ?case by (simp add: esc_Nil)
next
  case (Cons c a)
  then show ?case by (cases "special c") (simp_all add: esc_special esc_plain)
qed

lemma esc_inj: "esc a = esc b \<Longrightarrow> a = b"
proof (induction a arbitrary: b)
  case Nil
  then show ?case
    by (cases b; cases "special (hd b)") (simp_all add: esc_Nil esc_special esc_plain)
next
  case (Cons c a)
  show ?case
  proof (cases b)
    case Nil
    with Cons.prems show ?thesis
      by (cases "special c") (simp_all add: esc_Nil esc_special esc_plain)
  next
    case (Cons d b')
    with Cons.prems Cons.IH special_BS show ?thesis
      by (cases "special c"; cases "special d") (auto simp: esc_special esc_plain)
  qed
qed

lemma set_esc: "set (esc a) \<subseteq> insert BS (set a)"
proof (induction a)
  case Nil
  then show ?case by (simp add: esc_Nil)
next
  case (Cons c a)
  then show ?case by (cases "special c") (auto simp: esc_special esc_plain)
qed

lemma length_esc: "length a \<le> length (esc a) \<and> length (esc a) \<le> 2 * length a"
proof (induction a)
  case Nil
  then show ?case by (simp add: esc_Nil)
next
  case (Cons c a)
  then show ?case by (cases "special c") (auto simp: esc_special esc_plain)
qed

lemma split_esc:
  assumes "\<And>c. p c \<Longrightarrow> special c"
  shows "split_unescaped p (esc a @ s) =
    (esc a @ hd (split_unescaped p s)) # tl (split_unescaped p s)"
proof (induction a)
  case Nil
  then show ?case by (simp add: esc_Nil)
next
  case (Cons c a)
  show ?case
  proof (cases "special c")
    case True
    then show ?thesis by (simp add: esc_special split_unescaped_esc Cons.IH)
  next
    case False
    then have "c \<noteq> BS" "\<not> p c" using special_BS assms by auto
    then show ?thesis using False by (simp add: esc_plain split_unescaped_char Cons.IH)
  qed
qed

lemma split_esc_only: "(\<And>c. p c \<Longrightarrow> special c) \<Longrightarrow> split_unescaped p (esc a) = [esc a]"
  using split_esc [of p a "[]"] by simp

end

interpretation subj: escaper subject_special escape_subject
  by unfold_locales (simp_all add: subject_special_def)

interpretation conf: escaper conf_special conf_escape
  by unfold_locales (simp_all add: conf_special_def)

section \<open>Subject strings\<close>

text \<open>A key with no character that \<open>-subj\<close> treats specially.\<close>

definition plain_key :: "string \<Rightarrow> bool" where
  "plain_key k \<longleftrightarrow> list_all (\<lambda>c. \<not> subject_special c) k"

lemma escape_plain_key: "plain_key k \<Longrightarrow> escape_subject k = k"
  by (induction k) (auto simp: plain_key_def)

definition attribute_text :: "string \<times> string \<Rightarrow> string" where
  "attribute_text p = fst p @ ''='' @ escape_subject (snd p)"

lemma split_slash_subject:
  assumes "\<forall>p \<in> set attrs. plain_key (fst p)"
  shows "split_unescaped (\<lambda>c. c = CHR ''/'') (concat (map slash_attribute attrs)) =
    [] # map attribute_text attrs"
  using assms
proof (induction attrs)
  case Nil
  then show ?case by simp
next
  case (Cons p attrs)
  let ?sl = "\<lambda>c. c = CHR ''/''"
  let ?rest = "concat (map slash_attribute attrs)"
  have spec: "\<And>c. ?sl c \<Longrightarrow> subject_special c" by (simp add: subject_special_def)
  have k: "escape_subject (fst p) = fst p" using Cons.prems by (simp add: escape_plain_key)
  have "split_unescaped ?sl (escape_subject (fst p) @ ''='' @ escape_subject (snd p) @ ?rest) =
      (escape_subject (fst p) @ ''='' @ escape_subject (snd p)) # map attribute_text attrs"
    using Cons by (simp add: subj.split_esc spec split_unescaped_char BS_def)
  then show ?case
    by (simp add: k slash_attribute_def [of p] attribute_text_def [of p] split_unescaped_sep BS_def)
qed

lemma split_attribute_text:
  assumes "plain_key (fst p)"
  shows "split_unescaped (\<lambda>c. c = CHR ''='') (attribute_text p) = [fst p, escape_subject (snd p)]"
proof -
  have spec: "\<And>c. c = CHR ''='' \<Longrightarrow> subject_special c" by (simp add: subject_special_def)
  have "split_unescaped (\<lambda>c. c = CHR ''='') (escape_subject (fst p) @ ''='' @ escape_subject (snd p)) =
      [escape_subject (fst p), escape_subject (snd p)]"
    by (simp add: subj.split_esc subj.split_esc_only spec split_unescaped_sep BS_def)
  then show ?thesis by (simp add: attribute_text_def escape_plain_key [OF assms])
qed

lemma attribute_text_inj:
  assumes "plain_key (fst p)" "plain_key (fst q)" "attribute_text p = attribute_text q"
  shows "p = q"
proof -
  have "[fst p, escape_subject (snd p)] = [fst q, escape_subject (snd q)]"
    using split_attribute_text [OF assms(1)] split_attribute_text [OF assms(2)] assms(3) by simp
  then show ?thesis using subj.esc_inj by (auto simp: prod_eq_iff)
qed

lemma slash_subject_inj:
  assumes "\<forall>p \<in> set as. plain_key (fst p)" "\<forall>p \<in> set bs. plain_key (fst p)"
    and "concat (map slash_attribute as) = concat (map slash_attribute bs)"
  shows "as = bs"
proof -
  have "map attribute_text as = map attribute_text bs"
    using split_slash_subject [OF assms(1)] split_slash_subject [OF assms(2)] assms(3) by simp
  moreover have "inj_on attribute_text (set as \<union> set bs)"
    using assms(1,2) by (intro inj_onI attribute_text_inj) blast+
  ultimately show ?thesis by (metis map_inj_on)
qed

definition subject_fields ::
  "string \<Rightarrow> string \<Rightarrow> string \<Rightarrow> string \<Rightarrow> string \<Rightarrow> string \<Rightarrow> (string \<times> string) list"
where
  "subject_fields common_name country_code organization state city organization_unit =
     [(''C'', country_code)] @ (if trim state \<noteq> [] then [(''ST'', state)] else []) @
     (if trim city \<noteq> [] then [(''L'', city)] else []) @ [(''O'', organization)] @
     (if trim organization_unit \<noteq> [] then [(''OU'', organization_unit)] else []) @
     [(''CN'', common_name)]"

lemma first_control_None: "first_control vs = None \<longleftrightarrow> (\<forall>p \<in> set vs. \<not> has_control (snd p))"
  by (auto simp: first_control_def find_None_D)

lemma create_subject_Inr:
  "create_subject cn c org st l ou = Inr s \<longleftrightarrow>
     trim cn \<noteq> [] \<and> trim c \<noteq> [] \<and> trim org \<noteq> [] \<and>
     (\<forall>v \<in> {cn, c, org, st, l, ou}. \<not> has_control v) \<and>
     slash_subject (subject_fields cn c org st l ou) = Some s"
proof -
  let ?vs = "[(''common name'', cn), (''country code'', c), (''organization'', org), (''state'', st),
       (''city'', l), (''organization unit'', ou)]"
  have "first_control ?vs = None \<longleftrightarrow> (\<forall>v \<in> {cn, c, org, st, l, ou}. \<not> has_control v)"
    unfolding first_control_None by simp
  then show ?thesis
    by (cases "first_control ?vs")
      (auto simp: create_subject_def slash_subject_def subject_fields_def slash_attribute_def)
qed

lemma subject_fields_plain: "p \<in> set (subject_fields cn c org st l ou) \<Longrightarrow> plain_key (fst p)"
  by (auto simp: subject_fields_def plain_key_def subject_special_def BS_def split: if_splits)

section \<open>Escaping and decoding\<close>

text \<open>No \<open>+\<close> with a hexadecimal digit after it.\<close>

fun plus_free :: "string \<Rightarrow> bool" where
  "plus_free [] = True"
| "plus_free [c] = True"
| "plus_free (c # d # s) = (\<not> (c = CHR ''+'' \<and> hex_digit d \<noteq> None) \<and> plus_free (d # s))"

lemma radix16_escaped:
  "subject_special c \<Longrightarrow> c \<noteq> CHR ''+'' \<Longrightarrow> radix16_pair c d = None"
  by (auto simp: radix16_pair_def subject_special_def hex_digit_def is_ascii_digit_def BS_def byte_def
      split: option.splits)

lemma unescape_plain: "c \<noteq> BS \<Longrightarrow> unescape_bytes (c # s) = c # unescape_bytes s"
  by (cases s rule: unescape_bytes.cases) auto

lemma unescape_escaped:
  "radix16_pair c (hd s) = None \<or> s = [] \<Longrightarrow> unescape_bytes (BS # c # s) = c # unescape_bytes s"
  by (cases s) auto

lemma radix16_BS [simp]: "radix16_pair c BS = None"
  by (simp add: radix16_pair_def hex_digit_def is_ascii_digit_def BS_def byte_def)

lemma unescape_escape_bytes: "plus_free v \<Longrightarrow> unescape_bytes (escape_subject v) = v"
proof (induction v)
  case Nil
  then show ?case by simp
next
  case (Cons c v)
  have free: "plus_free v" using Cons.prems by (cases v) auto
  show ?case
  proof (cases "subject_special c")
    case False
    then have "c \<noteq> BS" by (auto simp: subject_special_def)
    with False Cons.IH free show ?thesis by (simp add: unescape_plain)
  next
    case True
    have "radix16_pair c (hd (escape_subject v)) = None \<or> escape_subject v = []"
    proof (cases v)
      case (Cons d w)
      show ?thesis
      proof (cases "c = CHR ''+''")
        case True
        with Cons Cons.prems have "hex_digit d = None" by simp
        then have "radix16_pair c d = None" by (simp add: radix16_pair_def)
        with Cons show ?thesis by simp
      qed (use \<open>subject_special c\<close> in \<open>simp add: radix16_escaped\<close>)
    qed simp
    then show ?thesis using True Cons.IH free by (simp add: unescape_escaped)
  qed
qed

text \<open>
  Where a \<open>+\<close> stands before a hexadecimal digit, both are read as one byte, so that \<open>+\<close> is
  lost: there are fewer of them than before.
\<close>

abbreviation plus_count :: "string \<Rightarrow> nat" where
  "plus_count s \<equiv> length (filter (\<lambda>c. c = CHR ''+'') s)"

lemma plus_count_split: "plus_count (take n s) + plus_count (drop n s) = plus_count s"
  by (metis append_take_drop_id filter_append length_append)

lemma lossy_plus_count: "plus_count (from_utf8_lossy s) \<le> plus_count s"
proof (induction s rule: from_utf8_lossy.induct)
  case (1 s)
  have "plus_count replacement = 0" by code_simp
  then have "plus_count (if fst (utf8_head s) then take (snd (utf8_head s)) s else replacement)
      \<le> plus_count (take (snd (utf8_head s)) s)"
    by simp
  then show ?case
    using 1 plus_count_split [of "snd (utf8_head s)" s]
    by (subst from_utf8_lossy.simps) (fastforce simp: Let_def)
qed

lemma hex_digit_bounds: "hex_digit d = Some h \<Longrightarrow> h < 16 \<and> \<not> subject_special d"
  by (auto simp: subject_special_def hex_digit_def is_ascii_digit_def BS_def byte_def split: if_splits)

lemma unescape_pair:
  assumes "hex_digit d = Some h"
  shows "unescape_bytes (BS # CHR ''+'' # d # s) = char_of h # unescape_bytes s" and "char_of h \<noteq> CHR ''+''"
proof -
  show "unescape_bytes (BS # CHR ''+'' # d # s) = char_of h # unescape_bytes s"
    using assms by (simp add: radix16_pair_def)
  have "of_char (char_of h :: char) \<noteq> (of_char (CHR ''+'') :: nat)"
    using hex_digit_bounds [OF assms] by simp
  then show "char_of h \<noteq> CHR ''+''" by metis
qed

lemma escaped_head: "hex_digit (hd (escape_subject s)) = Some h \<Longrightarrow> s \<noteq> [] \<Longrightarrow>
    \<exists>d w. s = d # w \<and> hex_digit d = Some h \<and> escape_subject s = d # escape_subject w"
  by (cases s) (auto simp: hex_digit_def BS_def byte_def is_ascii_digit_def split: if_splits)

lemma unescape_escape_plus:
  "plus_count (unescape_bytes (escape_subject v)) + (if plus_free v then 0 else 1) \<le> plus_count v"
proof (induction v rule: length_induct)
  case (1 v)
  show ?case
  proof (cases v)
    case (Cons c s)
    have IH: "plus_count (unescape_bytes (escape_subject s)) + (if plus_free s then 0 else 1) \<le> plus_count s"
      using 1 Cons by simp
    have free: "plus_free v \<longleftrightarrow> plus_free s" if "c = CHR ''+'' \<longrightarrow> s = [] \<or> hex_digit (hd s) = None"
      using that Cons by (cases s) auto
    show ?thesis
    proof (cases "c = CHR ''+'' \<and> s \<noteq> [] \<and> hex_digit (hd s) \<noteq> None")
      case True
      then obtain d w h where s: "s = d # w" "hex_digit d = Some h" by (cases s) auto
      then have "\<not> subject_special d" using hex_digit_bounds by blast
      then have "escape_subject v = BS # CHR ''+'' # d # escape_subject w"
        using True Cons s by (simp add: subject_special_def)
      moreover have "plus_count (unescape_bytes (escape_subject w)) \<le> plus_count w"
        using 1 Cons s(1) by (metis add_leD1 length_Cons less_Suc_eq)
      ultimately show ?thesis
        using unescape_pair [OF s(2)] Cons True s(1) by simp
    next
      case other: False
      show ?thesis
      proof (cases "subject_special c")
        case False
        then have "c \<noteq> BS" "c \<noteq> CHR ''+''" by (auto simp: subject_special_def)
        then show ?thesis using False IH free Cons by (simp add: unescape_plain)
      next
        case True
        have "radix16_pair c (hd (escape_subject s)) = None \<or> escape_subject s = []"
        proof (cases "c = CHR ''+'' \<and> s \<noteq> []")
          case p: True
          then have "hex_digit (hd s) = None" using other by blast
          then have "hex_digit (hd (escape_subject s)) = None"
            using escaped_head p by (metis list.sel(1) option.exhaust)
          then show ?thesis by (simp add: radix16_pair_def)
        next
          case False
          then show ?thesis using True by (cases "s = []") (auto simp: radix16_escaped)
        qed
        then have "unescape_bytes (escape_subject v) = c # unescape_bytes (escape_subject s)"
          using True Cons by (simp add: unescape_escaped)
        then show ?thesis using IH free other Cons by auto
      qed
    qed
  qed simp
qed

lemma unescape_escape_iff:
  assumes "valid_utf8 v"
  shows "unescape_dn_value (escape_subject v) = v \<longleftrightarrow> plus_free v"
proof
  assume "plus_free v"
  then show "unescape_dn_value (escape_subject v) = v"
    using assms by (simp add: unescape_dn_value_def unescape_escape_bytes from_utf8_lossy_valid)
next
  assume e: "unescape_dn_value (escape_subject v) = v"
  have "plus_count (unescape_dn_value (escape_subject v)) \<le> plus_count (unescape_bytes (escape_subject v))"
    unfolding unescape_dn_value_def by (rule lossy_plus_count)
  then show "plus_free v" using unescape_escape_plus [of v] unfolding e by (simp split: if_splits)
qed

end
