(* ===== verification/Validate.thy ===== *)
theory Validate
  imports Subject
begin

text \<open>
  The checks that stand between requests, certificates or backup files and the rest of
  the program (end of \<open>src/src/service.rs\<close>, \<open>normalize_digest\<close> of \<open>src/src/openssl.rs\<close>),
  and what each check guarantees about the values it accepts.
\<close>

section \<open>Revocation reasons, validity, keys, digests\<close>

definition revocation_reasons :: "string list" where
  "revocation_reasons =
     [''unspecified'', ''keyCompromise'', ''CACompromise'', ''affiliationChanged'', ''superseded'',
      ''cessationOfOperation'', ''certificateHold'', ''removeFromCRL'', ''privilegeWithdrawn'',
      ''AACompromise'']"

definition normalize_revocation_reason :: "string \<Rightarrow> string result" where
  "normalize_revocation_reason reason =
     (let n = (if trim reason = [] then ''unspecified'' else trim reason)
      in if n \<in> set revocation_reasons then Inr n
         else Inl (Bail (''unsupported revocation reason: '' @ n)))"

definition validate_days :: "int \<Rightarrow> unit result" where
  "validate_days days =
     (if \<not> (1 \<le> days \<and> days \<le> 7350) then Inl (Bail ''valid days must be in 1..7350'') else Inr ())"

definition validate_key_length :: "int \<Rightarrow> unit result" where
  "validate_key_length n =
     (if n \<notin> {2048, 4096, 8192} then Inl (Bail ''key length must be 2048, 4096, or 8192'')
      else Inr ())"

definition validate_curve :: "string \<Rightarrow> unit result" where
  "validate_curve c =
     (if c \<notin> {''prime256v1'', ''secp384r1'', ''secp521r1''}
      then Inl (Bail ''ECDSA curve must be prime256v1, secp384r1, or secp521r1'') else Inr ())"

definition parse_key_profile :: "string \<Rightarrow> (string \<times> string) result" where
  "parse_key_profile p =
     (let profile = to_ascii_lowercase (trim p)
      in case split_once (CHR '':'') profile of
           None \<Rightarrow> Inl (Bail ''key profile must look like rsa:4096 or ecdsa:prime256v1'')
         | Some (algorithm, attribute) \<Rightarrow>
             if algorithm = ''rsa'' then
               bind_res (with_context (''invalid RSA key profile: '' @ profile)
                   (ok_or (External ''invalid integer'') (parse_i64 attribute))) (\<lambda>bits.
               bind_res (validate_key_length bits) (\<lambda>_. Inr (''rsa'', show_int bits)))
             else if algorithm = ''ecdsa'' then
               bind_res (validate_curve attribute) (\<lambda>_. Inr (''ecdsa'', attribute))
             else Inl (Bail ''key profile algorithm must be rsa or ecdsa''))"

text \<open>The JSON object \<open>{"bits": n}\<close> or \<open>{"curve": c}\<close>.\<close>

datatype key_attributes = Bits int | Curve string

record key_spec =
  ks_profile :: string
  ks_algorithm :: string
  ks_attributes :: key_attributes

definition key_spec_of :: "string \<Rightarrow> key_spec result" where
  "key_spec_of profile =
     bind_res (parse_key_profile profile) (\<lambda>(algorithm, attribute).
     bind_res
       (if algorithm = ''rsa''
        then map_sum (\<lambda>e. e) Bits (ok_or (External ''invalid integer'') (parse_i64 attribute))
        else Inr (Curve attribute)) (\<lambda>attributes.
     Inr \<lparr>ks_profile = algorithm @ '':'' @ attribute, ks_algorithm = algorithm,
          ks_attributes = attributes\<rparr>))"

definition is_supported_key_profile :: "string \<Rightarrow> bool" where
  "is_supported_key_profile p = is_ok (parse_key_profile p)"

definition supported_digests :: "string list" where
  "supported_digests = [''sha256'', ''sha384'', ''sha512'']"

definition normalize_digest :: "string \<Rightarrow> string result" where
  "normalize_digest input =
     (let n = to_ascii_lowercase
                (filter (\<lambda>c. c \<noteq> CHR ''-'') (trim_start_matches (\<lambda>c. c = CHR ''-'') (trim input)))
      in if n \<in> set supported_digests then Inr n
         else Inl (Bail (''digest algorithm must be one of '' @ join '', '' supported_digests)))"

section \<open>Reading openssl's text output\<close>

fun public_key_bits_lines :: "string list \<Rightarrow> int option" where
  "public_key_bits_lines [] = None"
| "public_key_bits_lines (l # ls) =
     (case strip_prefix ''Public-Key:'' (trim l) of
        None \<Rightarrow> public_key_bits_lines ls
      | Some v \<Rightarrow>
          (case strip_prefix ''('' (trim v) of
             None \<Rightarrow> None
           | Some w \<Rightarrow>
               (case first_word w of
                  None \<Rightarrow> None
                | Some b \<Rightarrow>
                    (case parse_i64 b of
                       Some n \<Rightarrow> Some n
                     | None \<Rightarrow> public_key_bits_lines ls))))"

definition parse_public_key_bits :: "string \<Rightarrow> int option" where
  "parse_public_key_bits text = public_key_bits_lines (str_lines text)"

fun public_key_algorithm_lines :: "string list \<Rightarrow> string" where
  "public_key_algorithm_lines [] = ''unknown''"
| "public_key_algorithm_lines (l # ls) =
     (case strip_prefix ''Public Key Algorithm:'' (trim l) of
        None \<Rightarrow> public_key_algorithm_lines ls
      | Some v \<Rightarrow>
          (let w = to_ascii_lowercase (trim v)
           in if str_contains ''id-ecpublickey'' w \<or> str_contains ''ec public'' w then ''ecdsa''
              else if str_contains ''rsa'' w then ''rsa''
              else public_key_algorithm_lines ls))"

definition parse_public_key_algorithm :: "string \<Rightarrow> string" where
  "parse_public_key_algorithm text = public_key_algorithm_lines (str_lines text)"

definition nonempty_after :: "string \<Rightarrow> string \<Rightarrow> string option" where
  "nonempty_after l prefix =
     (case strip_prefix prefix l of
        None \<Rightarrow> None
      | Some v \<Rightarrow> if trim v = [] then None else Some (trim v))"

fun ec_curve_lines :: "string list \<Rightarrow> string option" where
  "ec_curve_lines [] = None"
| "ec_curve_lines (l # ls) =
     (case nonempty_after (trim l) ''ASN1 OID:'' of
        Some c \<Rightarrow> Some c
      | None \<Rightarrow>
          (case nonempty_after (trim l) ''NIST CURVE:'' of
             Some c \<Rightarrow> Some c
           | None \<Rightarrow> ec_curve_lines ls))"

definition parse_ec_curve :: "string \<Rightarrow> string option" where
  "parse_ec_curve text = ec_curve_lines (str_lines text)"

definition parse_public_key_profile :: "string \<Rightarrow> string" where
  "parse_public_key_profile text =
     (if parse_public_key_algorithm text = ''rsa'' then
        (case parse_public_key_bits text of
           Some bits \<Rightarrow> ''rsa:'' @ show_int bits | None \<Rightarrow> ''rsa:4096'')
      else if parse_public_key_algorithm text = ''ecdsa'' then
        (case parse_ec_curve text of
           Some curve \<Rightarrow> ''ecdsa:'' @ curve | None \<Rightarrow> ''ecdsa:prime256v1'')
      else ''rsa:4096'')"

fun signature_digest_lines :: "string list \<Rightarrow> string option" where
  "signature_digest_lines [] = None"
| "signature_digest_lines (l # ls) =
     (case strip_prefix ''Signature Algorithm:'' (trim l) of
        None \<Rightarrow> signature_digest_lines ls
      | Some v \<Rightarrow>
          (case find (\<lambda>d. starts_with d (to_ascii_lowercase (trim v)))
                  [''sha512'', ''sha384'', ''sha256'', ''sha224'', ''sha1''] of
             Some d \<Rightarrow> Some d
           | None \<Rightarrow> if trim v \<noteq> [] then Some (trim v) else signature_digest_lines ls))"

definition parse_signature_digest :: "string \<Rightarrow> string option" where
  "parse_signature_digest text = signature_digest_lines (str_lines text)"

definition info_value :: "(string \<times> string) list \<Rightarrow> string \<Rightarrow> string option" where
  "info_value info key = map_option snd (find (\<lambda>p. fst p = key) info)"

text \<open>
  \<open>parse_date\<close> stands for \<open>parse_openssl_date\<close>, which is chrono's
  \<open>NaiveDateTime::parse_from_str\<close> with a fixed format.
\<close>

definition validity_from_info ::
  "(string \<Rightarrow> int option) \<Rightarrow> int \<Rightarrow> (string \<times> string) list \<Rightarrow> int \<times> int" where
  "validity_from_info parse_date now info =
     (let nb = (case Option.bind (info_value info ''notBefore'') parse_date of
                  None \<Rightarrow> now | Some t \<Rightarrow> t);
          na = (case Option.bind (info_value info ''notAfter'') parse_date of
                  None \<Rightarrow> nb | Some t \<Rightarrow> t);
          days = tdiv (add64 (max (sub64 na nb) 0) 86399999) 86400000
      in (nb, max days 1))"

section \<open>Names, ids, passwords, URLs\<close>

text \<open>A character in single quotes, as the messages write it.\<close>

definition quoted :: "string \<Rightarrow> string" where "quoted s = [CHR 0x27] @ s @ [CHR 0x27]"

definition entity_id_char :: "char \<Rightarrow> bool" where
  "entity_id_char c \<longleftrightarrow> is_ascii_alphanumeric c \<or> c = CHR ''-'' \<or> c = CHR ''_'' \<or> c = CHR ''.''"

definition validate_entity_id :: "string \<Rightarrow> string result" where
  "validate_entity_id i =
     (let t = trim i
      in if t = [] \<or> 64 < length t \<or> starts_with ''.'' t \<or> \<not> list_all entity_id_char t
         then Inl (Bail (''invalid id '' @ debug_str t @ '': use 1-64 letters, digits, '' @
                quoted ''-'' @ '', '' @ quoted ''_'' @ '' or '' @ quoted ''.''))
         else Inr t)"

definition backup_id_char :: "char \<Rightarrow> bool" where
  "backup_id_char c \<longleftrightarrow> is_ascii_alphanumeric c \<or> c = CHR ''-'' \<or> c = CHR ''_''"

definition validate_backup_id :: "string \<Rightarrow> unit result" where
  "validate_backup_id i =
     (if i = [] \<or> 64 < length i \<or> \<not> list_all backup_id_char i
      then Inl (Bail (''backup contains an invalid id '' @ debug_str i)) else Inr ())"

text \<open>The loop of \<open>artifact_basename\<close>, with its local \<open>last_sep\<close>.\<close>

definition stem_char :: "char \<Rightarrow> bool" where
  "stem_char c \<longleftrightarrow> is_ascii_alphanumeric c \<or> c = CHR ''.'' \<or> c = CHR ''-''"

fun basename_loop :: "string \<Rightarrow> bool \<Rightarrow> string" where
  "basename_loop [] last_sep = []"
| "basename_loop (c # cs) last_sep =
     (if stem_char c then c # basename_loop cs False
      else if \<not> last_sep then CHR ''_'' # basename_loop cs True
      else basename_loop cs last_sep)"

definition artifact_basename :: "string \<Rightarrow> string \<Rightarrow> string" where
  "artifact_basename common_name i =
     (let name = (case strip_prefix ''*.'' (trim common_name) of
                    Some rest \<Rightarrow> ''wildcard.'' @ rest | None \<Rightarrow> trim common_name);
          out = trim_matches (\<lambda>c. c = CHR ''_'' \<or> c = CHR ''.'') (basename_loop name True)
      in if out = [] \<or> list_all (\<lambda>c. c = CHR ''.'' \<or> c = CHR ''_'' \<or> c = CHR ''-'') out
         then i else out)"

definition ldh :: "char \<Rightarrow> bool" where
  "ldh c \<longleftrightarrow> is_ascii_alphanumeric c \<or> c = CHR ''-''"

definition dns_label_error :: "string \<Rightarrow> string option" where
  "dns_label_error l =
     (if l = [] \<or> 63 < length l then Some ''each label must be 1-63 characters''
      else if \<not> list_all ldh l
      then Some (''only letters, digits and '' @ quoted ''-'' @ '' are allowed (plus a leading '' @
                 quoted ''*.'' @ '' wildcard)'')
      else if starts_with ''-'' l \<or> ends_with ''-'' l
      then Some (''labels must not start or end with '' @ quoted ''-'')
      else None)"

fun first_some :: "('a \<Rightarrow> 'b option) \<Rightarrow> 'a list \<Rightarrow> 'b option" where
  "first_some f [] = None"
| "first_some f (x # xs) = (case f x of Some y \<Rightarrow> Some y | None \<Rightarrow> first_some f xs)"

definition validate_dns_name :: "string \<Rightarrow> unit result" where
  "validate_dns_name name =
     (let invalid = (\<lambda>why. Inl (Bail (''invalid DNS name '' @ debug_str name @ '': '' @ why)));
          host = (case strip_prefix ''*.'' name of Some h \<Rightarrow> h | None \<Rightarrow> name);
          labels = split_on (\<lambda>c. c = CHR ''.'') host
      in if name = [] \<or> 253 < length name then invalid ''must be 1-253 characters''
         else if host = [] then invalid (''wildcard needs a domain after '' @ quoted ''*.'')
         else case first_some dns_label_error labels of
           Some why \<Rightarrow> invalid why
         | None \<Rightarrow>
             if labels \<noteq> [] \<and> list_all is_ascii_digit (last labels)
             then invalid ''looks like an IP address; put it in the IP list''
             else Inr ())"

definition is_valid_dns_name :: "string \<Rightarrow> bool" where
  "is_valid_dns_name name = is_ok (validate_dns_name name)"

definition validate_password :: "string option \<Rightarrow> unit result" where
  "validate_password p =
     (if (case p of None \<Rightarrow> False | Some s \<Rightarrow> has_control s)
      then Inl (Bail ''password must not contain control characters or newlines'') else Inr ())"

definition url_char :: "char \<Rightarrow> bool" where
  "url_char c \<longleftrightarrow> is_ascii_graphic c \<and>
     c \<notin> {CHR 0x22, CHR 0x27, BS, CHR '','', CHR ''<'', CHR ''>'', CHR 0x60}"

definition validate_crl_url :: "string \<Rightarrow> unit result" where
  "validate_crl_url url =
     (let lower = to_ascii_lowercase url;
          scheme_ok = starts_with ''http://'' lower \<or> starts_with ''https://'' lower
      in if \<not> scheme_ok \<or> \<not> list_all url_char url
         then Inl (Bail (''invalid CRL URL '' @ debug_str url @ '': public_base_url must be an http(s) URL without whitespace, quotes, backslashes or commas''))
         else Inr ())"

section \<open>Templates and backup files\<close>

definition template_digests :: "string list" where
  "template_digests = [''sha256'', ''sha384'', ''sha512'']"

definition template_profiles :: "string list" where
  "template_profiles =
     [''rsa:2048'', ''rsa:4096'', ''rsa:8192'', ''ecdsa:prime256v1'', ''ecdsa:secp384r1'',
      ''ecdsa:secp521r1'']"

text \<open>\<open>opt.filter(p).is_some()\<close>\<close>

definition some_and :: "('a \<Rightarrow> bool) \<Rightarrow> 'a option \<Rightarrow> bool" where
  "some_and p x = (case x of None \<Rightarrow> False | Some v \<Rightarrow> p v)"

definition bad_country :: "string \<Rightarrow> bool" where
  "bad_country c \<longleftrightarrow> char_count c \<noteq> 2 \<or> \<not> list_all is_ascii_alphabetic c"

definition bad_field :: "string \<Rightarrow> bool" where
  "bad_field v \<longleftrightarrow> has_control v \<or> 200 < char_count v"

definition the_text :: "string option \<Rightarrow> string" where
  "the_text x = (case x of None \<Rightarrow> [] | Some s \<Rightarrow> s)"

definition validate_template_values :: "template_values \<Rightarrow> template_values result" where
  "validate_template_values vs =
     (let v = values_normalized vs in
      if some_and (\<lambda>d. \<not> (1 \<le> d \<and> d \<le> 7350)) (tv_valid_days v)
      then Inl (Bail (''valid_days must be in 1..7350, got '' @
                  (case tv_valid_days v of None \<Rightarrow> [] | Some d \<Rightarrow> show_int d)))
      else if some_and bad_country (tv_country_code v)
      then Inl (Bail (''country_code must be a 2-letter code, got '' @
                  debug_str (the_text (tv_country_code v))))
      else if some_and (\<lambda>d. d \<notin> set template_digests) (tv_digest_algorithm v)
      then Inl (Bail (''digest_algorithm must be sha256, sha384 or sha512, got '' @
                  debug_str (the_text (tv_digest_algorithm v))))
      else if some_and (\<lambda>p. p \<notin> set template_profiles) (tv_key_profile v)
      then Inl (Bail (''key_profile is not supported: '' @ debug_str (the_text (tv_key_profile v))))
      else case find (\<lambda>p. some_and bad_field (snd p))
              [(''country_code'', tv_country_code v), (''state'', tv_state v), (''city'', tv_city v),
               (''organization'', tv_organization v),
               (''organization_unit'', tv_organization_unit v)] of
        Some p \<Rightarrow> Inl (Bail (fst p @ '' must be at most 200 characters without control characters''))
      | None \<Rightarrow> Inr v)"

definition require_pem :: "string \<Rightarrow> string list \<Rightarrow> string \<Rightarrow> unit result" where
  "require_pem bytes labels what =
     (let ok = list_ex (\<lambda>l. starts_with ''-----BEGIN '' (trim l) \<and>
                   list_ex (\<lambda>label. ends_with (label @ ''-----'') (trim l)) labels)
                 (str_lines (from_utf8_lossy bytes))
      in if \<not> ok then Inl (Bail (''backup '' @ what @ '' is not a PEM '' @ join ''/'' labels))
         else Inr ())"

definition require_hex_state :: "string \<Rightarrow> bool \<Rightarrow> string \<Rightarrow> unit result" where
  "require_hex_state bytes allow_empty what =
     (let v = trim (from_utf8_lossy bytes)
      in if v = [] \<and> allow_empty then Inr ()
         else if v = [] \<or> \<not> list_all is_ascii_hexdigit v
         then Inl (Bail (''backup '' @ what @ '' is not a hex number''))
         else Inr ())"

section \<open>What the checks guarantee\<close>

lemma normalize_reason_Inr:
  "normalize_revocation_reason s = Inr r \<longleftrightarrow>
     r \<in> set revocation_reasons \<and> r = (if trim s = [] then ''unspecified'' else trim s)"
  by (auto simp: normalize_revocation_reason_def Let_def)

lemma reasons_trimmed: "r \<in> set revocation_reasons \<Longrightarrow> trim r = r \<and> r \<noteq> []"
proof -
  assume "r \<in> set revocation_reasons"
  then have "list_all is_ascii_graphic r" "r \<noteq> []"
    by (auto simp: revocation_reasons_def byte_class_defs byte_def)
  then show ?thesis by (simp add: trim_graphic list_all_iff)
qed

lemma normalize_reason_again:
  "normalize_revocation_reason s = Inr r \<Longrightarrow> normalize_revocation_reason r = Inr r"
  unfolding normalize_reason_Inr using reasons_trimmed [of r] by metis

lemma normalize_digest_Inr:
  "normalize_digest s = Inr d \<Longrightarrow> d \<in> set supported_digests"
  by (auto simp: normalize_digest_def Let_def split: if_splits)

lemma normalize_digest_again:
  "normalize_digest s = Inr d \<Longrightarrow> normalize_digest d = Inr d"
proof -
  assume "normalize_digest s = Inr d"
  then have "d \<in> set supported_digests" by (rule normalize_digest_Inr)
  then have "d = ''sha256'' \<or> d = ''sha384'' \<or> d = ''sha512''" by (simp add: supported_digests_def)
  then show ?thesis by (elim disjE) (simp; code_simp)+
qed

lemma validate_days_Inr: "validate_days d = Inr u \<longleftrightarrow> 1 \<le> d \<and> d \<le> 7350"
  by (simp add: validate_days_def)

lemma parse_key_profile_Inr:
  assumes "parse_key_profile p = Inr (a, b)"
  shows "(a = ''rsa'' \<and> b \<in> {''2048'', ''4096'', ''8192''}) \<or>
         (a = ''ecdsa'' \<and> b \<in> {''prime256v1'', ''secp384r1'', ''secp521r1''})"
proof -
  have "show_int 2048 = ''2048''" "show_int 4096 = ''4096''" "show_int 8192 = ''8192''"
    by code_simp+
  note shown = this
  let ?profile = "to_ascii_lowercase (trim p)"
  obtain alg att where sp: "split_once (CHR '':'') ?profile = Some (alg, att)"
    using assms by (cases "split_once (CHR '':'') ?profile") (auto simp: parse_key_profile_def Let_def)
  have body: "(if alg = ''rsa'' then
       bind_res (with_context (''invalid RSA key profile: '' @ ?profile)
         (ok_or (External ''invalid integer'') (parse_i64 att))) (\<lambda>bits.
       bind_res (validate_key_length bits) (\<lambda>_. Inr (''rsa'', show_int bits)))
     else if alg = ''ecdsa'' then bind_res (validate_curve att) (\<lambda>_. Inr (''ecdsa'', att))
     else Inl (Bail ''key profile algorithm must be rsa or ecdsa'')) = Inr (a, b)"
    using assms unfolding parse_key_profile_def Let_def sp option.case prod.case .
  then have "alg = ''rsa'' \<or> alg = ''ecdsa''" by (metis sum.distinct(1))
  then show ?thesis
  proof
    assume "alg = ''rsa''"
    with body obtain bits where "validate_key_length bits = Inr ()" "a = ''rsa''" "b = show_int bits"
      by (auto simp: res_simps)
    then have "bits = 2048 \<or> bits = 4096 \<or> bits = 8192"
      by (auto simp: validate_key_length_def split: if_splits)
    then show ?thesis
      using \<open>a = ''rsa''\<close> \<open>b = show_int bits\<close> by (elim disjE) (simp_all add: shown)
  next
    assume "alg = ''ecdsa''"
    with body have "validate_curve b = Inr ()" "a = ''ecdsa''"
      by (auto simp: res_simps)
    then show ?thesis by (auto simp: validate_curve_def split: if_splits)
  qed
qed

lemma key_spec_profile:
  assumes "key_spec_of p = Inr k"
  shows "ks_profile k \<in> set template_profiles" and "ks_algorithm k \<in> {''rsa'', ''ecdsa''}"
proof -
  from assms obtain a b where ab: "parse_key_profile p = Inr (a, b)"
    "ks_profile k = a @ '':'' @ b" "ks_algorithm k = a"
    by (auto simp: key_spec_of_def res_simps split_def)
  from parse_key_profile_Inr [OF ab(1)] show "ks_profile k \<in> set template_profiles"
    by (auto simp: ab template_profiles_def)
  from parse_key_profile_Inr [OF ab(1)] show "ks_algorithm k \<in> {''rsa'', ''ecdsa''}"
    by (auto simp: ab)
qed

lemma parse_canonical:
  assumes "parse_key_profile p = Inr (a, b)"
  shows "parse_key_profile (a @ '':'' @ b) = Inr (a, b)"
proof -
  have "list_all (\<lambda>b. parse_key_profile (''rsa'' @ '':'' @ b) = Inr (''rsa'', b)) [''2048'', ''4096'', ''8192'']"
    "list_all (\<lambda>b. parse_key_profile (''ecdsa'' @ '':'' @ b) = Inr (''ecdsa'', b))
       [''prime256v1'', ''secp384r1'', ''secp521r1'']"
    by code_simp+
  with parse_key_profile_Inr [OF assms] show ?thesis unfolding list_all_iff list.set by blast
qed

lemma key_spec_canonical:
  assumes "key_spec_of p = Inr k"
  shows "key_spec_of (ks_profile k) = Inr k"
proof -
  from assms obtain a b where ab: "parse_key_profile p = Inr (a, b)" "ks_profile k = a @ '':'' @ b"
    by (auto simp: key_spec_of_def res_simps split_def)
  with assms parse_canonical [OF ab(1)] show ?thesis
    unfolding key_spec_of_def ab(2) by simp
qed

lemma profiles_supported:
  "p \<in> set template_profiles \<Longrightarrow> \<exists>k. key_spec_of p = Inr k \<and> ks_profile k = p"
proof -
  have all: "list_all (\<lambda>p. case key_spec_of p of Inl _ \<Rightarrow> False | Inr k \<Rightarrow> ks_profile k = p)
      template_profiles"
    by code_simp
  assume "p \<in> set template_profiles"
  with all have "case key_spec_of p of Inl _ \<Rightarrow> False | Inr k \<Rightarrow> ks_profile k = p"
    unfolding list_all_iff by blast
  then show ?thesis by (cases "key_spec_of p") simp_all
qed

lemma validity_at_least_one: "1 \<le> snd (validity_from_info f now info)"
  by (simp add: validity_from_info_def Let_def)

text \<open>
  The dates a parser of \<open>NaiveDateTime\<close> can return: chrono's dates end in the years -262143
  and 262142, less than nine million billion milliseconds from 1970. No such dates overflow
  the 64-bit arithmetic.
\<close>

definition date_range :: "(string \<Rightarrow> int option) \<Rightarrow> bool" where
  "date_range parse_date \<longleftrightarrow>
     (\<forall>s t. parse_date s = Some t \<longrightarrow> - 9000000000000000 \<le> t \<and> t \<le> 9000000000000000)"

lemma validity_exact:
  assumes "date_range f"
    and "Option.bind (info_value info ''notBefore'') f = Some nb"
    and "Option.bind (info_value info ''notAfter'') f = Some na"
  shows "in_i64 (na - nb) \<and> in_i64 (max (na - nb) 0 + 86399999)"
    and "validity_from_info f now info = (nb, max ((max (na - nb) 0 + 86399999) div 86400000) 1)"
proof -
  have b: "- 9000000000000000 \<le> t \<and> t \<le> 9000000000000000" if "Option.bind x f = Some t" for x t
    using assms(1) that by (auto simp: date_range_def bind_eq_Some_conv)
  show r: "in_i64 (na - nb) \<and> in_i64 (max (na - nb) 0 + 86399999)"
    using b [OF assms(2)] b [OF assms(3)] by (simp add: in_i64_def i64_min_def i64_max_def)
  show "validity_from_info f now info = (nb, max ((max (na - nb) 0 + 86399999) div 86400000) 1)"
    using assms(2,3) sub64_exact [of na nb] add64_exact [of "max (na - nb) 0" 86399999] r
    by (simp add: validity_from_info_def Let_def tdiv_nonneg)
qed

section \<open>File names, host names, URLs\<close>

lemma basename_loop_chars:
  "c \<in> set (basename_loop s l) \<Longrightarrow> stem_char c \<or> c = CHR ''_''"
  by (induction s l rule: basename_loop.induct) (auto split: if_splits)

lemma stem_char_entity: "stem_char c \<or> c = CHR ''_'' \<Longrightarrow> entity_id_char c"
  by (auto simp: stem_char_def entity_id_char_def)

lemma validate_entity_id_Inr:
  "validate_entity_id i = Inr t \<longleftrightarrow>
     t = trim i \<and> t \<noteq> [] \<and> length t \<le> 64 \<and> \<not> starts_with ''.'' t \<and> list_all entity_id_char t"
  by (auto simp: validate_entity_id_def Let_def)

text \<open>
  A download name is made of letters, digits, '-', '_' and '.', is not empty and does not
  start with a dot, whatever the common name is, given such an id to fall back to.
\<close>

lemma artifact_basename_safe:
  assumes "i \<noteq> []" and "\<not> starts_with ''.'' i" and "list_all entity_id_char i"
  shows "artifact_basename cn i \<noteq> [] \<and> \<not> starts_with ''.'' (artifact_basename cn i) \<and>
    list_all entity_id_char (artifact_basename cn i)"
proof -
  define name where "name = (case strip_prefix ''*.'' (trim cn) of
      Some rest \<Rightarrow> ''wildcard.'' @ rest | None \<Rightarrow> trim cn)"
  define out where "out = trim_matches (\<lambda>c. c = CHR ''_'' \<or> c = CHR ''.'') (basename_loop name True)"
  have eq: "artifact_basename cn i =
      (if out = [] \<or> list_all (\<lambda>c. c = CHR ''.'' \<or> c = CHR ''_'' \<or> c = CHR ''-'') out then i else out)"
    unfolding artifact_basename_def name_def out_def Let_def by (rule refl)
  have chars: "list_all entity_id_char out"
    unfolding list_all_iff
  proof
    fix c assume "c \<in> set out"
    then have "c \<in> set (basename_loop name True)" using set_trim_matches unfolding out_def by blast
    then show "entity_id_char c" by (intro stem_char_entity) (rule basename_loop_chars)
  qed
  have "\<not> starts_with ''.'' out" if "out \<noteq> []"
    using trim_matches_ends(1) [of "\<lambda>c. c = CHR ''_'' \<or> c = CHR ''.''" "basename_loop name True"] that
    unfolding out_def [symmetric] by (cases out) (auto simp: starts_with_def)
  then show ?thesis using assms chars by (simp add: eq)
qed

lemma first_some_None: "first_some f xs = None \<longleftrightarrow> (\<forall>x \<in> set xs. f x = None)"
  by (induction xs) (auto split: option.splits)

definition dns_label_ok :: "string \<Rightarrow> bool" where
  "dns_label_ok l \<longleftrightarrow> l \<noteq> [] \<and> length l \<le> 63 \<and> list_all ldh l \<and> \<not> starts_with ''-'' l \<and>
     \<not> ends_with ''-'' l"

lemma dns_label_error_None: "dns_label_error l = None \<longleftrightarrow> dns_label_ok l"
  by (auto simp: dns_label_error_def dns_label_ok_def)

definition dns_host :: "string \<Rightarrow> string" where
  "dns_host name = (case strip_prefix ''*.'' name of Some h \<Rightarrow> h | None \<Rightarrow> name)"

lemma validate_dns_name_Inr:
  "validate_dns_name name = Inr u \<longleftrightarrow>
     name \<noteq> [] \<and> length name \<le> 253 \<and> dns_host name \<noteq> [] \<and>
     (\<forall>l \<in> set (split_on (\<lambda>c. c = CHR ''.'') (dns_host name)). dns_label_ok l) \<and>
     \<not> list_all is_ascii_digit (last (split_on (\<lambda>c. c = CHR ''.'') (dns_host name)))"
proof (cases "first_some dns_label_error (split_on (\<lambda>c. c = CHR ''.'') (dns_host name))")
  case None
  then have "\<forall>l \<in> set (split_on (\<lambda>c. c = CHR ''.'') (dns_host name)). dns_label_ok l"
    by (simp add: first_some_None dns_label_error_None)
  moreover have "validate_dns_name name = Inr u \<longleftrightarrow> name \<noteq> [] \<and> length name \<le> 253 \<and> dns_host name \<noteq> [] \<and>
      \<not> list_all is_ascii_digit (last (split_on (\<lambda>c. c = CHR ''.'') (dns_host name)))"
    unfolding validate_dns_name_def Let_def dns_host_def [symmetric] by (simp add: None not_less)
  ultimately show ?thesis by blast
next
  case (Some why)
  then have "first_some dns_label_error (split_on (\<lambda>c. c = CHR ''.'') (dns_host name)) \<noteq> None" by simp
  then have "\<not> (\<forall>l \<in> set (split_on (\<lambda>c. c = CHR ''.'') (dns_host name)). dns_label_ok l)"
    unfolding first_some_None dns_label_error_None .
  moreover have "validate_dns_name name \<noteq> Inr u"
    unfolding validate_dns_name_def Let_def dns_host_def [symmetric] by (simp add: Some)
  ultimately show ?thesis by blast
qed

definition dns_char :: "char \<Rightarrow> bool" where
  "dns_char c \<longleftrightarrow> ldh c \<or> c = CHR ''.'' \<or> c = CHR ''*''"

lemma split_on_char_cover:
  "c \<in> set s \<Longrightarrow> p c \<or> (\<exists>w \<in> set (split_on p s). c \<in> set w)"
  by (induction s) (auto split: list.splits)

lemma dns_name_chars:
  assumes "validate_dns_name name = Inr u"
  shows "list_all dns_char name"
proof -
  have host: "dns_char c" if "c \<in> set (dns_host name)" for c
    using split_on_char_cover [OF that, of "\<lambda>c. c = CHR ''.''"] assms
    by (auto simp: validate_dns_name_Inr dns_label_ok_def dns_char_def list_all_iff)
  have "set name \<subseteq> set (dns_host name) \<union> set ''*.''"
  proof (cases "starts_with ''*.'' name")
    case True
    then have "take 2 name = ''*.''" "dns_host name = drop 2 name"
      by (simp_all add: dns_host_def strip_prefix_def starts_with_def numeral_2_eq_2)
    then have "name = ''*.'' @ dns_host name" by (metis append_take_drop_id)
    then have "set name = set ''*.'' \<union> set (dns_host name)" by (metis set_append)
    then show ?thesis by simp
  next
    case False
    then have "set (dns_host name) = set name" by (simp add: dns_host_def strip_prefix_def)
    then show ?thesis by (metis Un_upper1)
  qed
  moreover have "dns_char c" if "c \<in> set ''*.''" for c
    using that by (auto simp: dns_char_def)
  ultimately show ?thesis using host unfolding list_all_iff by blast
qed

text \<open>
  Nothing that openssl's configuration syntax treats specially, and no separator of the
  lists the name is stored in.
\<close>

lemma dns_char_plain:
  "dns_char c \<Longrightarrow> \<not> conf_special c \<and> is_ascii_graphic c \<and> c \<noteq> CHR '';'' \<and> c \<noteq> CHR '','' \<and> c \<noteq> CHR ''=''"
  by (auto simp: dns_char_def ldh_def conf_special_def byte_class_defs BS_def byte_def)

lemma conf_escape_plain: "list_all (\<lambda>c. \<not> conf_special c) s \<Longrightarrow> conf_escape s = s"
  by (induction s) auto

lemma dns_name_plain:
  assumes "validate_dns_name name = Inr u"
  shows "conf_escape name = name" and "trim name = name" and "\<not> has_control name"
    and "CHR '';'' \<notin> set name" and "name \<noteq> []"
proof -
  note chars = dns_name_chars [OF assms, unfolded list_all_iff]
  have plain: "\<forall>c \<in> set name. \<not> conf_special c" "\<forall>c \<in> set name. is_ascii_graphic c"
    using chars dns_char_plain by blast+
  show "conf_escape name = name"
    using plain(1) by (intro conf_escape_plain) (simp add: list_all_iff)
  show "trim name = name" "\<not> has_control name"
    using plain(2) by (rule trim_graphic, rule graphic_no_control)
  show "CHR '';'' \<notin> set name" using chars dns_char_plain by blast
  show "name \<noteq> []" using assms by (simp add: validate_dns_name_Inr)
qed

lemma validate_crl_url_Inr:
  "validate_crl_url url = Inr u \<longleftrightarrow>
     (starts_with ''http://'' (to_ascii_lowercase url) \<or> starts_with ''https://'' (to_ascii_lowercase url)) \<and>
     list_all url_char url"
  by (auto simp: validate_crl_url_def Let_def)

section \<open>Template values\<close>

definition field_ok :: "string option \<Rightarrow> bool" where
  "field_ok v \<longleftrightarrow> (case v of None \<Rightarrow> True | Some x \<Rightarrow> x \<noteq> [] \<and> trim x = x \<and> \<not> bad_field x)"

definition template_values_ok :: "template_values \<Rightarrow> bool" where
  "template_values_ok v \<longleftrightarrow>
     (case tv_valid_days v of None \<Rightarrow> True | Some d \<Rightarrow> 1 \<le> d \<and> d \<le> 7350) \<and>
     (case tv_country_code v of None \<Rightarrow> True
      | Some c \<Rightarrow> length c = 2 \<and> list_all is_ascii_upper c) \<and>
     (case tv_digest_algorithm v of None \<Rightarrow> True | Some d \<Rightarrow> d \<in> set template_digests) \<and>
     (case tv_key_profile v of None \<Rightarrow> True | Some p \<Rightarrow> p \<in> set template_profiles) \<and>
     field_ok (tv_state v) \<and> field_ok (tv_city v) \<and> field_ok (tv_organization v) \<and>
     field_ok (tv_organization_unit v)"

lemma template_values_Inr_D:
  assumes "validate_template_values vs = Inr v"
  shows "v = values_normalized vs" and "\<not> some_and (\<lambda>d. \<not> (1 \<le> d \<and> d \<le> 7350)) (tv_valid_days v)"
    and "\<not> some_and bad_country (tv_country_code v)"
    and "\<not> some_and (\<lambda>d. d \<notin> set template_digests) (tv_digest_algorithm v)"
    and "\<not> some_and (\<lambda>p. p \<notin> set template_profiles) (tv_key_profile v)"
    and "\<forall>x \<in> {tv_state v, tv_city v, tv_organization v, tv_organization_unit v, tv_country_code v}.
           \<not> some_and bad_field x"
  using assms unfolding validate_template_values_def Let_def
  by (auto simp: find_None_D split: if_splits option.splits)

lemma clean_field_ok: "\<not> some_and bad_field (clean_field x) \<Longrightarrow> field_ok (clean_field x)"
  by (auto simp: field_ok_def some_and_def dest: clean_field_Some split: option.splits)

lemma char_count_ascii: "list_all (\<lambda>c. byte c < 128) s \<Longrightarrow> char_count s = length s"
  unfolding char_count_def list_all_iff
  by (intro arg_cong [where f = length] filter_True) (meson linorder_not_le)

lemma upper_alphabetic:
  "is_ascii_alphabetic c \<Longrightarrow> \<not> is_ascii_lower c \<Longrightarrow> is_ascii_upper c"
  by (simp add: is_ascii_alphabetic_def)

lemma template_values_sound:
  assumes "validate_template_values vs = Inr v"
  shows "template_values_ok v"
proof -
  note D = template_values_Inr_D [OF assms]
  have country: "length c = 2 \<and> list_all is_ascii_upper c" if v: "tv_country_code v = Some c" for c
  proof -
    obtain s where c: "c = to_uppercase s"
      using v by (auto simp: D(1) values_normalized_def)
    have al: "list_all is_ascii_alphabetic c" "char_count c = 2"
      using D(3) v by (auto simp: some_and_def bad_country_def)
    then have "list_all is_ascii_upper c"
      using to_uppercase_not_lower [of s] upper_alphabetic by (auto simp: c list_all_iff)
    moreover from this have "char_count c = length c"
      by (intro char_count_ascii) (auto simp: list_all_iff is_ascii_upper_def)
    ultimately show ?thesis using al by simp
  qed
  have fields: "tv_state v = clean_field (tv_state vs)" "tv_city v = clean_field (tv_city vs)"
    "tv_organization v = clean_field (tv_organization vs)"
    "tv_organization_unit v = clean_field (tv_organization_unit vs)"
    by (simp_all add: D(1) values_normalized_def)
  have texts: "field_ok (tv_state v)" "field_ok (tv_city v)" "field_ok (tv_organization v)"
    "field_ok (tv_organization_unit v)"
    using D(6) by (simp_all add: fields clean_field_ok)
  show ?thesis
    using D(2,4,5) country texts
    by (auto simp: template_values_ok_def some_and_def split: option.splits)
qed

lemma listed_words_stable:
  "x \<in> set template_digests \<union> set template_profiles \<Longrightarrow>
   clean_field (Some x) = Some x \<and> to_lowercase x = x"
proof -
  have "list_all (\<lambda>x. clean_field (Some x) = Some x \<and> to_lowercase x = x)
      (template_digests @ template_profiles)"
    by code_simp
  then show "x \<in> set template_digests \<union> set template_profiles \<Longrightarrow>
    clean_field (Some x) = Some x \<and> to_lowercase x = x"
    unfolding list_all_iff set_append by blast
qed

lemma upper_word:
  assumes "length c = 2" and "list_all is_ascii_upper c"
  shows "clean_field (Some c) = Some c" and "to_uppercase c = c" and "\<not> bad_country c"
    and "\<not> bad_field c"
proof -
  have bytes: "\<forall>x \<in> set c. 65 \<le> byte x \<and> byte x \<le> 90"
    using assms(2) by (simp add: list_all_iff is_ascii_upper_def)
  then have graphic: "\<forall>x \<in> set c. is_ascii_graphic x"
    by (auto simp: is_ascii_graphic_def)
  have "list_all (\<lambda>x. byte x < 128) c" using bytes by (auto simp: list_all_iff)
  then have count: "char_count c = 2" and up: "to_uppercase c = map ascii_upper c"
    using assms(1) by (simp_all add: char_count_ascii to_uppercase_ascii)
  show "clean_field (Some c) = Some c"
    using trim_graphic [OF graphic] assms(1) by (auto simp: clean_field_def)
  show "to_uppercase c = c"
    unfolding up using bytes by (intro map_idI) (auto simp: ascii_upper_def is_ascii_lower_def)
  show "\<not> bad_country c"
    using count assms(2) by (auto simp: bad_country_def list_all_iff is_ascii_alphabetic_def)
  show "\<not> bad_field c" using count graphic_no_control [OF graphic] by (simp add: bad_field_def)
qed

text \<open>
  The accepted values are exactly the fixed points: what validation returns is accepted
  again, unchanged.
\<close>

lemma template_values_fixed:
  assumes "template_values_ok v"
  shows "values_normalized v = v" and "validate_template_values v = Inr v"
proof -
  have field: "clean_field x = x" "\<not> some_and bad_field x" if "field_ok x" for x
    using that by (auto simp: field_ok_def clean_field_def some_and_def split: option.splits)
  note ok = assms [unfolded template_values_ok_def]
  have texts: "clean_field (tv_state v) = tv_state v" "clean_field (tv_city v) = tv_city v"
    "clean_field (tv_organization v) = tv_organization v"
    "clean_field (tv_organization_unit v) = tv_organization_unit v"
    using ok field(1) by blast+
  have lists: "map_option to_lowercase (clean_field (tv_digest_algorithm v)) = tv_digest_algorithm v"
    "map_option to_lowercase (clean_field (tv_key_profile v)) = tv_key_profile v"
    using ok by (auto simp: listed_words_stable clean_field_def [of None] split: option.splits)
  have country: "map_option to_uppercase (clean_field (tv_country_code v)) = tv_country_code v"
    "\<not> some_and bad_country (tv_country_code v)" "\<not> some_and bad_field (tv_country_code v)"
    using ok by (auto simp: upper_word clean_field_def [of None] some_and_def split: option.splits)
  show norm: "values_normalized v = v"
    by (simp add: values_normalized_def texts lists country(1))
  have "\<not> some_and bad_field (tv_state v)" "\<not> some_and bad_field (tv_city v)"
    "\<not> some_and bad_field (tv_organization v)" "\<not> some_and bad_field (tv_organization_unit v)"
    using ok field(2) by blast+
  moreover have "\<not> some_and (\<lambda>d. \<not> (1 \<le> d \<and> d \<le> 7350)) (tv_valid_days v)"
    "\<not> some_and (\<lambda>d. d \<notin> set template_digests) (tv_digest_algorithm v)"
    "\<not> some_and (\<lambda>p. p \<notin> set template_profiles) (tv_key_profile v)"
    using ok by (auto simp: some_and_def split: option.splits)
  ultimately show "validate_template_values v = Inr v"
    using country(2,3) unfolding validate_template_values_def Let_def norm by simp
qed

lemmas template_values_complete = template_values_fixed(2)

lemma template_values_iff:
  "validate_template_values vs = Inr v \<longleftrightarrow> v = values_normalized vs \<and> template_values_ok v"
proof
  assume "validate_template_values vs = Inr v"
  then show "v = values_normalized vs \<and> template_values_ok v"
    using template_values_Inr_D(1) template_values_sound by blast
next
  assume "v = values_normalized vs \<and> template_values_ok v"
  then have n: "values_normalized v = values_normalized vs" and v: "validate_template_values v = Inr v"
    using template_values_fixed [of v] by metis+
  have "validate_template_values vs = validate_template_values v"
    unfolding validate_template_values_def n ..
  then show "validate_template_values vs = Inr v" using v by simp
qed

end
