(* ===== verification/Config.thy ===== *)
theory Config
  imports Subject
begin

text \<open>
  Roles, URL prefixes and the environment tokens of \<open>src/src/config.rs\<close>. Tokens
  \<open>{{ENV:NAME:default}}\<close> are resolved inside single string values; \<open>lookup\<close> is the
  environment.
\<close>

section \<open>Roles\<close>

datatype role = Admin | Viewer

instantiation role :: linorder
begin

definition less_eq_role :: "role \<Rightarrow> role \<Rightarrow> bool" where
  "less_eq_role a b \<longleftrightarrow> a = Viewer \<or> b = Admin"

definition less_role :: "role \<Rightarrow> role \<Rightarrow> bool" where
  "less_role a b \<longleftrightarrow> a = Viewer \<and> b = Admin"

instance
proof
  fix a b c :: role
  show "(a < b) = (a \<le> b \<and> \<not> b \<le> a)" by (cases a; cases b) (simp_all add: less_eq_role_def less_role_def)
  show "a \<le> a" by (cases a) (simp_all add: less_eq_role_def)
  show "a \<le> b \<Longrightarrow> b \<le> c \<Longrightarrow> a \<le> c" by (auto simp: less_eq_role_def)
  show "a \<le> b \<Longrightarrow> b \<le> a \<Longrightarrow> a = b" by (cases a; cases b) (simp_all add: less_eq_role_def)
  show "a \<le> b \<or> b \<le> a" by (cases a; cases b) (simp_all add: less_eq_role_def)
qed

end

definition can_write :: "role \<Rightarrow> bool" where
  "can_write r \<longleftrightarrow> r = Admin"

definition role_parse :: "string \<Rightarrow> role option" where
  "role_parse v =
     (let w = to_lowercase (trim v)
      in if w = ''admin'' then Some Admin else if w = ''viewer'' then Some Viewer else None)"

fun role_as_str :: "role \<Rightarrow> string" where
  "role_as_str Admin = ''admin''"
| "role_as_str Viewer = ''viewer''"

lemma can_write_iff: "can_write r \<longleftrightarrow> Admin \<le> r"
  by (cases r) (simp_all add: can_write_def less_eq_role_def)

lemma role_parse_as_str [simp]: "role_parse (role_as_str r) = Some r"
  by (cases r; simp; code_simp)

lemma role_as_str_inj: "role_as_str a = role_as_str b \<longleftrightarrow> a = b"
  by (cases a; cases b) simp_all

section \<open>URL prefixes\<close>

definition normalize_base_path :: "string \<Rightarrow> string" where
  "normalize_base_path raw =
     (let t = trim_matches (\<lambda>c. c = CHR ''/'') (trim raw) in if t = [] then [] else ''/'' @ t)"

definition cookie_path :: "string \<Rightarrow> string" where
  "cookie_path base_path = (if base_path = [] then ''/'' else base_path)"

text \<open>
  The stored prefix is empty or starts with one slash and does not end with one, so that
  \<open>base @ ''/cas''\<close> is always an absolute path on this host.
\<close>

lemma normalize_base_path_shape:
  "normalize_base_path raw = [] \<or>
     (\<exists>c s. normalize_base_path raw = CHR ''/'' # c # s \<and> c \<noteq> CHR ''/'' \<and> last (c # s) \<noteq> CHR ''/'')"
proof (cases "trim_matches (\<lambda>c. c = CHR ''/'') (trim raw)")
  case Nil
  then show ?thesis by (simp add: normalize_base_path_def)
next
  case (Cons c s)
  with trim_matches_ends [of "\<lambda>c. c = CHR ''/''" "trim raw"]
  have "c \<noteq> CHR ''/''" "last (c # s) \<noteq> CHR ''/''" by simp_all
  with Cons show ?thesis by (simp add: normalize_base_path_def)
qed

section \<open>Splitting at a text\<close>

text \<open>\<open>find(n)\<close> with the slices before and after the match.\<close>

fun split_str :: "string \<Rightarrow> string \<Rightarrow> (string \<times> string) option" where
  "split_str n [] = (if n = [] then Some ([], []) else None)"
| "split_str n (c # s) =
     (if starts_with n (c # s) then Some ([], drop (length n) (c # s))
      else map_option (\<lambda>(a, b). (c # a, b)) (split_str n s))"

lemma split_str_Some: "split_str n s = Some (a, b) \<Longrightarrow> s = a @ n @ b"
proof (induction s arbitrary: a)
  case Nil
  then show ?case by (simp split: if_splits)
next
  case (Cons c s)
  show ?case
  proof (cases "starts_with n (c # s)")
    case True
    with Cons.prems have "a = []" "b = drop (length n) (c # s)" by auto
    moreover have "take (length n) (c # s) = n" using True by (simp add: starts_with_def)
    ultimately show ?thesis by (metis append_Nil append_take_drop_id)
  next
    case False
    with Cons show ?thesis by auto
  qed
qed

lemma split_str_length: "split_str n s = Some (a, b) \<Longrightarrow> n \<noteq> [] \<Longrightarrow> length b < length s"
  by (drule split_str_Some) auto

lemma split_str_None: "split_str n s = None \<longleftrightarrow> \<not> str_contains n s"
  by (induction s) (auto simp: starts_with_def)

text \<open>A text no proper prefix of which is also a suffix: its occurrences cannot overlap.\<close>

definition borderless :: "string \<Rightarrow> bool" where
  "borderless n \<longleftrightarrow> (\<forall>k \<in> {1..<length n}. take k n \<noteq> drop (length n - k) n)"

lemma borderless_no_overlap:
  assumes "borderless n" and "starts_with n (a @ n @ r)" and "a \<noteq> []" and "length a < length n"
  shows False
proof -
  let ?k = "length n - length a"
  have "take (length n) (a @ n @ r) = n" using assms(2) by (simp add: starts_with_def)
  then have "n = a @ take ?k (n @ r)" using assms(4) by simp
  moreover have "take ?k (n @ r) = take ?k n" by simp
  ultimately have "n = a @ take ?k n" by simp
  then have "drop (length a) n = take ?k n" by (metis append_eq_conv_conj)
  moreover have "length n - ?k = length a" using assms(4) by simp
  moreover have "?k \<in> {1..<length n}" using assms(3,4) by (cases a) auto
  ultimately show False using assms(1) unfolding borderless_def by metis
qed

lemma split_str_first:
  assumes "borderless n" and "n \<noteq> []" and "\<not> str_contains n a"
  shows "split_str n (a @ n @ r) = Some (a, r)"
  using assms(3)
proof (induction a)
  case Nil
  obtain c m where "n = c # m" using assms(2) by (cases n) auto
  then show ?case by (simp add: starts_with_def)
next
  case (Cons c a)
  have "\<not> starts_with n ((c # a) @ n @ r)"
  proof
    assume h: "starts_with n ((c # a) @ n @ r)"
    show False
    proof (cases "length (c # a) < length n")
      case True
      then show False using borderless_no_overlap [OF assms(1) h] by simp
    next
      case False
      then have "take (length n) ((c # a) @ n @ r) = take (length n) (c # a)"
        using False by (subst take_append) simp
      then have "starts_with n (c # a)" using h by (simp add: starts_with_def)
      with Cons.prems show False by (auto simp: starts_with_def)
    qed
  qed
  moreover have "\<not> str_contains n a" using Cons.prems by simp
  ultimately show ?case using Cons.IH by simp
qed

section \<open>Environment tokens\<close>

definition env_open :: string where "env_open = ''{{ENV:''"
definition env_close :: string where "env_close = ''}}''"

definition hex_value :: "char \<Rightarrow> nat option" where
  "hex_value c =
     (if 48 \<le> byte c \<and> byte c \<le> 57 then Some (byte c - 48)
      else if 97 \<le> byte c \<and> byte c \<le> 102 then Some (byte c - 97 + 10)
      else if 65 \<le> byte c \<and> byte c \<le> 70 then Some (byte c - 65 + 10)
      else None)"

text \<open>The decoding loop; the flag is its local \<open>changed\<close>.\<close>

fun percent_loop :: "string \<Rightarrow> string \<times> bool" where
  "percent_loop [] = ([], False)"
| "percent_loop [c] = ([c], False)"
| "percent_loop [c, a] = ([c, a], False)"
| "percent_loop (c # a # b # s) =
     (case (if c = CHR ''%'' then (hex_value a, hex_value b) else (None, None)) of
        (Some high, Some low) \<Rightarrow> (char_of (16 * high + low) # fst (percent_loop s), True)
      | _ \<Rightarrow> (let r = percent_loop (a # b # s) in (c # fst r, snd r)))"

definition percent_decode_best_effort :: "string \<Rightarrow> string" where
  "percent_decode_best_effort v =
     (let (decoded, changed) = percent_loop v
      in if \<not> changed then v else if valid_utf8 decoded then decoded else v)"

definition env_first :: "char \<Rightarrow> bool" where
  "env_first c \<longleftrightarrow> is_ascii_alphabetic c \<or> c = CHR ''_''"

definition is_valid_env_name :: "string \<Rightarrow> bool" where
  "is_valid_env_name name =
     (case name of [] \<Rightarrow> False
      | c # s \<Rightarrow> env_first c \<and> list_all (\<lambda>c. is_ascii_alphanumeric c \<or> c = CHR ''_'') s)"

definition parse_env_token :: "string \<Rightarrow> (string \<times> string option) result" where
  "parse_env_token inner =
     (let (name, dflt) = (case split_once (CHR '':'') inner of
            Some (name, d) \<Rightarrow> (trim name, Some (percent_decode_best_effort (trim d)))
          | None \<Rightarrow> (trim inner, None))
      in if name = [] then Inl (Bail ''empty variable name in {{ENV:...}} token'')
         else if \<not> is_valid_env_name name
         then Inl (Bail (''invalid variable name '' @ debug_str name @
                 '' in {{ENV:...}} token; use [A-Za-z_][A-Za-z0-9_]*''))
         else Inr (name, dflt))"

text \<open>
  \<open>resolve_env_tokens_with_used\<close>: the text with every token replaced, and the names used.
\<close>

definition token_value :: "(string \<Rightarrow> string option) \<Rightarrow> string \<Rightarrow> string option \<Rightarrow> string" where
  "token_value lookup name dflt =
     (case lookup name of Some v \<Rightarrow> v | None \<Rightarrow> (case dflt of Some v \<Rightarrow> v | None \<Rightarrow> []))"

function resolve_env ::
  "(string \<Rightarrow> string option) \<Rightarrow> string \<Rightarrow> (string \<times> string list) result" where
  "resolve_env lookup text =
     (case split_str env_open text of
        None \<Rightarrow> Inr (text, [])
      | Some (before, token) \<Rightarrow>
          (case split_str env_close token of
             None \<Rightarrow> Inl (Bail ''unterminated {{ENV:...}} token'')
           | Some (inner, rest) \<Rightarrow>
               bind_res (parse_env_token inner) (\<lambda>(name, dflt).
               bind_res (resolve_env lookup rest) (\<lambda>(out, used).
               Inr (before @ token_value lookup name dflt @ out, name # used)))))"
  by pat_completeness auto
termination
proof (relation "measure (\<lambda>(_, s). length s)")
  fix f :: "string \<Rightarrow> string option" and s before token inner rest :: string
    and p q :: "string \<times> string" and name :: string and r :: "string \<times> string option"
    and dflt :: "string option"
  assume "split_str env_open s = Some p" "(before, token) = p"
    and "split_str env_close token = Some q" "(inner, rest) = q"
  then have "length token < length s" "length rest < length token"
    by (auto simp: env_open_def env_close_def dest!: split_str_length)
  then show "((f, rest), f, s) \<in> measure (\<lambda>(_, s). length s)" by simp
qed auto

declare resolve_env.simps [simp del]

definition is_sensitive_env_name :: "string \<Rightarrow> bool" where
  "is_sensitive_env_name name =
     list_ex (\<lambda>m. str_contains m (to_ascii_lowercase name))
       [''pass'', ''secret'', ''token'', ''key'', ''credential'']"

definition mask_env_value :: "string \<Rightarrow> string \<Rightarrow> string" where
  "mask_env_value name v =
     (if \<not> is_sensitive_env_name name then v
      else ''<set, '' @ show_nat (char_count v) @ '' chars>'')"

text \<open>A configuration text as its pieces. Literal pieces alternate with tokens: \<open>a0 T1 a1 T2 a2 ...\<close>\<close>

definition config_text :: "string \<Rightarrow> (string \<times> string) list \<Rightarrow> string" where
  "config_text a0 ts = a0 @ concat (map (\<lambda>(inner, a). env_open @ inner @ env_close @ a) ts)"

definition token_out :: "(string \<Rightarrow> string option) \<Rightarrow> string \<Rightarrow> string" where
  "token_out lookup inner =
     (case parse_env_token inner of Inl _ \<Rightarrow> [] | Inr (n, d) \<Rightarrow> token_value lookup n d)"

lemma env_markers: "borderless env_open" "env_open \<noteq> []" "env_close \<noteq> []"
  by code_simp+

lemma split_close:
  assumes "\<not> str_contains env_close (inner @ ''}'')"
  shows "split_str env_close (inner @ env_close @ r) = Some (inner, r)"
  using assms
proof (induction inner)
  case Nil
  then show ?case by (simp add: env_close_def starts_with_def)
next
  case (Cons c inner)
  have "\<not> starts_with env_close ((c # inner) @ env_close @ r)"
  proof
    assume h: "starts_with env_close ((c # inner) @ env_close @ r)"
    then have "starts_with env_close ((c # inner) @ ''}'')"
      by (cases inner) (auto simp: env_close_def starts_with_def)
    with Cons.prems show False by (auto simp: starts_with_def)
  qed
  moreover have "\<not> str_contains env_close (inner @ ''}'')" using Cons.prems by simp
  ultimately show ?case using Cons.IH by simp
qed

text \<open>
  Resolution replaces each token by its variable's value (or default) and copies the text
  between tokens. A value is never scanned again, so it cannot introduce tokens.
\<close>

lemma resolve_config_text:
  assumes "\<not> str_contains env_open a0"
    and "\<forall>(inner, a) \<in> set ts. \<not> str_contains env_open a \<and>
           \<not> str_contains env_close (inner @ ''}'') \<and> is_ok (parse_env_token inner)"
  shows "resolve_env lookup (config_text a0 ts) =
    Inr (a0 @ concat (map (\<lambda>(inner, a). token_out lookup inner @ a) ts),
         map (\<lambda>(inner, a). case parse_env_token inner of Inl _ \<Rightarrow> [] | Inr (n, d) \<Rightarrow> n) ts)"
  using assms
proof (induction ts arbitrary: a0)
  case Nil
  then have "split_str env_open a0 = None" by (simp add: split_str_None)
  then show ?case by (subst resolve_env.simps) (simp add: config_text_def)
next
  case (Cons t ts)
  obtain inner a where t: "t = (inner, a)" by (cases t)
  with Cons.prems have ok: "\<not> str_contains env_open a" "\<not> str_contains env_close (inner @ ''}'')"
    "is_ok (parse_env_token inner)"
    and rest: "\<forall>(inner, a) \<in> set ts. \<not> str_contains env_open a \<and>
           \<not> str_contains env_close (inner @ ''}'') \<and> is_ok (parse_env_token inner)"
    by auto
  from ok(3) obtain name dflt where p: "parse_env_token inner = Inr (name, dflt)"
    by (auto simp: is_ok_iff)
  have shape: "config_text a0 (t # ts) = a0 @ env_open @ (inner @ env_close @ config_text a ts)"
    by (simp add: config_text_def t)
  have "split_str env_open (config_text a0 (t # ts)) = Some (a0, inner @ env_close @ config_text a ts)"
    unfolding shape by (rule split_str_first [OF env_markers(1,2) Cons.prems(1)])
  moreover have "split_str env_close (inner @ env_close @ config_text a ts) = Some (inner, config_text a ts)"
    using ok(2) by (rule split_close)
  ultimately show ?case
    using Cons.IH [OF ok(1) rest] p
    by (subst resolve_env.simps) (simp add: t token_out_def)
qed

text \<open>A masked value shows its length only.\<close>

lemma mask_hides:
  "is_sensitive_env_name name \<Longrightarrow> char_count v = char_count w \<Longrightarrow>
   mask_env_value name v = mask_env_value name w"
  by (simp add: mask_env_value_def)

end
