(* ===== verification/Backup_File.thy ===== *)
theory Backup_File
  imports Validate Config Db_Backup
begin

text \<open>
  The backup document of \<open>src/src/service.rs\<close>: its records, the export of a snapshot
  (\<open>export_backup_yaml\<close>) and the validation of an untrusted document
  (\<open>backup_to_snapshot\<close>). YAML is serde's business: the model starts and ends with the
  parsed document. \<open>enc\<close> and \<open>dec\<close> are the base64 crate's encoder and decoder.
\<close>

record backup_template =
  bt_id :: string
  bt_name :: string
  bt_scope :: string
  bt_is_default :: bool
  bt_values :: template_values
  bt_created_at :: int
  bt_updated_at :: int

record backup_user =
  bu_id :: string
  bu_username :: string
  bu_password_hash :: string
  bu_role :: string
  bu_created_at :: int

record backup_ca_meta = subject_meta +
  bm_deleted :: bool
  bm_created_at :: int
  bm_updated_at :: int

record backup_ca_secrets =
  bs_cert_pem_b64 :: string
  bs_key_pem_b64 :: string
  bs_pkcs12_b64 :: string
  bs_password_b64 :: string
  bs_index_txt_b64 :: string
  bs_serial_txt_b64 :: string
  bs_crl_der_b64 :: string
  bs_crl_updated_at :: int
  bs_crlnumber_txt_b64 :: string

record backup_cert_meta = cert_meta +
  bn_deleted :: bool
  bn_created_at :: int
  bn_updated_at :: int

record backup_cert_secrets =
  bk_cert_pem_b64 :: string
  bk_key_pem_b64 :: string
  bk_csr_pem_b64 :: string
  bk_pkcs12_b64 :: string
  bk_password_b64 :: string
  bk_bundle_zip_b64 :: string

record backup_cert_doc =
  bd_meta :: backup_cert_meta
  bd_secrets :: backup_cert_secrets

record backup_ca_doc =
  ba_meta :: backup_ca_meta
  ba_secrets :: backup_ca_secrets
  ba_certificates :: "backup_cert_doc list"

record backup_file =
  bf_format_version :: nat
  bf_users :: "backup_user list"
  bf_templates :: "backup_template list"
  bf_cas :: "backup_ca_doc list"

definition backup_format_version :: nat where "backup_format_version = 1"

section \<open>Export\<close>

definition export_user :: "user_record \<Rightarrow> backup_user" where
  "export_user u =
     \<lparr>bu_id = u_id u, bu_username = u_username u, bu_password_hash = u_password_hash u,
      bu_role = u_role u, bu_created_at = u_created_at u\<rparr>"

definition export_template :: "template \<Rightarrow> backup_template" where
  "export_template t =
     \<lparr>bt_id = t_id t, bt_name = t_name t, bt_scope = t_scope t, bt_is_default = t_is_default t,
      bt_values = t_values t, bt_created_at = t_created_at t, bt_updated_at = t_updated_at t\<rparr>"

definition export_ca_secrets :: "(string \<Rightarrow> string) \<Rightarrow> ca_secrets \<Rightarrow> backup_ca_secrets" where
  "export_ca_secrets enc s =
     \<lparr>bs_cert_pem_b64 = enc (s_cert_pem s), bs_key_pem_b64 = enc (s_key_pem s),
      bs_pkcs12_b64 = enc (s_pkcs12 s), bs_password_b64 = enc (s_password s),
      bs_index_txt_b64 = enc (s_index_txt s), bs_serial_txt_b64 = enc (s_serial_txt s),
      bs_crl_der_b64 = enc (s_crl_der s), bs_crl_updated_at = s_crl_updated_at s,
      bs_crlnumber_txt_b64 = enc (s_crlnumber_txt s)\<rparr>"

definition export_cert_secrets :: "(string \<Rightarrow> string) \<Rightarrow> cert_secrets \<Rightarrow> backup_cert_secrets" where
  "export_cert_secrets enc k =
     \<lparr>bk_cert_pem_b64 = enc (k_cert_pem k), bk_key_pem_b64 = enc (k_key_pem k),
      bk_csr_pem_b64 = enc (k_csr_pem k), bk_pkcs12_b64 = enc (k_pkcs12 k),
      bk_password_b64 = enc (k_password k), bk_bundle_zip_b64 = enc (k_bundle_zip k)\<rparr>"

definition export_cert :: "(string \<Rightarrow> string) \<Rightarrow> backup_cert_row \<Rightarrow> backup_cert_doc" where
  "export_cert enc b =
     \<lparr>bd_meta = cert_meta.extend
        ((cert_meta.truncate (be_meta b))\<lparr>m_revoked_at := be_revoked_at b,
           m_revocation_reason := be_revocation_reason b\<rparr>)
        (backup_cert_meta.fields (be_deleted b) (be_created_at b) (be_updated_at b)),
      bd_secrets = export_cert_secrets enc (be_secrets b)\<rparr>"

definition export_ca ::
  "(string \<Rightarrow> string) \<Rightarrow> backup_ca_row \<times> backup_cert_row list \<Rightarrow> backup_ca_doc" where
  "export_ca enc p =
     \<lparr>ba_meta = subject_meta.extend (bc_meta (fst p))
        (backup_ca_meta.fields (bc_deleted (fst p)) (bc_created_at (fst p)) (bc_updated_at (fst p))),
      ba_secrets = export_ca_secrets enc (bc_secrets (fst p)),
      ba_certificates = map (export_cert enc) (snd p)\<rparr>"

definition export_backup :: "(string \<Rightarrow> string) \<Rightarrow> backup_snapshot \<Rightarrow> backup_file" where
  "export_backup enc s =
     \<lparr>bf_format_version = backup_format_version, bf_users = map export_user (sn_users s),
      bf_templates = map export_template (sn_templates s), bf_cas = map (export_ca enc) (sn_cas s)\<rparr>"

section \<open>Import\<close>

definition import_ca_secrets ::
  "(string \<Rightarrow> string result) \<Rightarrow> backup_ca_secrets \<Rightarrow> ca_secrets result" where
  "import_ca_secrets dec v =
     bind_res (dec (bs_cert_pem_b64 v)) (\<lambda>cert_pem.
     bind_res (dec (bs_key_pem_b64 v)) (\<lambda>key_pem.
     bind_res (dec (bs_pkcs12_b64 v)) (\<lambda>pkcs12.
     bind_res (dec (bs_password_b64 v)) (\<lambda>password.
     bind_res (dec (bs_index_txt_b64 v)) (\<lambda>index_txt.
     bind_res (dec (bs_serial_txt_b64 v)) (\<lambda>serial_txt.
     bind_res (if bs_crl_der_b64 v = [] then Inr [] else dec (bs_crl_der_b64 v)) (\<lambda>crl_der.
     bind_res (dec (bs_crlnumber_txt_b64 v)) (\<lambda>crlnumber_txt.
     Inr \<lparr>s_cert_pem = cert_pem, s_key_pem = key_pem, s_pkcs12 = pkcs12, s_password = password,
          s_index_txt = index_txt, s_serial_txt = serial_txt, s_crl_der = crl_der,
          s_crl_updated_at = bs_crl_updated_at v, s_crlnumber_txt = crlnumber_txt\<rparr>))))))))"

definition import_cert_secrets ::
  "(string \<Rightarrow> string result) \<Rightarrow> backup_cert_secrets \<Rightarrow> cert_secrets result" where
  "import_cert_secrets dec v =
     bind_res (dec (bk_cert_pem_b64 v)) (\<lambda>cert_pem.
     bind_res (dec (bk_key_pem_b64 v)) (\<lambda>key_pem.
     bind_res (dec (bk_csr_pem_b64 v)) (\<lambda>csr_pem.
     bind_res (dec (bk_pkcs12_b64 v)) (\<lambda>pkcs12.
     bind_res (dec (bk_password_b64 v)) (\<lambda>password.
     bind_res (dec (bk_bundle_zip_b64 v)) (\<lambda>bundle_zip.
     Inr \<lparr>k_cert_pem = cert_pem, k_key_pem = key_pem, k_csr_pem = csr_pem, k_pkcs12 = pkcs12,
          k_password = password, k_bundle_zip = bundle_zip\<rparr>))))))"

definition import_user :: "backup_user \<Rightarrow> user_record result" where
  "import_user u =
     bind_res
       (with_context (''backup user '' @ debug_str (bu_username u) @ '' has unknown role '' @
            debug_str (bu_role u)) (ok_or (External ''unknown role'') (role_parse (bu_role u)))) (\<lambda>role.
     if trim (bu_username u) = [] \<or> has_control (bu_username u)
     then Inl (Bail (''backup user '' @ debug_str (bu_id u) @ '' has an invalid username''))
     else Inr \<lparr>u_id = bu_id u, u_username = bu_username u, u_password_hash = bu_password_hash u,
               u_role = role_as_str role, u_created_at = bu_created_at u\<rparr>)"

definition import_template :: "backup_template \<Rightarrow> template result" where
  "import_template t =
     bind_res (validate_backup_id (bt_id t)) (\<lambda>_.
     bind_res
       (with_context (''backup template '' @ debug_str (bt_name t) @ '' has unknown scope '' @
            debug_str (bt_scope t)) (ok_or (External ''unknown scope'') (scope_parse (bt_scope t)))) (\<lambda>scope.
     bind_res
       (with_context (''backup template '' @ debug_str (bt_name t) @ '' is invalid'')
          (validate_template_values (bt_values t))) (\<lambda>vals.
     let name = trim (bt_name t) in
     if name = [] \<or> has_control name
     then Inl (Bail (''backup template '' @ debug_str (bt_id t) @ '' has an invalid name''))
     else Inr \<lparr>t_id = bt_id t, t_name = name, t_scope = scope_as_str scope,
               t_is_default = bt_is_default t, t_values = vals, t_created_at = bt_created_at t,
               t_updated_at = bt_updated_at t\<rparr>)))"

definition bad_san_entry :: "string \<Rightarrow> bool" where
  "bad_san_entry e \<longleftrightarrow> CHR '';'' \<in> set e \<or> has_control e"

definition check_reason :: "string \<Rightarrow> string option \<Rightarrow> unit result" where
  "check_reason cert_id reason =
     (case reason of None \<Rightarrow> Inr ()
      | Some r \<Rightarrow>
          bind_res
            (with_context (''backup certificate '' @ cert_id @ '' has an invalid revocation reason'')
               (normalize_revocation_reason r)) (\<lambda>_. Inr ()))"

definition import_cert ::
  "(string \<Rightarrow> string result) \<Rightarrow> string \<Rightarrow> backup_cert_doc \<Rightarrow> backup_cert_row result" where
  "import_cert dec ca_id c =
     (let m = bd_meta c; cert_id = m_id m; label = ''certificate '' @ cert_id in
      bind_res (validate_backup_id cert_id) (\<lambda>_.
      if m_ca_id m \<noteq> ca_id
      then Inl (Bail (''backup certificate '' @ cert_id @ '' claims CA '' @ m_ca_id m @
                  '' but is listed under CA '' @ ca_id))
      else case find bad_san_entry (m_dns_list m @ m_ip_list m) of
        Some e \<Rightarrow> Inl (Bail (''backup certificate '' @ cert_id @ '' has an invalid SAN entry '' @
                    debug_str e))
      | None \<Rightarrow>
          bind_res (check_reason cert_id (m_revocation_reason m)) (\<lambda>_.
          bind_res (with_context (''backup certificate '' @ cert_id @ '' has invalid base64 data'')
             (import_cert_secrets dec (bd_secrets c))) (\<lambda>secrets.
          bind_res (require_pem (k_cert_pem secrets) [''CERTIFICATE''] label) (\<lambda>_.
          bind_res (require_pem (k_key_pem secrets) [''PRIVATE KEY''] (label @ '' private key'')) (\<lambda>_.
          bind_res (require_pem (k_csr_pem secrets) [''CERTIFICATE REQUEST''] (label @ '' CSR'')) (\<lambda>_.
          Inr \<lparr>be_meta = cert_meta.truncate m, be_secrets = secrets, be_deleted = bn_deleted m,
               be_revoked_at = m_revoked_at m, be_revocation_reason = m_revocation_reason m,
               be_created_at = bn_created_at m, be_updated_at = bn_updated_at m\<rparr>)))))))"

definition import_ca ::
  "(string \<Rightarrow> string result) \<Rightarrow> backup_ca_doc \<Rightarrow> (backup_ca_row \<times> backup_cert_row list) result"
where
  "import_ca dec ca =
     (let m = ba_meta ca; ca_id = m_id m in
      bind_res (validate_backup_id ca_id) (\<lambda>_.
      bind_res (with_context (''backup CA '' @ ca_id @ '' has invalid base64 data'')
         (import_ca_secrets dec (ba_secrets ca))) (\<lambda>secrets.
      bind_res (require_pem (s_cert_pem secrets) [''CERTIFICATE''] (''CA '' @ ca_id @ '' certificate'')) (\<lambda>_.
      bind_res (require_pem (s_key_pem secrets) [''PRIVATE KEY''] (''CA '' @ ca_id @ '' private key'')) (\<lambda>_.
      bind_res (require_hex_state (s_serial_txt secrets) False (''CA '' @ ca_id @ '' serial'')) (\<lambda>_.
      bind_res (require_hex_state (s_crlnumber_txt secrets) True (''CA '' @ ca_id @ '' CRL number'')) (\<lambda>_.
      bind_res (map_res (import_cert dec ca_id) (ba_certificates ca)) (\<lambda>certs.
      Inr (\<lparr>bc_meta = subject_meta.truncate m, bc_secrets = secrets, bc_deleted = bm_deleted m,
            bc_created_at = bm_created_at m, bc_updated_at = bm_updated_at m\<rparr>, certs)))))))))"

definition backup_to_snapshot :: "(string \<Rightarrow> string result) \<Rightarrow> backup_file \<Rightarrow> backup_snapshot result" where
  "backup_to_snapshot dec b =
     bind_res (map_res import_user (bf_users b)) (\<lambda>us.
     bind_res (map_res import_template (bf_templates b)) (\<lambda>ts.
     bind_res (map_res (import_ca dec) (bf_cas b)) (\<lambda>cas.
     Inr \<lparr>sn_users = us, sn_templates = ts, sn_cas = cas\<rparr>)))"

text \<open>\<open>import_backup_yaml\<close> from the parsed document on, up to the restored database.\<close>

definition import_backup ::
  "(string \<Rightarrow> string result) \<Rightarrow> int \<Rightarrow> backup_file \<Rightarrow> db \<Rightarrow> db result" where
  "import_backup dec now b d =
     (if bf_format_version b \<noteq> backup_format_version
      then Inl (Bail (''unsupported backup format version '' @ show_nat (bf_format_version b)))
      else bind_res (backup_to_snapshot dec b) (\<lambda>s. restore_backup now s d))"

section \<open>What the import accepts\<close>

definition user_valid :: "user_record \<Rightarrow> bool" where
  "user_valid u \<longleftrightarrow>
     (\<exists>r \<in> {Admin, Viewer}. u_role u = role_as_str r) \<and> trim (u_username u) \<noteq> [] \<and>
     \<not> has_control (u_username u)"

definition template_valid :: "template \<Rightarrow> bool" where
  "template_valid t \<longleftrightarrow>
     validate_backup_id (t_id t) = Inr () \<and>
     (\<exists>s \<in> {Both, Ca, Certificate}. t_scope t = scope_as_str s) \<and>
     template_values_ok (t_values t) \<and> trim (t_name t) = t_name t \<and> t_name t \<noteq> [] \<and>
     \<not> has_control (t_name t)"

definition cert_valid :: "string \<Rightarrow> backup_cert_row \<Rightarrow> bool" where
  "cert_valid i b \<longleftrightarrow>
     validate_backup_id (m_id (be_meta b)) = Inr () \<and> m_ca_id (be_meta b) = i \<and>
     list_all (\<lambda>e. \<not> bad_san_entry e) (m_dns_list (be_meta b) @ m_ip_list (be_meta b)) \<and>
     (case be_revocation_reason b of None \<Rightarrow> True
      | Some r \<Rightarrow> is_ok (normalize_revocation_reason r)) \<and>
     is_ok (require_pem (k_cert_pem (be_secrets b)) [''CERTIFICATE''] []) \<and>
     is_ok (require_pem (k_key_pem (be_secrets b)) [''PRIVATE KEY''] []) \<and>
     is_ok (require_pem (k_csr_pem (be_secrets b)) [''CERTIFICATE REQUEST''] []) \<and>
     m_revoked_at (be_meta b) = be_revoked_at b \<and>
     m_revocation_reason (be_meta b) = be_revocation_reason b"

definition ca_valid :: "backup_ca_row \<times> backup_cert_row list \<Rightarrow> bool" where
  "ca_valid p \<longleftrightarrow>
     validate_backup_id (m_id (bc_meta (fst p))) = Inr () \<and>
     is_ok (require_pem (s_cert_pem (bc_secrets (fst p))) [''CERTIFICATE''] []) \<and>
     is_ok (require_pem (s_key_pem (bc_secrets (fst p))) [''PRIVATE KEY''] []) \<and>
     is_ok (require_hex_state (s_serial_txt (bc_secrets (fst p))) False []) \<and>
     is_ok (require_hex_state (s_crlnumber_txt (bc_secrets (fst p))) True []) \<and>
     list_all (cert_valid (m_id (bc_meta (fst p)))) (snd p)"

definition snapshot_valid :: "backup_snapshot \<Rightarrow> bool" where
  "snapshot_valid s \<longleftrightarrow>
     list_all user_valid (sn_users s) \<and> list_all template_valid (sn_templates s) \<and>
     list_all ca_valid (sn_cas s)"

text \<open>Whether a check passes does not depend on how the message names its subject.\<close>

lemma require_pem_label: "require_pem b ls w = Inr () \<longleftrightarrow> is_ok (require_pem b ls w')"
  by (simp add: require_pem_def Let_def)

lemma require_hex_label: "require_hex_state b e w = Inr () \<longleftrightarrow> is_ok (require_hex_state b e w')"
  by (simp add: require_hex_state_def Let_def)

lemma check_reason_Inr:
  "check_reason i reason = Inr u \<longleftrightarrow>
     (case reason of None \<Rightarrow> True | Some r \<Rightarrow> is_ok (normalize_revocation_reason r))"
  by (auto simp: check_reason_def is_ok_iff res_simps split: option.splits)

lemma san_ok: "find bad_san_entry es = None \<longleftrightarrow> list_all (\<lambda>e. \<not> bad_san_entry e) es"
  by (simp add: find_None_D list_all_iff)

lemma import_user_sound: "import_user u = Inr r \<Longrightarrow> user_valid r"
proof -
  assume h: "import_user u = Inr r"
  then obtain ro where "u_role r = role_as_str ro" "trim (u_username r) \<noteq> []"
    "\<not> has_control (u_username r)"
    by (auto simp: import_user_def res_simps)
  then show ?thesis unfolding user_valid_def by (cases ro) auto
qed

lemma import_template_sound: "import_template b = Inr t \<Longrightarrow> template_valid t"
proof -
  assume "import_template b = Inr t"
  then obtain sc vals where h: "validate_backup_id (bt_id b) = Inr ()"
    "validate_template_values (bt_values b) = Inr vals"
    "trim (bt_name b) \<noteq> []" "\<not> has_control (trim (bt_name b))"
    "t = \<lparr>t_id = bt_id b, t_name = trim (bt_name b), t_scope = scope_as_str sc,
          t_is_default = bt_is_default b, t_values = vals, t_created_at = bt_created_at b,
          t_updated_at = bt_updated_at b\<rparr>"
    by (auto simp: import_template_def res_simps Let_def)
  with template_values_sound [OF h(2)] show ?thesis
    unfolding template_valid_def by (cases sc) auto
qed

lemma truncate_cert_sel [simp]:
  "m_id (cert_meta.truncate m) = m_id m" "m_ca_id (cert_meta.truncate m) = m_ca_id m"
  "m_dns_list (cert_meta.truncate m) = m_dns_list m" "m_ip_list (cert_meta.truncate m) = m_ip_list m"
  "m_revoked_at (cert_meta.truncate m) = m_revoked_at m"
  "m_revocation_reason (cert_meta.truncate m) = m_revocation_reason m"
  by (simp_all add: cert_meta.defs)

lemma import_cert_sound: "import_cert dec i c = Inr b \<Longrightarrow> cert_valid i b"
proof -
  let ?m = "bd_meta c"
  assume h: "import_cert dec i c = Inr b"
  then have "find bad_san_entry (m_dns_list ?m @ m_ip_list ?m) = None" "m_ca_id ?m = i"
    by (auto simp: import_cert_def Let_def res_simps split: option.splits)
  with h obtain k where
    "validate_backup_id (m_id ?m) = Inr ()" "check_reason (m_id ?m) (m_revocation_reason ?m) = Inr ()"
    "is_ok (require_pem (k_cert_pem k) [''CERTIFICATE''] [])"
    "is_ok (require_pem (k_key_pem k) [''PRIVATE KEY''] [])"
    "is_ok (require_pem (k_csr_pem k) [''CERTIFICATE REQUEST''] [])"
    "b = \<lparr>be_meta = cert_meta.truncate ?m, be_secrets = k, be_deleted = bn_deleted ?m,
          be_revoked_at = m_revoked_at ?m, be_revocation_reason = m_revocation_reason ?m,
          be_created_at = bn_created_at ?m, be_updated_at = bn_updated_at ?m\<rparr>"
    by (auto simp: import_cert_def Let_def res_simps require_pem_label [where w' = "[]"])
  with \<open>find _ _ = None\<close> \<open>m_ca_id ?m = i\<close> show ?thesis
    by (simp add: cert_valid_def san_ok check_reason_Inr)
qed

lemma truncate_subject_sel [simp]: "m_id (subject_meta.truncate m) = m_id m"
  by (simp add: subject_meta.defs)

lemma import_ca_sound: "import_ca dec c = Inr p \<Longrightarrow> ca_valid p"
proof -
  let ?m = "ba_meta c"
  assume "import_ca dec c = Inr p"
  then obtain s certs where h:
    "validate_backup_id (m_id ?m) = Inr ()" "is_ok (require_pem (s_cert_pem s) [''CERTIFICATE''] [])"
    "is_ok (require_pem (s_key_pem s) [''PRIVATE KEY''] [])"
    "is_ok (require_hex_state (s_serial_txt s) False [])"
    "is_ok (require_hex_state (s_crlnumber_txt s) True [])"
    "map_res (import_cert dec (m_id ?m)) (ba_certificates c) = Inr certs"
    "p = (\<lparr>bc_meta = subject_meta.truncate ?m, bc_secrets = s, bc_deleted = bm_deleted ?m,
           bc_created_at = bm_created_at ?m, bc_updated_at = bm_updated_at ?m\<rparr>, certs)"
    by (auto simp: import_ca_def Let_def res_simps require_pem_label [where w' = "[]"]
        require_hex_label [where w' = "[]"])
  have "list_all (cert_valid (m_id ?m)) certs"
    using h(6) by (rule map_res_all) (rule import_cert_sound)
  with h show ?thesis by (simp add: ca_valid_def)
qed

lemma backup_to_snapshot_sound:
  assumes "backup_to_snapshot dec b = Inr s"
  shows "snapshot_valid s"
proof -
  from assms have m: "map_res import_user (bf_users b) = Inr (sn_users s)"
    "map_res import_template (bf_templates b) = Inr (sn_templates s)"
    "map_res (import_ca dec) (bf_cas b) = Inr (sn_cas s)"
    by (auto simp: backup_to_snapshot_def res_simps)
  show ?thesis
    unfolding snapshot_valid_def
  proof (intro conjI)
    show "list_all user_valid (sn_users s)"
      using m(1) by (rule map_res_all) (rule import_user_sound)
    show "list_all template_valid (sn_templates s)"
      using m(2) by (rule map_res_all) (rule import_template_sound)
    show "list_all ca_valid (sn_cas s)"
      using m(3) by (rule map_res_all) (rule import_ca_sound)
  qed
qed

text \<open>So the restore never meets a certificate listed under another CA.\<close>

lemma snapshot_valid_match: "snapshot_valid s \<Longrightarrow> cas_match (sn_cas s)"
  by (auto simp: snapshot_valid_def ca_valid_def cert_valid_def cas_match_def cert_matches_def
      list_all_iff)

section \<open>Export and import are inverse\<close>

lemma import_export_user: "user_valid u \<Longrightarrow> import_user (export_user u) = Inr u"
proof -
  assume u: "user_valid u"
  then obtain r where r: "u_role u = role_as_str r" unfolding user_valid_def by blast
  with u show ?thesis by (simp add: import_user_def export_user_def r user_valid_def)
qed

lemma import_export_template: "template_valid t \<Longrightarrow> import_template (export_template t) = Inr t"
proof -
  assume t: "template_valid t"
  then obtain sc where sc: "t_scope t = scope_as_str sc" unfolding template_valid_def by blast
  with t show ?thesis
    by (simp add: import_template_def export_template_def sc template_valid_def
        template_values_complete Let_def)
qed

text \<open>The codec is sound: decoding undoes encoding, as the base64 crate documents.\<close>

definition codec :: "(string \<Rightarrow> string) \<Rightarrow> (string \<Rightarrow> string result) \<Rightarrow> bool" where
  "codec enc dec \<longleftrightarrow> (\<forall>x. dec (enc x) = Inr x) \<and> enc [] = []"

lemma import_export_secrets:
  assumes "codec enc dec"
  shows "import_ca_secrets dec (export_ca_secrets enc s) = Inr s"
    and "import_cert_secrets dec (export_cert_secrets enc k) = Inr k"
proof -
  have d: "dec (enc x) = Inr x" for x using assms by (simp add: codec_def)
  have c: "x = []" if "enc x = []" for x
    using that d [of x] d [of "[]"] assms unfolding codec_def by (metis sum.inject(2))
  show "import_ca_secrets dec (export_ca_secrets enc s) = Inr s"
    by (simp add: import_ca_secrets_def export_ca_secrets_def d)
      (auto dest!: c intro!: ca_secrets.equality)
  show "import_cert_secrets dec (export_cert_secrets enc k) = Inr k"
    by (simp add: import_cert_secrets_def export_cert_secrets_def d)
qed

lemma export_cert_sel [simp]:
  "m_id (bd_meta (export_cert enc b)) = m_id (be_meta b)"
  "m_ca_id (bd_meta (export_cert enc b)) = m_ca_id (be_meta b)"
  "m_dns_list (bd_meta (export_cert enc b)) = m_dns_list (be_meta b)"
  "m_ip_list (bd_meta (export_cert enc b)) = m_ip_list (be_meta b)"
  "m_revoked_at (bd_meta (export_cert enc b)) = be_revoked_at b"
  "m_revocation_reason (bd_meta (export_cert enc b)) = be_revocation_reason b"
  "bn_deleted (bd_meta (export_cert enc b)) = be_deleted b"
  "bn_created_at (bd_meta (export_cert enc b)) = be_created_at b"
  "bn_updated_at (bd_meta (export_cert enc b)) = be_updated_at b"
  "bd_secrets (export_cert enc b) = export_cert_secrets enc (be_secrets b)"
  by (simp_all add: export_cert_def cert_meta.defs backup_cert_meta.defs)

lemma truncate_export_cert:
  "m_revoked_at (be_meta b) = be_revoked_at b \<Longrightarrow>
   m_revocation_reason (be_meta b) = be_revocation_reason b \<Longrightarrow>
   cert_meta.truncate (bd_meta (export_cert enc b)) = be_meta b"
  by (simp add: export_cert_def cert_meta.defs backup_cert_meta.defs)

lemma import_export_cert:
  assumes "codec enc dec" and "cert_valid i b"
  shows "import_cert dec i (export_cert enc b) = Inr b"
proof -
  have pems: "require_pem (k_cert_pem (be_secrets b)) [''CERTIFICATE''] w = Inr ()"
    "require_pem (k_key_pem (be_secrets b)) [''PRIVATE KEY''] w = Inr ()"
    "require_pem (k_csr_pem (be_secrets b)) [''CERTIFICATE REQUEST''] w = Inr ()" for w
    using assms(2) by (auto simp: cert_valid_def require_pem_label [where w' = "[]"])
  have reason: "check_reason w (be_revocation_reason b) = Inr ()" for w
    using assms(2) by (simp add: cert_valid_def check_reason_Inr)
  have san: "find bad_san_entry (m_dns_list (be_meta b) @ m_ip_list (be_meta b)) = None"
    using assms(2) by (simp add: cert_valid_def san_ok)
  have trunc: "cert_meta.truncate (bd_meta (export_cert enc b)) = be_meta b"
    using assms(2) by (intro truncate_export_cert) (simp_all add: cert_valid_def)
  show ?thesis
    using assms(2)
    by (simp add: import_cert_def Let_def pems reason san trunc cert_valid_def
        import_export_secrets(2) [OF assms(1)])
qed

lemma export_ca_sel [simp]:
  "m_id (ba_meta (export_ca enc p)) = m_id (bc_meta (fst p))"
  "bm_deleted (ba_meta (export_ca enc p)) = bc_deleted (fst p)"
  "bm_created_at (ba_meta (export_ca enc p)) = bc_created_at (fst p)"
  "bm_updated_at (ba_meta (export_ca enc p)) = bc_updated_at (fst p)"
  "subject_meta.truncate (ba_meta (export_ca enc p)) = bc_meta (fst p)"
  "ba_secrets (export_ca enc p) = export_ca_secrets enc (bc_secrets (fst p))"
  "ba_certificates (export_ca enc p) = map (export_cert enc) (snd p)"
  by (simp_all add: export_ca_def subject_meta.defs backup_ca_meta.defs)

lemma import_export_ca:
  assumes "codec enc dec" and "ca_valid p"
  shows "import_ca dec (export_ca enc p) = Inr p"
proof -
  let ?s = "bc_secrets (fst p)"
  have checks: "require_pem (s_cert_pem ?s) [''CERTIFICATE''] w = Inr ()"
    "require_pem (s_key_pem ?s) [''PRIVATE KEY''] w = Inr ()"
    "require_hex_state (s_serial_txt ?s) False w = Inr ()"
    "require_hex_state (s_crlnumber_txt ?s) True w = Inr ()" for w
    using assms(2)
    by (auto simp: ca_valid_def require_pem_label [where w' = "[]"] require_hex_label [where w' = "[]"])
  have "map_res (import_cert dec (m_id (bc_meta (fst p)))) (map (export_cert enc) (snd p)) = Inr (snd p)"
    using assms by (intro map_res_map_id import_export_cert) (auto simp: ca_valid_def list_all_iff)
  then show ?thesis
    using assms(2)
    by (simp add: import_ca_def Let_def checks ca_valid_def import_export_secrets(1) [OF assms(1)] prod_eq_iff)
qed

lemma import_export:
  assumes "codec enc dec" and "snapshot_valid s"
  shows "backup_to_snapshot dec (export_backup enc s) = Inr s"
proof -
  have "map_res import_user (map export_user (sn_users s)) = Inr (sn_users s)"
    "map_res import_template (map export_template (sn_templates s)) = Inr (sn_templates s)"
    "map_res (import_ca dec) (map (export_ca enc) (sn_cas s)) = Inr (sn_cas s)"
    using assms
    by (auto intro!: map_res_map_id import_export_user import_export_template import_export_ca
        simp: snapshot_valid_def list_all_iff)
  then show ?thesis by (simp add: backup_to_snapshot_def export_backup_def)
qed

text \<open>Backing up and restoring through the document.\<close>

lemma import_exported:
  assumes "codec enc dec" and "snapshot_valid (take_snapshot d)" and "schema_ok d"
  shows "import_backup dec now (export_backup enc (take_snapshot d)) empty_db =
    Inr (restored_db now (take_snapshot d))"
proof -
  have "restore_backup now (take_snapshot d) empty_db = Inr (restored_db now (take_snapshot d))"
    by (simp add: restore_backup_Inr [OF schema_ok_empty] snapshot_is_ok [OF assms(3)])
  then show ?thesis
    using import_export [OF assms(1,2)] by (simp add: import_backup_def export_backup_def)
qed

end
