(* ===== verification/Accounts.thy ===== *)
theory Accounts
  imports Backup_File
begin

text \<open>
  Users and templates in the service layer (\<open>create_user\<close>, \<open>create_template\<close>,
  \<open>update_template\<close>, \<open>templates_for\<close> and their checks in \<open>src/src/service.rs\<close>).
  \<open>hash\<close> is bcrypt, \<open>i\<close> the fresh UUID of the new row, \<open>now\<close> the clock.
\<close>

definition list_users :: "db \<Rightarrow> user_view list" where
  "list_users d =
     map (\<lambda>u. \<lparr>uv_id = u_id u, uv_username = u_username u, uv_role = u_role u,
               uv_created_at = u_created_at u\<rparr>) (db_list_users d)"

definition create_user ::
  "string list \<Rightarrow> (string \<Rightarrow> string result) \<Rightarrow> string \<Rightarrow> int \<Rightarrow> create_user_request \<Rightarrow> db \<Rightarrow> db result"
where
  "create_user reserved hash i now req d =
     (let username = trim (cu_username req) in
      if username = [] then Inl (Bail ''username must not be empty'')
      else if length (cu_password req) < 6
      then Inl (Bail ''password must be at least 6 characters'')
      else bind_res
        (with_context (''role must be '' @ quoted ''admin'' @ '' or '' @ quoted ''viewer'')
          (ok_or (External ''unknown role'') (role_parse (cu_role req)))) (\<lambda>role.
        if username \<in> set reserved
        then Inl (Bail (''username is reserved by a bootstrap account: '' @ username))
        else if find_user username d \<noteq> None
        then Inl (Bail (''username already exists: '' @ username))
        else bind_res (with_context ''failed to hash password'' (hash (cu_password req))) (\<lambda>h.
             insert_user now i username h (role_as_str role) d)))"

definition service_get_template :: "string \<Rightarrow> db \<Rightarrow> template result" where
  "service_get_template i d = ok_or (Bail (''template not found: '' @ i)) (db_get_template i d)"

definition templates_for :: "template_scope \<Rightarrow> db \<Rightarrow> template option \<times> template list" where
  "templates_for kind d =
     (let presets = filter (\<lambda>t. scope_covers (template_scope_of t) kind) (query_templates d)
      in (find t_is_default presets, presets))"

definition request_scope :: "string option \<Rightarrow> template_scope result" where
  "request_scope v =
     (case v of
        None \<Rightarrow> Inr Both
      | Some s \<Rightarrow>
          if trim s = [] then Inr Both
          else ok_or (Bail (''scope must be '' @ quoted ''both'' @ '', '' @ quoted ''ca'' @ '' or '' @
                 quoted ''certificate'')) (scope_parse (trim s)))"

definition validate_template :: "template_request \<Rightarrow> string \<Rightarrow> int \<Rightarrow> int \<Rightarrow> db \<Rightarrow> template result" where
  "validate_template req i created_at updated_at d =
     (let name = trim (tr_name req) in
      if name = [] then Inl (Bail ''template name must not be empty'')
      else if 100 < char_count name \<or> has_control name
      then Inl (Bail ''template name must be at most 100 characters without control characters'')
      else if template_name_taken name (Some i) d
      then Inl (Bail (''template name already exists: '' @ name))
      else bind_res (request_scope (tr_scope req)) (\<lambda>scope.
           bind_res (validate_template_values (tr_values req)) (\<lambda>vals.
           Inr \<lparr>t_id = i, t_name = name, t_scope = scope_as_str scope,
                t_is_default = tr_is_default req, t_values = vals, t_created_at = created_at,
                t_updated_at = updated_at\<rparr>)))"

definition create_template ::
  "string \<Rightarrow> int \<Rightarrow> template_request \<Rightarrow> db \<Rightarrow> (template \<times> db) result" where
  "create_template i now req d =
     bind_res (validate_template req i now now d) (\<lambda>t.
     bind_res (save_template t True d) (\<lambda>d'. Inr (t, d')))"

definition update_template ::
  "string \<Rightarrow> int \<Rightarrow> template_request \<Rightarrow> db \<Rightarrow> (template \<times> db) result" where
  "update_template i now req d =
     bind_res (service_get_template i d) (\<lambda>old.
     bind_res (validate_template req (t_id old) (t_created_at old) now d) (\<lambda>t.
     bind_res (save_template t False d) (\<lambda>d'. Inr (t, d'))))"

section \<open>Users\<close>

text \<open>When a user is created, and what is stored: never the password itself.\<close>

lemma create_user_Inr:
  "create_user reserved hash i now req d = Inr d' \<longleftrightarrow>
     (\<exists>role h. trim (cu_username req) \<noteq> [] \<and> 6 \<le> length (cu_password req) \<and>
        role_parse (cu_role req) = Some role \<and> hash (cu_password req) = Inr h \<and>
        trim (cu_username req) \<notin> set reserved \<and>
        insert_user now i (trim (cu_username req)) h (role_as_str role) d = Inr d')"
proof -
  have free: "insert_user now i u h r d = Inr d' \<Longrightarrow> find_user u d = None" for u h r
    by (auto simp: insert_user_Inr find_user_def find_None_D image_iff)
  show ?thesis
    unfolding create_user_def Let_def
    by (auto simp: res_simps not_less dest: free)
qed

lemma create_user_findable:
  assumes "create_user reserved hash i now req d = Inr d'"
  obtains role h where "role_parse (cu_role req) = Some role" and "hash (cu_password req) = Inr h"
    and "find_user (trim (cu_username req)) d' =
      Some \<lparr>u_id = i, u_username = trim (cu_username req), u_password_hash = h,
            u_role = role_as_str role, u_created_at = now\<rparr>"
    and "trim (cu_username req) \<notin> set reserved"
proof -
  from assms obtain role h where r: "role_parse (cu_role req) = Some role"
    "hash (cu_password req) = Inr h" "trim (cu_username req) \<notin> set reserved"
    "insert_user now i (trim (cu_username req)) h (role_as_str role) d = Inr d'"
    by (auto simp: create_user_Inr)
  from find_inserted_user(1) [OF r(4)] show ?thesis by (rule that [OF r(1,2) _ r(3)])
qed

section \<open>Templates\<close>

lemma template_name_taken_iff:
  "template_name_taken name (Some i) d \<longleftrightarrow>
     (\<exists>t \<in> set (templates d). nocase (t_name t) = nocase name \<and> t_id t \<noteq> i)"
  by (simp add: template_name_taken_def table_simps)

lemma validate_template_Inr_D:
  assumes "validate_template req i c u d = Inr t"
  shows "t_id t = i" and "t_created_at t = c" and "t_updated_at t = u"
    and "t_name t = trim (tr_name req)" and "t_name t \<noteq> []" and "\<not> has_control (t_name t)"
    and "\<not> template_name_taken (t_name t) (Some i) d" and "template_values_ok (t_values t)"
    and "\<exists>s. t_scope t = scope_as_str s" and "t_is_default t = tr_is_default req"
  using assms template_values_sound
  by (auto simp: validate_template_def Let_def res_simps)

text \<open>A stored template that passed validation survives a backup.\<close>

lemma validated_template_valid:
  assumes "validate_template req i c u d = Inr t" and "validate_backup_id i = Inr ()"
  shows "template_valid t"
proof -
  note D = validate_template_Inr_D [OF assms(1)]
  from D(9) obtain s where "t_scope t = scope_as_str s" by blast
  moreover have "s \<in> {Both, Ca, Certificate}" by (cases s) simp_all
  ultimately show ?thesis
    using D(1,4,5,6,8) assms(2) unfolding template_valid_def by auto
qed

text \<open>
  The name check makes the write succeed: an update of a template that passed validation
  is never refused by the unique index.
\<close>

lemma update_template_succeeds:
  assumes "schema_ok d" and "db_get_template i d = Some old"
    and "validate_template req i (t_created_at old) now d = Inr t"
  shows "\<exists>d'. update_template i now req d = Inr (t, d')"
proof -
  note D = validate_template_Inr_D [OF assms(3)]
  have old: "old \<in> set (templates d)" "t_id old = i"
    using assms(2) by (auto simp: db_get_template_def dest!: find_Some_iff_D)
  have ids: "distinct (map t_id (templates d))" using assms(1) by (simp add: schema_defs)
  have "\<exists>x \<in> set (templates (clear_displaced t d)). t_id x = t_id t"
    using clear_displaced_keys(1) [OF ids, of t] old D(1) by (metis (no_types) image_iff set_map)
  moreover have "\<forall>x \<in> set (templates (clear_displaced t d)). t_id x \<noteq> t_id t \<longrightarrow>
      nocase (t_name x) \<noteq> nocase (t_name t)"
    using D(1,7) unfolding template_name_taken_iff clear_displaced_templates [OF ids] by auto
  ultimately obtain d' where "update_template_row t (clear_displaced t d) = Inr d'"
    unfolding update_template_Inr by blast
  then show ?thesis
    using assms old
    by (simp add: update_template_def service_get_template_def save_template_def Let_def)
qed

lemma templates_for_default:
  assumes "fst (templates_for kind d) = Some t"
  shows "t \<in> set (templates d)" and "t_is_default t" and "scope_covers (template_scope_of t) kind"
proof -
  have "t \<in> set (filter (\<lambda>t. scope_covers (template_scope_of t) kind) (query_templates d)) \<and> t_is_default t"
    using assms by (auto simp: templates_for_def Let_def dest!: find_Some_iff_D)
  then show "t \<in> set (templates d)" "t_is_default t" "scope_covers (template_scope_of t) kind"
    by (simp_all add: query_templates_def)
qed

text \<open>With at most one default per form, the default offered is the one there is.\<close>

lemma templates_for_the_default:
  assumes "schema_ok d" and "one_default d" and "kind \<in> {Ca, Certificate}"
    and "t \<in> set (templates d)" and "t_is_default t" and "scope_covers (template_scope_of t) kind"
  shows "fst (templates_for kind d) = Some t"
proof -
  have ids: "distinct (map t_id (templates d))" using assms(1) by (simp add: schema_defs)
  obtain x where x: "fst (templates_for kind d) = Some x"
    using assms(4-6)
    by (cases "fst (templates_for kind d)")
      (auto simp: templates_for_def Let_def find_None_D query_templates_def)
  note X = templates_for_default [OF x]
  have "scope_overlaps (template_scope_of x) (template_scope_of t)"
    using X(3) assms(3,6) unfolding scope_overlaps_iff_common_form by blast
  then have "t_id x = t_id t"
    using assms(2,4,5) X(1,2) unfolding one_default_iff [OF ids] by blast
  then have "x = t" using ids X(1) assms(4) by (auto simp: distinct_map inj_on_def)
  then show ?thesis using x by simp
qed

end
