(* ===== verification/Claims_Data.thy ===== *)
theory Claims_Data
  imports Samples
begin

text \<open>
  The properties of the data layer: subjects, validation, file names, configuration
  tokens, users and templates. Each is stated over the definitions of the component
  theories and rests on their lemmas.
\<close>

section \<open>Subjects\<close>

text \<open>
  C11. \<open>create_subject\<close> accepts exactly requests with a common name, country and
  organization and without control characters, and its result is unambiguous: it is the
  rendering of the request's fields, and no other list of fields with plain keys renders to
  the same text. So no value can forge another attribute of the subject.
\<close>

theorem subject_unambiguous:
  "create_subject cn c org st l ou = Inr s \<longleftrightarrow>
     trim cn \<noteq> [] \<and> trim c \<noteq> [] \<and> trim org \<noteq> [] \<and>
     list_all (\<lambda>v. \<not> has_control v) [cn, c, org, st, l, ou] \<and>
     (\<forall>attrs. list_all (\<lambda>p. plain_key (fst p)) attrs \<and> slash_subject attrs = Some s \<longleftrightarrow>
        attrs = subject_fields cn c org st l ou)"
proof -
  let ?f = "subject_fields cn c org st l ou"
  have plain: "\<forall>p \<in> set ?f. plain_key (fst p)" using subject_fields_plain by blast
  have "slash_subject ?f = Some s \<longleftrightarrow>
      (\<forall>attrs. list_all (\<lambda>p. plain_key (fst p)) attrs \<and> slash_subject attrs = Some s \<longleftrightarrow> attrs = ?f)"
  proof
    assume f: "slash_subject ?f = Some s"
    show "\<forall>attrs. list_all (\<lambda>p. plain_key (fst p)) attrs \<and> slash_subject attrs = Some s \<longleftrightarrow> attrs = ?f"
    proof (intro allI iffI)
      fix attrs assume a: "list_all (\<lambda>p. plain_key (fst p)) attrs \<and> slash_subject attrs = Some s"
      then have "concat (map slash_attribute attrs) = concat (map slash_attribute ?f)"
        using f by (auto simp: slash_subject_def split: if_splits)
      with a plain show "attrs = ?f" by (intro slash_subject_inj) (auto simp: list_all_iff)
    next
      fix attrs assume "attrs = ?f"
      with f plain show "list_all (\<lambda>p. plain_key (fst p)) attrs \<and> slash_subject attrs = Some s"
        by (simp add: list_all_iff)
    qed
  qed blast
  then show ?thesis unfolding create_subject_Inr by (simp add: list_all_iff)
qed

lemma subject_unambiguous_witness:
  "create_subject ''a+CN=b'' ''SG'' ''Org'' '''' '''' '''' =
     Inr (''/C=SG/O=Org/CN=a'' @ [BS] @ ''+CN'' @ [BS] @ ''=b'') \<longleftrightarrow>
   trim ''a+CN=b'' \<noteq> [] \<and> trim ''SG'' \<noteq> [] \<and> trim ''Org'' \<noteq> [] \<and>
     list_all (\<lambda>v. \<not> has_control v) [''a+CN=b'', ''SG'', ''Org'', '''', '''', ''''] \<and>
     (\<forall>attrs. list_all (\<lambda>p. plain_key (fst p)) attrs \<and>
        slash_subject attrs = Some (''/C=SG/O=Org/CN=a'' @ [BS] @ ''+CN'' @ [BS] @ ''=b'') \<longleftrightarrow>
        attrs = subject_fields ''a+CN=b'' ''SG'' ''Org'' '''' '''' '''')"
  by (rule subject_unambiguous)

text \<open>
  When decoding a value undoes its escaping: for a text in UTF-8, exactly when no
  \<open>+\<close> of it stands before a hexadecimal digit.
\<close>

theorem unescape_escape:
  assumes "valid_utf8 v"
  shows "unescape_dn_value (escape_subject v) = v \<longleftrightarrow> plus_free v"
  using assms by (rule unescape_escape_iff)

lemma unescape_escape_witness:
  "(unescape_dn_value (escape_subject ''Acme / R+S = x'') = ''Acme / R+S = x'' \<longleftrightarrow> plus_free ''Acme / R+S = x'') \<and>
   plus_free ''Acme / R+S = x'' \<and> \<not> plus_free ''A+B''"
proof -
  have "valid_utf8 ''Acme / R+S = x''" by code_simp
  from unescape_escape [OF this] show ?thesis
    by (intro conjI) (assumption | code_simp)+
qed

text \<open>
  The exception is real: \<open>u8::from_str_radix\<close> accepts a sign, so an escaped plus
  before a hexadecimal digit is decoded as one control byte, and the organization
  \<open>A+B\<close> of an imported certificate, which openssl prints as \<open>A\+B\<close>, is stored as \<open>A\<close>
  followed by byte 11.
\<close>

theorem escaped_plus_decoded_as_byte:
  "subject_attributes (''O=A'' @ [BS] @ ''+B,CN=x'') = [(''O'', [CHR ''A'', CHR 0x0B]), (''CN'', ''x'')]"
  by code_simp

text \<open>
  A value that ends in an escaped space (which is how RFC 2253 writes a trailing space)
  loses the space and keeps the backslash, because the value is trimmed before it is
  decoded.
\<close>

theorem escaped_trailing_space:
  "subject_attributes (''O=Acme'' @ [BS] @ '' ,CN=x'') = [(''O'', ''Acme'' @ [BS]), (''CN'', ''x'')]"
  by code_simp

section \<open>Validation\<close>

text \<open>
  A key specification is one of the six supported profiles and its own canonical form:
  parsing the stored profile gives the same specification.
\<close>

theorem key_specs_canonical:
  assumes "key_spec_of p = Inr k"
  shows "ks_profile k \<in> set template_profiles \<and> key_spec_of (ks_profile k) = Inr k"
  using key_spec_profile(1) [OF assms] key_spec_canonical [OF assms] by blast

lemma key_specs_canonical_witness:
  "ks_profile \<lparr>ks_profile = ''rsa:4096'', ks_algorithm = ''rsa'', ks_attributes = Bits 4096\<rparr> \<in>
     set template_profiles \<and>
   key_spec_of (ks_profile \<lparr>ks_profile = ''rsa:4096'', ks_algorithm = ''rsa'', ks_attributes = Bits 4096\<rparr>) =
     Inr \<lparr>ks_profile = ''rsa:4096'', ks_algorithm = ''rsa'', ks_attributes = Bits 4096\<rparr>"
  by (rule key_specs_canonical [of "'' RSA:+4096 ''"]) code_simp

text \<open>
  The validity read from a certificate is exact: the start is \<open>notBefore\<close>, the number of
  days is the least one that covers the time until \<open>notAfter\<close>, and one day where \<open>notAfter\<close>
  is not later. The 64-bit arithmetic does not overflow on any two dates chrono can return.
\<close>

theorem validity_covers:
  assumes "date_range parse_date"
    and "Option.bind (info_value info ''notBefore'') parse_date = Some nb"
    and "Option.bind (info_value info ''notAfter'') parse_date = Some na"
    and "validity_from_info parse_date now info = (issue, days)"
  shows "in_i64 (na - nb) \<and> in_i64 (max (na - nb) 0 + 86399999) \<and> issue = nb \<and>
    (nb < na \<longrightarrow> na \<le> issue + days * 86400000 \<and> issue + (days - 1) * 86400000 < na) \<and>
    (na \<le> nb \<longrightarrow> days = 1)"
  using validity_exact(1) [OF assms(1-3)] validity_exact(2) [OF assms(1-3), of now] assms(4) by auto

definition some_dates :: "string \<Rightarrow> int option" where
  "some_dates s = (if s = ''A'' then Some 0 else if s = ''B'' then Some 86400001 else None)"

lemma validity_covers_witness:
  "in_i64 (86400001 - 0) \<and> in_i64 (max (86400001 - 0) 0 + 86399999) \<and> (0::int) = 0 \<and>
   (0 < (86400001::int) \<longrightarrow> 86400001 \<le> 0 + 2 * (86400000::int) \<and> 0 + (2 - 1) * 86400000 < (86400001::int)) \<and>
   (86400001 \<le> (0::int) \<longrightarrow> (2::int) = 1)"
proof (rule validity_covers [where info = "[(''notBefore'', ''A''), (''notAfter'', ''B'')]"
      and parse_date = some_dates and now = 5])
  show "date_range some_dates" by (auto simp: date_range_def some_dates_def)
qed code_simp+

text \<open>
  C14. Download names are safe: whatever the common name, the stem is not empty, does not
  start with a dot and consists of letters, digits, \<open>-\<close>, \<open>_\<close> and \<open>.\<close>, given an id the
  program accepts to fall back to.
\<close>

theorem download_names_safe:
  assumes "validate_entity_id raw = Inr i"
  shows "artifact_basename cn i \<noteq> [] \<and> \<not> starts_with ''.'' (artifact_basename cn i) \<and>
    list_all entity_id_char (artifact_basename cn i)"
  using assms unfolding validate_entity_id_Inr by (intro artifact_basename_safe) blast+

lemma download_names_safe_witness:
  "artifact_basename ''../etc/passwd'' ''ca-1'' \<noteq> [] \<and>
     \<not> starts_with ''.'' (artifact_basename ''../etc/passwd'' ''ca-1'') \<and>
     list_all entity_id_char (artifact_basename ''../etc/passwd'' ''ca-1'')"
  by (rule download_names_safe [of "'' ca-1 ''"]) code_simp

text \<open>
  Download names are not distinct, contrary to the comment on \<open>artifact_basename\<close>:
  two common names that may coexist in one CA can have the same stem.
\<close>

theorem download_names_collide:
  "cn_key ''a b'' \<noteq> cn_key ''a_b'' \<and> artifact_basename ''a b'' i = artifact_basename ''a_b'' i"
proof -
  have "artifact_basename ''a b'' i = ''a_b''" "artifact_basename ''a_b'' i = ''a_b''"
    by code_simp+
  moreover have "cn_key ''a b'' \<noteq> cn_key ''a_b''" by code_simp
  ultimately show ?thesis by simp
qed

text \<open>
  C15. A CA whose id has a dot makes the program's own backup unusable: such ids are accepted
  (\<open>validate_entity_id\<close>) and exported, but importing the document is refused.
\<close>

theorem dotted_ids_not_restorable:
  assumes "r \<in> set (cas d)" and "CHR ''.'' \<in> set (car_id r)"
  shows "\<not> is_ok (import_backup dec now (export_backup enc (take_snapshot d)) e)"
proof -
  let ?p = "(backup_ca r, query_backup_certs (car_id r) d)"
  have "\<not> list_all backup_id_char (car_id r)"
  proof -
    have "\<not> backup_id_char (CHR ''.'')" by code_simp
    with assms(2) show ?thesis unfolding list_all_iff by blast
  qed
  then have "\<not> is_ok (import_ca dec (export_ca enc ?p))"
    by (auto simp: import_ca_def Let_def is_ok_iff res_simps validate_backup_id_def)
  moreover have "?p \<in> set (sn_cas (take_snapshot d))"
    using assms(1) by (auto simp: take_snapshot_def query_backup_cas_def)
  ultimately have "\<not> is_ok (map_res (import_ca dec) (map (export_ca enc) (sn_cas (take_snapshot d))))"
    by (intro map_res_fails) auto
  then show ?thesis
    by (auto simp: import_backup_def backup_to_snapshot_def export_backup_def is_ok_iff res_simps)
qed

lemma dotted_ids_not_restorable_witness:
  "is_ok (validate_entity_id ''ca.old'') \<and>
   \<not> is_ok (import_backup (\<lambda>s. Inr (rev s)) 7 (export_backup rev
       (take_snapshot (empty_db\<lparr>cas := [sample_ca ''ca.old'' ''Root'']\<rparr>))) empty_db)"
proof
  show "is_ok (validate_entity_id ''ca.old'')" by code_simp
  show "\<not> is_ok (import_backup (\<lambda>s. Inr (rev s)) 7 (export_backup rev
       (take_snapshot (empty_db\<lparr>cas := [sample_ca ''ca.old'' ''Root'']\<rparr>))) empty_db)"
    by (rule dotted_ids_not_restorable [of "sample_ca ''ca.old'' ''Root''"])
      (simp_all add: empty_db_def sample_ca_def car_id_def sample_meta_def)
qed

text \<open>
  C16. A DNS name that passes validation is inert: escaping leaves it as it is, so it means
  itself in an openssl configuration file, and it can be stored in the ';'-joined list and
  read back.
\<close>

theorem dns_names_inert:
  assumes "list_all is_valid_dns_name names"
  shows "map conf_escape names = names \<and> split_list (join '';'' names) = names \<and>
    list_all (\<lambda>n. \<not> has_control n) names"
proof -
  have each: "conf_escape n = n \<and> trim n = n \<and> \<not> has_control n \<and> CHR '';'' \<notin> set n \<and> n \<noteq> []"
    if "n \<in> set names" for n
    using that assms dns_name_plain [of n "()"] by (auto simp: list_all_iff is_valid_dns_name_def is_ok_iff)
  then have "split_list (join '';'' names) = names" by (intro split_list_join) blast
  with each show ?thesis by (auto simp: list_all_iff intro: map_idI)
qed

lemma dns_names_inert_witness:
  "map conf_escape [''*.a.example'', ''b-1.example''] = [''*.a.example'', ''b-1.example''] \<and>
   split_list (join '';'' [''*.a.example'', ''b-1.example'']) = [''*.a.example'', ''b-1.example''] \<and>
   list_all (\<lambda>n. \<not> has_control n) [''*.a.example'', ''b-1.example'']"
  by (rule dns_names_inert) code_simp

section \<open>Templates and users\<close>

text \<open>
  C17. Template validation accepts exactly the values whose normal form (texts trimmed, blank
  ones left out, the country in capitals, digest and key profile in small letters) obeys the
  rules of the creation forms, and returns that normal form; and what it accepts without a
  change are exactly the values that obey the rules.
\<close>

theorem template_values_canonical:
  "(validate_template_values vs = Inr v \<longleftrightarrow> v = values_normalized vs \<and> template_values_ok v) \<and>
   (validate_template_values v = Inr v \<longleftrightarrow> template_values_ok v)"
  using template_values_iff [of vs v] template_values_iff [of v v] template_values_complete by blast

lemma template_values_accepted_sample:
  "validate_template_values
     (sample_values\<lparr>tv_country_code := Some '' sg'', tv_key_profile := Some ''RSA:4096'', tv_state := Some '' ''\<rparr>) =
   Inr (sample_values\<lparr>tv_country_code := Some ''SG'', tv_key_profile := Some ''rsa:4096''\<rparr>)"
  by code_simp

text \<open>
  After a template passed validation, the update goes through: the unique index on names
  never refuses it, and the form it becomes the default of offers it.
\<close>

theorem template_update_takes_effect:
  assumes "schema_ok d" and "one_default d" and "db_get_template i d = Some old"
    and "validate_template req i (t_created_at old) now d = Inr t"
    and "t_is_default t" and "kind \<in> {Ca, Certificate}" and "scope_covers (template_scope_of t) kind"
  shows "\<exists>d'. update_template i now req d = Inr (t, d') \<and>
    (\<exists>x. fst (templates_for kind d') = Some x \<and> t_id x = i \<and> t_values x = t_values t)"
proof -
  from update_template_succeeds [OF assms(1,3,4)] obtain d' where up: "update_template i now req d = Inr (t, d')"
    by blast
  have id: "t_id t = i" "t_id old = i"
    using validate_template_Inr_D(1) [OF assms(4)] assms(3)
    by (auto simp: db_get_template_def dest!: find_Some_iff_D)
  have save: "save_template t False d = Inr d'"
    using up assms(3,4) id by (simp add: update_template_def service_get_template_def res_simps)
  then have row: "update_template_row t (clear_displaced t d) = Inr d'"
    by (simp add: save_template_def Let_def)
  then obtain x0 where x0: "x0 \<in> set (templates (clear_displaced t d))" "t_id x0 = t_id t"
    and d': "d' = (clear_displaced t d)\<lparr>templates := update_where (\<lambda>x. t_id x = t_id t)
      (replace_template t) (templates (clear_displaced t d))\<rparr>"
    by (auto simp: update_template_Inr)
  let ?x = "replace_template t x0"
  have "?x \<in> set (templates d')" using x0 by (auto simp: d' table_simps)
  moreover have "schema_ok d'" "one_default d'"
    using save_template_schema_ok [OF save assms(1)] save_template_one_default [OF save assms(1,2)] by simp_all
  moreover have "scope_covers (template_scope_of ?x) kind" "t_is_default ?x" using assms(5,7) by simp_all
  ultimately have "fst (templates_for kind d') = Some ?x"
    using assms(6) by (intro templates_for_the_default)
  moreover have "t_id ?x = i" "t_values ?x = t_values t" using x0(2) id by (simp_all add: replace_template_def)
  ultimately show ?thesis using up by blast
qed

definition sample_request :: template_request where
  "sample_request =
     \<lparr>tr_name = '' Web '', tr_scope = Some ''both'', tr_is_default = True, tr_values = sample_values\<rparr>"

definition sample_updated :: template where
  "sample_updated =
     \<lparr>t_id = ''t1'', t_name = ''Web'', t_scope = ''both'', t_is_default = True,
      t_values = sample_values, t_created_at = 5, t_updated_at = 9\<rparr>"

lemma template_update_takes_effect_witness:
  "\<exists>d'. update_template ''t1'' 9 sample_request sample_db = Inr (sample_updated, d') \<and>
    (\<exists>x. fst (templates_for Ca d') = Some x \<and> t_id x = ''t1'' \<and> t_values x = t_values sample_updated)"
  by (rule template_update_takes_effect [where old = "sample_template ''t1'' ''web'' Certificate True"])
    (code_simp+)

text \<open>
  A created user can log in under the trimmed name: the lookup finds the new row with the
  hash of the password and a canonical role. Names of bootstrap accounts, taken names and
  short passwords are refused.
\<close>

theorem created_user_found:
  assumes "create_user reserved hash i now req d = Inr d'"
  shows "\<exists>role h. role_parse (cu_role req) = Some role \<and> hash (cu_password req) = Inr h \<and>
    find_user (trim (cu_username req)) d' =
      Some \<lparr>u_id = i, u_username = trim (cu_username req), u_password_hash = h,
            u_role = role_as_str role, u_created_at = now\<rparr> \<and>
    find_user (trim (cu_username req)) d = None \<and>
    trim (cu_username req) \<notin> set reserved \<and> 6 \<le> length (cu_password req)"
proof -
  from assms obtain role h where r: "role_parse (cu_role req) = Some role"
    "hash (cu_password req) = Inr h" "trim (cu_username req) \<notin> set reserved"
    "6 \<le> length (cu_password req)"
    "insert_user now i (trim (cu_username req)) h (role_as_str role) d = Inr d'"
    by (auto simp: create_user_Inr)
  have "find_user (trim (cu_username req)) d = None"
    using r(5) by (auto simp: insert_user_Inr find_user_def find_None_D image_iff)
  with r find_inserted_user(1) [OF r(5)] show ?thesis by blast
qed

definition sample_user_request :: create_user_request where
  "sample_user_request = \<lparr>cu_username = '' bob '', cu_password = ''secret1'', cu_role = ''Viewer''\<rparr>"

lemma created_user_found_witness:
  "\<exists>role h. role_parse (cu_role sample_user_request) = Some role \<and>
    Inr (rev (cu_password sample_user_request)) = (Inr h :: string result) \<and>
    find_user (trim (cu_username sample_user_request))
      (unwrap_or empty_db (create_user [''root''] (\<lambda>p. Inr (rev p)) ''u2'' 3 sample_user_request sample_db)) =
      Some \<lparr>u_id = ''u2'', u_username = trim (cu_username sample_user_request), u_password_hash = h,
            u_role = role_as_str role, u_created_at = 3\<rparr> \<and>
    find_user (trim (cu_username sample_user_request)) sample_db = None \<and>
    trim (cu_username sample_user_request) \<notin> set [''root''] \<and>
    6 \<le> length (cu_password sample_user_request)"
  by (rule created_user_found) code_simp

section \<open>Configuration\<close>

text \<open>
  C18. Environment tokens are replaced in place: for a text whose pieces hold no further
  marker, each token becomes the variable's value or its decoded default, the text between
  the tokens is copied, and a value that looks like a token is not expanded again.
\<close>

theorem env_tokens_resolved:
  assumes "\<not> str_contains env_open a0"
    and "list_all (\<lambda>(inner, a). \<not> str_contains env_open a \<and>
           \<not> str_contains env_close (inner @ ''}'') \<and> is_ok (parse_env_token inner)) ts"
  shows "resolve_env lookup (config_text a0 ts) =
    Inr (a0 @ concat (map (\<lambda>(inner, a). token_out lookup inner @ a) ts),
         map (\<lambda>(inner, a). case parse_env_token inner of Inl _ \<Rightarrow> [] | Inr (n, d) \<Rightarrow> n) ts)"
  using assms by (intro resolve_config_text) (simp_all add: list_all_iff)

lemma env_tokens_resolved_witness:
  "resolve_env (\<lambda>n. if n = ''PW'' then Some ''{{ENV:X}}'' else None)
     (config_text ''a='' [(''PW'', '', b=''), (''HOST:%7Blocal'', ''.'')]) =
   Inr (''a='' @ concat (map (\<lambda>(inner, a).
          token_out (\<lambda>n. if n = ''PW'' then Some ''{{ENV:X}}'' else None) inner @ a)
          [(''PW'', '', b=''), (''HOST:%7Blocal'', ''.'')]),
        map (\<lambda>(inner, a). case parse_env_token inner of Inl _ \<Rightarrow> [] | Inr (n, d) \<Rightarrow> n)
          [(''PW'', '', b=''), (''HOST:%7Blocal'', ''.'')])"
  by (rule env_tokens_resolved) (code_simp+)

end
