(* ===== verification/Openssl_Text.thy ===== *)
theory Openssl_Text
  imports Validate
begin

text \<open>
  The text processing of \<open>src/src/openssl.rs\<close>: the index file of a CA, serial numbers,
  the configuration files written for openssl, the parsers of what openssl prints, and the
  censoring of logged command lines. Running openssl is in theory \<open>Openssl_Run\<close>.
\<close>

section \<open>The index file\<close>

text \<open>
  A line of \<open>index.txt\<close> holds tab-separated fields: status, expiry, revocation, serial,
  file, subject. \<open>fields[5..].join("\t")\<close> is the subject.
\<close>

definition index_fields :: "string \<Rightarrow> string list" where
  "index_fields line = split_on (\<lambda>c. c = TAB) line"

definition field_subject :: "string list \<Rightarrow> string" where
  "field_subject fs = join [TAB] (drop 5 fs)"

definition same_serial :: "string \<Rightarrow> string \<Rightarrow> bool" where
  "same_serial a b =
     eq_ignore_ascii_case (trim_start_matches (\<lambda>c. c = CHR ''0'') a)
       (trim_start_matches (\<lambda>c. c = CHR ''0'') b)"

text \<open>The closure given to \<open>find_map\<close>: revocation field and subject of the revoked entry.\<close>

definition revoked_entry :: "string \<Rightarrow> string \<Rightarrow> (string \<times> string) option" where
  "revoked_entry serial line =
     (let fs = index_fields line
      in if 6 \<le> length fs \<and> fs ! 0 = ''R'' \<and> same_serial (fs ! 3) serial
         then Some (fs ! 2, field_subject fs) else None)"

definition is_superseded :: "string \<Rightarrow> string \<Rightarrow> bool" where
  "is_superseded subject line \<longleftrightarrow>
     (let fs = index_fields line
      in 6 \<le> length fs \<and> fs ! 0 = ''V'' \<and> field_subject fs = subject)"

definition mark_superseded :: "string \<Rightarrow> string \<Rightarrow> string \<Rightarrow> string" where
  "mark_superseded revocation subject line =
     (if is_superseded subject line
      then join [TAB] ((index_fields line)[0 := ''R'', 2 := revocation])
      else line)"

definition revoke_superseded_index_entries :: "string \<Rightarrow> string \<Rightarrow> string \<times> nat" where
  "revoke_superseded_index_entries index serial =
     (let ls = str_lines index
      in case first_some (revoked_entry serial) ls of
           None \<Rightarrow> (index, 0)
         | Some (revocation, subject) \<Rightarrow>
             (concat (map (\<lambda>l. mark_superseded revocation subject l @ [LF]) ls),
              length (filter (is_superseded subject) ls)))"

section \<open>Serial numbers\<close>

text \<open>\<open>random_serial_hex\<close>, of the sixteen random bytes it draws.\<close>

definition hex_upper :: "8 word \<Rightarrow> string" where
  "hex_upper b =
     (let d = (\<lambda>n::nat. if n < 10 then char_of (48 + n) else char_of (55 + n))
      in [d (unat b div 16), d (unat b mod 16)])"

definition positive_first :: "8 word \<Rightarrow> 8 word" where
  "positive_first b = (let b' = and b 0x7f in if b' = 0 then 1 else b')"

definition random_serial_hex :: "8 word list \<Rightarrow> string" where
  "random_serial_hex bytes = concat (map hex_upper (bytes[0 := positive_first (bytes ! 0)]))"

section \<open>Configuration files\<close>

definition numbered :: "string \<Rightarrow> string list \<Rightarrow> string list" where
  "numbered what vs =
     map (\<lambda>(i, v). what @ ''.'' @ show_nat (i + 1) @ '' = '' @ conf_escape v)
       (List.zip [0..<length vs] vs)"

definition text_of_lines :: "string list \<Rightarrow> string" where
  "text_of_lines ls = concat (map (\<lambda>l. l @ [LF]) ls)"

definition cert_config :: "string list \<Rightarrow> string list \<Rightarrow> string" where
  "cert_config dns_list ip_list =
     text_of_lines
       [''[ req ]'', ''default_bits = 4096'', ''distinguished_name = server_distinguished_name'',
        ''req_extensions = server_req_extensions'', ''string_mask = utf8only'', '''',
        ''[ server_distinguished_name ]'', ''commonName = Common Name'', '''',
        ''[ server_req_extensions ]'', ''subjectKeyIdentifier = hash'',
        ''basicConstraints = CA:FALSE'',
        ''keyUsage = digitalSignature, keyEncipherment, keyAgreement, nonRepudiation'',
        ''extendedKeyUsage = critical, serverAuth, clientAuth''] @
     (if dns_list = [] \<and> ip_list = [] then []
      else ''subjectAltName = @alternate_names'' @ [LF]) @
     text_of_lines
       [''nsComment = '' @ [CHR 0x22] @ ''OpenSSL Generated Certificate'' @ [CHR 0x22], '''',
        ''[ alternate_names ]''] @
     join [LF] (numbered ''DNS'' dns_list) @ [LF] @
     join [LF] (numbered ''IP'' ip_list) @ [LF]"

text \<open>\<open>base\<close> is the directory's text, \<open>crl_url\<close> the address put into the certificate.\<close>

definition crl_extension :: "string option \<Rightarrow> string" where
  "crl_extension crl_url =
     (case crl_url of
        None \<Rightarrow> []
      | Some u \<Rightarrow> if trim u = [] then []
                  else ''crlDistributionPoints = URI:'' @ conf_escape u @ [LF])"

definition ca_config :: "string \<Rightarrow> int \<Rightarrow> string option \<Rightarrow> string" where
  "ca_config base crl_days crl_url =
     text_of_lines
       [''[ ca ]'', ''default_ca = CA_default'', ''[ CA_default ]'', ''default_days = 7300'',
        ''default_crl_days = '' @ show_int crl_days, ''default_md = sha512'', ''preserve = no'',
        ''unique_subject = no'', ''base_dir = '' @ conf_escape base,
        ''certificate = $base_dir/ca-cert.pem'', ''private_key = $base_dir/ca-key.pem'',
        ''new_certs_dir = $base_dir/certs'', ''database = $base_dir/index.txt'',
        ''serial = $base_dir/serial.txt'', ''crlnumber = $base_dir/crlnumber.txt'',
        ''crl_extensions = crl_extensions'', ''x509_extensions = ca_extensions'',
        ''email_in_dn = no'', ''copy_extensions = copy'', '''',
        ''[ crl_extensions ]'', ''authorityKeyIdentifier = keyid:always'', '''',
        ''[ req ]'', ''default_bits = 4096'',
        ''default_keyfile = '' @ conf_escape base @ ''/ca-key.pem'',
        ''distinguished_name = ca_distinguished_name'', ''x509_extensions = ca_extensions'',
        ''string_mask = utf8only'', '''',
        ''[ ca_distinguished_name ]'', ''countryName = Country Name'',
        ''stateOrProvinceName = State'', ''localityName = Locality'',
        ''organizationName = Organization'', ''organizationalUnitName = Organizational Unit'',
        ''commonName = Common Name'', '''',
        ''[ ca_extensions ]'', ''subjectKeyIdentifier = hash'',
        ''authorityKeyIdentifier = keyid:always, issuer'', ''basicConstraints = critical, CA:true'',
        ''keyUsage = digitalSignature, nonRepudiation, keyEncipherment, dataEncipherment, keyAgreement, keyCertSign, cRLSign'',
        '''',
        ''[ signing_policy ]'', ''countryName = optional'', ''stateOrProvinceName = optional'',
        ''localityName = optional'', ''organizationName = optional'',
        ''organizationalUnitName = optional'', ''commonName = supplied'',
        ''emailAddress = optional'', '''',
        ''[ signing_req ]'', ''subjectKeyIdentifier = hash'',
        ''authorityKeyIdentifier = keyid,issuer'', ''basicConstraints = CA:FALSE'',
        ''keyUsage = digitalSignature, keyEncipherment, nonRepudiation'',
        ''extendedKeyUsage = clientAuth, emailProtection, serverAuth''] @
     crl_extension crl_url @ [LF]"

section \<open>Parsing what openssl prints\<close>

text \<open>The line after the first line that contains the marker.\<close>

fun line_after :: "string \<Rightarrow> string list \<Rightarrow> string option" where
  "line_after marker [] = None"
| "line_after marker (l # ls) =
     (if str_contains marker l then Some (case ls of [] \<Rightarrow> [] | v # _ \<Rightarrow> v)
      else line_after marker ls)"

definition san_part :: "string \<Rightarrow> (string + string) option" where
  "san_part part =
     (let p = trim part
      in case strip_prefix ''DNS:'' p of
           Some v \<Rightarrow> Some (Inl (trim v))
         | None \<Rightarrow> (case strip_prefix ''IP Address:'' p of
              Some v \<Rightarrow> Some (Inr (trim v))
            | None \<Rightarrow> None))"

fun san_lists :: "string list \<Rightarrow> string list \<times> string list" where
  "san_lists [] = ([], [])"
| "san_lists (p # ps) =
     (let (dns, ips) = san_lists ps
      in case san_part p of
           Some (Inl v) \<Rightarrow> (v # dns, ips)
         | Some (Inr v) \<Rightarrow> (dns, v # ips)
         | None \<Rightarrow> (dns, ips))"

definition parse_san_entries :: "string \<Rightarrow> string list \<times> string list" where
  "parse_san_entries text =
     (case line_after ''Subject Alternative Name:'' (str_lines text) of
        None \<Rightarrow> ([], [])
      | Some values \<Rightarrow> san_lists (split_on (\<lambda>c. c = CHR '','') values))"

text \<open>\<open>is_ca_cert\<close>, of the text dump.\<close>

definition text_is_ca :: "string \<Rightarrow> bool" where
  "text_is_ca text =
     (case line_after ''X509v3 Basic Constraints'' (str_lines text) of
        None \<Rightarrow> True
      | Some value \<Rightarrow> \<not> str_contains ''CA:FALSE'' value)"

text \<open>\<open>line.split_once(sep)\<close> for every line, both halves trimmed.\<close>

definition key_value_lines :: "char \<Rightarrow> string \<Rightarrow> (string \<times> string) list" where
  "key_value_lines sep text =
     map (\<lambda>(k, v). (trim k, trim v)) (List.map_filter (split_once sep) (str_lines text))"

section \<open>Work directories and logged arguments\<close>

definition looks_like_workdir :: "string \<Rightarrow> bool" where
  "looks_like_workdir name \<longleftrightarrow>
     18 < length name \<and> name ! 8 = CHR ''T'' \<and> CHR ''-'' \<in> set name"

text \<open>
  \<open>reap_workdirs\<close>: the cutoff in seconds (a \<open>u64\<close> product that saturates, then
  \<open>i64::try_from\<close>), and which entries (name, is a directory, modification time) go.
\<close>

definition reap_cutoff :: "int \<Rightarrow> nat \<Rightarrow> int" where
  "reap_cutoff now hours =
     (let secs = min (hours * 3600) (2 ^ 64 - 1)
      in sub64 now (if int secs \<le> i64_max then int secs else i64_max))"

definition reaped :: "int \<Rightarrow> nat \<Rightarrow> (string \<times> bool \<times> int) list \<Rightarrow> (string \<times> bool \<times> int) list" where
  "reaped now hours es =
     filter (\<lambda>(name, is_dir, modified).
       is_dir \<and> looks_like_workdir name \<and> modified < reap_cutoff now hours) es"

definition secret_flag :: "string \<Rightarrow> bool" where
  "secret_flag a \<longleftrightarrow> a = ''-passout'' \<or> a = ''-passin'' \<or> a = ''-password''"

fun sanitize_loop :: "bool \<Rightarrow> string list \<Rightarrow> string list" where
  "sanitize_loop redact_next [] = []"
| "sanitize_loop redact_next (a # as) =
     (if redact_next then ''*****'' # sanitize_loop False as
      else if secret_flag a then a # sanitize_loop True as
      else if starts_with ''pass:'' a then ''pass:*****'' # sanitize_loop False as
      else a # sanitize_loop False as)"

definition sanitize_args :: "string list \<Rightarrow> string list" where
  "sanitize_args args = sanitize_loop False args"


section \<open>Lemmas: lines and fields\<close>

definition plain_line :: "string \<Rightarrow> bool" where
  "plain_line l \<longleftrightarrow> LF \<notin> set l \<and> CR \<notin> set l"

lemma plain_line_append [simp]: "plain_line (a @ b) \<longleftrightarrow> plain_line a \<and> plain_line b"
  by (auto simp: plain_line_def)

lemma plain_line_Nil [simp]: "plain_line []"
  by (simp add: plain_line_def)

lemma text_of_lines_append: "text_of_lines (as @ bs) = text_of_lines as @ text_of_lines bs"
  by (simp add: text_of_lines_def)

lemma split_on_text_of_lines:
  "\<forall>l \<in> set ls. plain_line l \<Longrightarrow> split_on (\<lambda>c. c = LF) (text_of_lines ls) = ls @ [[]]"
proof (induction ls)
  case Nil
  then show ?case by (simp add: text_of_lines_def)
next
  case (Cons l ls)
  then have "\<forall>c \<in> set l. c \<noteq> LF" by (auto simp: plain_line_def)
  with Cons show ?case by (simp add: text_of_lines_def split_on_append_sep)
qed

lemma strip_cr_plain: "plain_line l \<Longrightarrow> strip_cr l = l"
  by (auto simp: strip_cr_def plain_line_def dest: last_in_set)

lemma str_lines_text_of_lines:
  "\<forall>l \<in> set ls. plain_line l \<Longrightarrow> str_lines (text_of_lines ls) = ls"
  by (simp add: str_lines_def split_on_text_of_lines strip_cr_plain map_idI)

lemma join_text_of_lines: "ls \<noteq> [] \<Longrightarrow> join [LF] ls @ [LF] = text_of_lines ls"
  by (induction "[LF]" ls rule: join.induct) (auto simp: text_of_lines_def)

lemma join_split_on: "join [d] (split_on (\<lambda>c. c = d) s) = s"
proof (induction s)
  case Nil
  then show ?case by simp
next
  case (Cons c s)
  obtain w ws where w: "split_on (\<lambda>c. c = d) s = w # ws"
    by (cases "split_on (\<lambda>c. c = d) s") auto
  with Cons show ?case by (cases ws) auto
qed

lemma set_strip_cr: "set (strip_cr l) \<subseteq> set l"
  by (auto simp: strip_cr_def dest: in_set_butlastD)

lemma str_lines_chars: "l \<in> set (str_lines s) \<Longrightarrow> c \<in> set l \<Longrightarrow> c \<in> set s"
proof -
  assume l: "l \<in> set (str_lines s)" and c: "c \<in> set l"
  from l obtain p where p: "p \<in> set (split_on (\<lambda>c. c = LF) s)" "set l \<subseteq> set p"
    by (auto simp: str_lines_def Let_def split: if_splits dest!: in_set_butlastD)
      (metis set_strip_cr, metis set_strip_cr, metis last_in_set split_on_not_Nil subset_refl)
  with c show ?thesis using split_on_pieces [OF p(1)] by auto
qed

lemma str_lines_plain: "CR \<notin> set s \<Longrightarrow> l \<in> set (str_lines s) \<Longrightarrow> plain_line l"
  using str_lines_no_LF str_lines_chars by (auto simp: plain_line_def)

lemma index_fields_no_tab: "f \<in> set (index_fields l) \<Longrightarrow> TAB \<notin> set f"
  using split_on_pieces by (fastforce simp: index_fields_def)

lemma index_fields_join:
  assumes "fs \<noteq> []" and "\<forall>f \<in> set fs. TAB \<notin> set f"
  shows "index_fields (join [TAB] fs) = fs"
  unfolding index_fields_def using assms by (intro split_on_join) auto

lemma plain_join: "(\<And>w. w \<in> set ws \<Longrightarrow> plain_line w) \<Longrightarrow> plain_line (join [TAB] ws)"
  by (induction "[TAB]" ws rule: join.induct) (auto simp: plain_line_def LF_def CR_def TAB_def)

section \<open>Lemmas: superseded serials\<close>

text \<open>
  The abstract view of an index line, and what revoking the other serials of a subject
  does to it.
\<close>

record index_entry =
  ie_status :: string
  ie_revocation :: string
  ie_serial :: string
  ie_subject :: string

definition entry_view :: "string \<Rightarrow> index_entry option" where
  "entry_view line =
     (let fs = index_fields line
      in if length fs < 6 then None
         else Some \<lparr>ie_status = fs ! 0, ie_revocation = fs ! 2, ie_serial = fs ! 3,
                    ie_subject = field_subject fs\<rparr>)"

definition valid_for :: "string \<Rightarrow> index_entry \<Rightarrow> bool" where
  "valid_for subject e \<longleftrightarrow> ie_status e = ''V'' \<and> ie_subject e = subject"

definition revoke_entry :: "string \<Rightarrow> string \<Rightarrow> index_entry \<Rightarrow> index_entry" where
  "revoke_entry revocation subject e =
     (if valid_for subject e then e\<lparr>ie_status := ''R'', ie_revocation := revocation\<rparr> else e)"

lemma is_superseded_view:
  "is_superseded subject l \<longleftrightarrow> (\<exists>e. entry_view l = Some e \<and> valid_for subject e)"
  by (auto simp: is_superseded_def entry_view_def Let_def valid_for_def)

lemma revoked_entry_view:
  "revoked_entry serial l = Some (revocation, subject) \<longleftrightarrow>
   (\<exists>e. entry_view l = Some e \<and> ie_status e = ''R'' \<and> same_serial (ie_serial e) serial \<and>
      ie_revocation e = revocation \<and> ie_subject e = subject)"
  by (auto simp: revoked_entry_def entry_view_def Let_def)

lemma set_update_two: "f \<in> set (xs[i := a, j := b]) \<Longrightarrow> f = a \<or> f = b \<or> f \<in> set xs"
  by (meson insertE set_update_subset_insert subsetD)

lemma marked_fields:
  assumes "is_superseded subject l" and "TAB \<notin> set revocation"
  shows "index_fields (mark_superseded revocation subject l) =
    (index_fields l)[0 := ''R'', 2 := revocation]"
proof -
  have "TAB \<notin> set ''R''" by (simp add: TAB_def)
  then have "\<forall>f \<in> set ((index_fields l)[0 := ''R'', 2 := revocation]). TAB \<notin> set f"
    using assms(2) index_fields_no_tab by (metis set_update_two)
  moreover have "index_fields l \<noteq> []" by (simp add: index_fields_def)
  ultimately show ?thesis using assms(1) by (simp add: mark_superseded_def index_fields_join)
qed

lemma mark_view:
  assumes "TAB \<notin> set revocation"
  shows "entry_view (mark_superseded revocation subject l) =
    map_option (revoke_entry revocation subject) (entry_view l)"
proof (cases "is_superseded subject l")
  case True
  then have "6 \<le> length (index_fields l)" "index_fields l ! 0 = ''V''"
    "field_subject (index_fields l) = subject" "index_fields l \<noteq> []"
    by (auto simp: is_superseded_def Let_def)
  with marked_fields [OF True assms] show ?thesis
    by (auto simp: entry_view_def Let_def revoke_entry_def valid_for_def field_subject_def)
next
  case False
  then have "mark_superseded revocation subject l = l" by (simp add: mark_superseded_def)
  moreover have "map_option (revoke_entry revocation subject) (entry_view l) = entry_view l"
    using False by (cases "entry_view l") (auto simp: is_superseded_view revoke_entry_def)
  ultimately show ?thesis by simp
qed

lemma mark_plain:
  assumes "plain_line l" and "plain_line revocation"
  shows "plain_line (mark_superseded revocation subject l)"
proof (cases "is_superseded subject l")
  case True
  have fs: "plain_line f" if "f \<in> set (index_fields l)" for f
    using that assms(1) split_on_pieces unfolding index_fields_def plain_line_def by blast
  have R: "plain_line ''R''" by (simp add: plain_line_def LF_def CR_def)
  have "plain_line f" if "f \<in> set ((index_fields l)[0 := ''R'', 2 := revocation])" for f
    using set_update_two [OF that]
  proof (elim disjE)
    assume "f = ''R''"
    then show ?thesis by (simp only: R)
  next
    assume "f = revocation"
    then show ?thesis by (simp only: assms(2))
  next
    assume "f \<in> set (index_fields l)"
    then show ?thesis by (rule fs)
  qed
  then show ?thesis using True by (simp add: mark_superseded_def plain_join)
next
  case False
  with assms show ?thesis by (simp add: mark_superseded_def)
qed

lemma first_some_Some:
  "first_some f xs = Some y \<Longrightarrow> \<exists>x \<in> set xs. f x = Some y"
  by (induction xs) (auto split: option.splits)

lemma revocation_plain:
  assumes "first_some (revoked_entry serial) (str_lines index) = Some (revocation, subject)"
    and "CR \<notin> set index"
  shows "plain_line revocation" and "TAB \<notin> set revocation"
proof -
  from first_some_Some [OF assms(1)] obtain l where l: "l \<in> set (str_lines index)"
    "revoked_entry serial l = Some (revocation, subject)" by auto
  then have "revocation \<in> set (index_fields l)"
    by (auto simp: revoked_entry_def Let_def split: if_splits)
  moreover have "plain_line l" using l(1) assms(2) by (rule str_lines_plain [rotated])
  ultimately show "plain_line revocation" "TAB \<notin> set revocation"
    using split_on_pieces index_fields_no_tab unfolding index_fields_def plain_line_def by blast+
qed

lemma superseded_lines:
  assumes "first_some (revoked_entry serial) (str_lines index) = Some (revocation, subject)"
    and "CR \<notin> set index"
  shows "str_lines (fst (revoke_superseded_index_entries index serial)) =
    map (mark_superseded revocation subject) (str_lines index)"
proof -
  have "\<forall>l \<in> set (map (mark_superseded revocation subject) (str_lines index)). plain_line l"
    using revocation_plain(1) [OF assms] str_lines_plain [OF assms(2)] mark_plain by auto
  from str_lines_text_of_lines [OF this] show ?thesis
    using assms(1) by (simp add: revoke_superseded_index_entries_def Let_def text_of_lines_def comp_def)
qed


text \<open>The result: every entry of the subject that was valid is revoked, nothing else changes.\<close>

lemma superseded_refines:
  assumes "first_some (revoked_entry serial) (str_lines index) = Some (revocation, subject)"
    and "CR \<notin> set index"
  shows "map entry_view (str_lines (fst (revoke_superseded_index_entries index serial))) =
    map (map_option (revoke_entry revocation subject)) (map entry_view (str_lines index))"
  using superseded_lines [OF assms] revocation_plain(2) [OF assms] by (simp add: mark_view comp_def)

lemma revoke_entry_not_valid: "\<not> valid_for subject (revoke_entry revocation subject e)"
  by (simp add: revoke_entry_def valid_for_def)

lemma marked_not_superseded:
  "TAB \<notin> set revocation \<Longrightarrow> \<not> is_superseded subject (mark_superseded revocation subject l)"
  by (auto simp: is_superseded_view mark_view revoke_entry_not_valid)

lemma mark_superseded_idem:
  "TAB \<notin> set revocation \<Longrightarrow>
   mark_superseded r subject (mark_superseded revocation subject l) = mark_superseded revocation subject l"
  using marked_not_superseded [of revocation subject l] by (simp add: mark_superseded_def)

text \<open>The revoked entry found again in the new index is the same.\<close>

lemma first_revoked_marked:
  assumes "first_some (revoked_entry serial) ls = Some (revocation, subject)"
    and "TAB \<notin> set revocation"
  shows "first_some (revoked_entry serial) (map (mark_superseded revocation subject) ls) =
    Some (revocation, subject)"
  using assms(1)
proof (induction ls)
  case Nil
  then show ?case by simp
next
  case (Cons l ls)
  show ?case
  proof (cases "is_superseded subject l")
    case True
    then have "revoked_entry serial l = None"
      by (auto simp: revoked_entry_def is_superseded_def Let_def)
    moreover from this have "first_some (revoked_entry serial) ls = Some (revocation, subject)"
      using Cons.prems by simp
    moreover obtain e where e: "entry_view l = Some e" "valid_for subject e"
      using True by (auto simp: is_superseded_view)
    moreover have "revoked_entry serial (mark_superseded revocation subject l) = None \<or>
        revoked_entry serial (mark_superseded revocation subject l) = Some (revocation, subject)"
    proof (cases "revoked_entry serial (mark_superseded revocation subject l)")
      case (Some p)
      with e have "p = (revocation, subject)"
        by (cases p) (auto simp: revoked_entry_view mark_view [OF assms(2)] revoke_entry_def valid_for_def)
      with Some show ?thesis by simp
    qed simp
    ultimately show ?thesis using Cons.IH by auto
  next
    case False
    then have "mark_superseded revocation subject l = l" by (simp add: mark_superseded_def)
    with Cons show ?thesis by (auto split: option.splits)
  qed
qed

lemma superseded_idem:
  assumes "first_some (revoked_entry serial) (str_lines index) = Some (revocation, subject)"
    and "CR \<notin> set index"
  defines "index' \<equiv> fst (revoke_superseded_index_entries index serial)"
  shows "revoke_superseded_index_entries index' serial = (index', 0)"
proof -
  let ?m = "mark_superseded revocation subject"
  note tab = revocation_plain(2) [OF assms(1,2)]
  have ls: "str_lines index' = map ?m (str_lines index)"
    unfolding index'_def by (rule superseded_lines [OF assms(1,2)])
  have idx: "text_of_lines (map ?m (str_lines index)) = index'"
    using assms(1) by (simp add: index'_def revoke_superseded_index_entries_def Let_def
        text_of_lines_def comp_def)
  have found: "first_some (revoked_entry serial) (str_lines index') = Some (revocation, subject)"
    unfolding ls by (rule first_revoked_marked [OF assms(1) tab])
  have same: "map ?m (str_lines index') = map ?m (str_lines index)"
    unfolding ls by (simp add: mark_superseded_idem [OF tab])
  have none: "filter (is_superseded subject) (str_lines index') = []"
    unfolding ls by (simp add: filter_empty_conv marked_not_superseded [OF tab])
  have "revoke_superseded_index_entries index' serial =
      (text_of_lines (map ?m (str_lines index')), length (filter (is_superseded subject) (str_lines index')))"
    by (simp add: revoke_superseded_index_entries_def Let_def found text_of_lines_def comp_def)
  then show ?thesis unfolding same idx none by simp
qed

section \<open>Lemmas: serial numbers\<close>

definition hex_step :: "nat \<Rightarrow> char \<Rightarrow> nat" where
  "hex_step a c = 16 * a + (if byte c < 58 then byte c - 48 else byte c - 55)"

definition hex_nat :: "string \<Rightarrow> nat" where
  "hex_nat s = foldl hex_step 0 s"

fun bytes_nat :: "8 word list \<Rightarrow> nat" where
  "bytes_nat [] = 0"
| "bytes_nat (b # bs) = unat b * 256 ^ length bs + bytes_nat bs"

lemma unat_byte: "unat (b :: 8 word) < 256"
  using unsigned_less [of b, where 'a = nat] by simp

lemma length_hex_upper: "length (concat (map hex_upper bs)) = 2 * length bs"
  by (induction bs) (simp_all add: hex_upper_def)

lemma hex_step_digit:
  "d < 16 \<Longrightarrow> hex_step a (if d < 10 then char_of (48 + d) else char_of (55 + d)) = 16 * a + d"
  by (simp add: hex_step_def)

lemma hex_upper_step: "foldl hex_step a (hex_upper b) = 256 * a + unat b"
proof -
  have d: "unat b div 16 < 16" "unat b mod 16 < 16" using unat_byte [of b] by auto
  have "256 * a + 16 * (unat b div 16) + unat b mod 16 = 256 * a + unat b" by presburger
  then show ?thesis
    by (simp only: hex_upper_def Let_def foldl_Cons foldl_Nil hex_step_digit [OF d(1)]
        hex_step_digit [OF d(2)])
      (simp add: algebra_simps)
qed

lemma hex_nat_bytes_acc:
  "foldl hex_step a (concat (map hex_upper bs)) = a * 256 ^ length bs + bytes_nat bs"
  by (induction bs arbitrary: a) (simp_all add: hex_upper_step algebra_simps)

lemma hex_nat_bytes: "hex_nat (concat (map hex_upper bs)) = bytes_nat bs"
  using hex_nat_bytes_acc [of 0 bs] by (simp add: hex_nat_def)

lemma bytes_nat_less: "bytes_nat bs < 256 ^ length bs"
proof (induction bs)
  case Nil
  then show ?case by simp
next
  case (Cons b bs)
  have "unat b \<le> 255" using unat_byte [of b] by simp
  then have "unat b * 256 ^ length bs \<le> 255 * 256 ^ length bs" by (rule mult_right_mono) simp
  with Cons.IH have "unat b * 256 ^ length bs + bytes_nat bs < 256 * 256 ^ length bs" by linarith
  then show ?case by simp
qed

lemma positive_first_range: "1 \<le> unat (positive_first b) \<and> unat (positive_first b) < 128"
proof -
  have "unat (and b 0x7f) < 128"
    using word_and_le1 [of b "0x7f"] by (simp add: word_le_nat_alt)
  moreover have "and b 0x7f \<noteq> 0 \<Longrightarrow> 1 \<le> unat (and b 0x7f)"
    by (metis One_nat_def Suc_leI unat_gt_0)
  ultimately show ?thesis by (simp add: positive_first_def Let_def)
qed

lemma random_serial_range:
  assumes "length bytes = 16"
  shows "length (random_serial_hex bytes) = 32" and "2 ^ 120 \<le> hex_nat (random_serial_hex bytes)"
    and "hex_nat (random_serial_hex bytes) < 2 ^ 127"
proof -
  from assms obtain b bs where b: "bytes = b # bs" "length bs = 15" by (cases bytes) auto
  let ?f = "unat (positive_first b)"
  have v: "hex_nat (random_serial_hex bytes) = ?f * 2 ^ 120 + bytes_nat bs"
    using b by (simp only: random_serial_hex_def hex_nat_bytes) simp
  have l: "bytes_nat bs < 2 ^ 120" using bytes_nat_less [of bs] b(2) by simp
  show "length (random_serial_hex bytes) = 32"
    unfolding random_serial_hex_def length_hex_upper by (simp add: assms)
  from positive_first_range [of b] have "1 \<le> ?f" "?f \<le> 127" by simp_all
  then have "1 * 2 ^ 120 \<le> ?f * 2 ^ 120" "?f * 2 ^ 120 \<le> 127 * 2 ^ 120"
    by (intro mult_right_mono; simp)+
  with v l show "2 ^ 120 \<le> hex_nat (random_serial_hex bytes)"
    and "hex_nat (random_serial_hex bytes) < 2 ^ 127" by simp_all
qed

section \<open>Lemmas: configuration files\<close>

text \<open>Reading an escaped value: a backslash makes the next character literal.\<close>

fun drop_escapes :: "string \<Rightarrow> string" where
  "drop_escapes [] = []"
| "drop_escapes [c] = [c]"
| "drop_escapes (c # d # s) = (if c = BS then d # drop_escapes s else c # drop_escapes (d # s))"

lemma drop_escapes_plain: "c \<noteq> BS \<Longrightarrow> drop_escapes (c # s) = c # drop_escapes s"
  by (cases s) simp_all

context escaper
begin

lemma drop_esc: "drop_escapes (esc a) = a"
proof (induction a)
  case Nil
  then show ?case by (simp add: esc_Nil)
next
  case (Cons c a)
  moreover have "\<not> special c \<Longrightarrow> c \<noteq> BS" using special_BS by auto
  ultimately show ?case
    by (cases "special c") (auto simp: esc_special esc_plain drop_escapes_plain)
qed

end

lemma plain_line_conf_escape: "plain_line v \<Longrightarrow> plain_line (conf_escape v)"
  using conf.set_esc [of v] by (auto simp: plain_line_def BS_def LF_def CR_def)

lemma show_nat_plain: "plain_line (show_nat n)" and show_nat_no_eq: "CHR ''='' \<notin> set (show_nat n)"
  using show_nat_digits [of n]
  by (auto simp: plain_line_def list_all_iff is_ascii_digit_def byte_def LF_def CR_def)

lemma numbered_plain:
  assumes "\<forall>v \<in> set vs. plain_line v" and "plain_line what" and "l \<in> set (numbered what vs)"
  shows "plain_line l"
proof -
  have sep: "plain_line ''.''" "plain_line '' = ''" by (simp_all add: plain_line_def LF_def CR_def)
  from assms(3) obtain i v where l: "v \<in> set vs" "l = what @ ''.'' @ show_nat (i + 1) @ '' = '' @ conf_escape v"
    by (auto simp: numbered_def dest: set_zip_rightD)
  show ?thesis unfolding l(2)
    using assms(1,2) l(1) sep show_nat_plain plain_line_conf_escape by (simp only: plain_line_append)
qed

text \<open>The entries of one kind in a configuration, as openssl reads them.\<close>

definition entry_value :: "string \<Rightarrow> string" where
  "entry_value line =
     (case split_once (CHR ''='') line of None \<Rightarrow> [] | Some (k, v) \<Rightarrow> drop_escapes (drop 1 v))"

definition config_entries :: "string \<Rightarrow> string \<Rightarrow> string list" where
  "config_entries what config =
     map entry_value (filter (starts_with (what @ ''.'')) (str_lines config))"

lemma entry_value_numbered:
  assumes "CHR ''='' \<notin> set what"
  shows "entry_value (what @ ''.'' @ show_nat n @ '' = '' @ conf_escape v) = v"
proof -
  have "split_once (CHR ''='') ((what @ ''.'' @ show_nat n @ '' '') @ CHR ''='' # ('' '' @ conf_escape v)) =
      Some (what @ ''.'' @ show_nat n @ '' '', '' '' @ conf_escape v)"
    unfolding split_once_Some using assms show_nat_no_eq by simp
  then show ?thesis by (simp add: entry_value_def conf.drop_esc)
qed

lemma map_entry_value_numbered:
  assumes "CHR ''='' \<notin> set what"
  shows "map entry_value (numbered what vs) = vs"
  unfolding numbered_def map_map comp_def case_prod_unfold entry_value_numbered [OF assms]
  by (simp add: map_snd_zip)

lemma filter_numbered_same: "filter (starts_with (what @ ''.'')) (numbered what vs) = numbered what vs"
  by (auto simp: numbered_def filter_id_conv starts_with_iff)

definition config_block :: "string list \<Rightarrow> string list" where
  "config_block ls = (if ls = [] then [[]] else ls)"

lemma join_block: "join [LF] ls @ [LF] = text_of_lines (config_block ls)"
proof (cases "ls = []")
  case True
  then show ?thesis by (simp add: config_block_def text_of_lines_def)
next
  case False
  then show ?thesis by (simp add: config_block_def join_text_of_lines)
qed

definition config_head :: "string list \<Rightarrow> string list \<Rightarrow> string list" where
  "config_head dns_list ip_list =
       [''[ req ]'', ''default_bits = 4096'', ''distinguished_name = server_distinguished_name'',
        ''req_extensions = server_req_extensions'', ''string_mask = utf8only'', '''',
        ''[ server_distinguished_name ]'', ''commonName = Common Name'', '''',
        ''[ server_req_extensions ]'', ''subjectKeyIdentifier = hash'',
        ''basicConstraints = CA:FALSE'',
        ''keyUsage = digitalSignature, keyEncipherment, keyAgreement, nonRepudiation'',
        ''extendedKeyUsage = critical, serverAuth, clientAuth''] @
     (if dns_list = [] \<and> ip_list = [] then [] else [''subjectAltName = @alternate_names'']) @
       [''nsComment = '' @ [CHR 0x22] @ ''OpenSSL Generated Certificate'' @ [CHR 0x22], '''',
        ''[ alternate_names ]'']"

lemma cert_config_text:
  "cert_config dns_list ip_list = text_of_lines (config_head dns_list ip_list @
     config_block (numbered ''DNS'' dns_list) @ config_block (numbered ''IP'' ip_list))"
proof -
  have "text_of_lines (if e then [] else [''subjectAltName = @alternate_names'']) =
      (if e then [] else ''subjectAltName = @alternate_names'' @ [LF])" for e
    by (simp add: text_of_lines_def)
  then show ?thesis
    unfolding cert_config_def text_of_lines_append join_block [symmetric] config_head_def
    by (simp only: append_assoc)
qed

lemma config_head_plain: "\<forall>l \<in> set (config_head dns_list ip_list). plain_line l"
  by (simp add: config_head_def plain_line_def LF_def CR_def)

lemma numbered_Nil [simp]: "numbered what vs = [] \<longleftrightarrow> vs = []"
  by (cases vs) (simp_all add: numbered_def upt_conv_Cons del: upt_Suc)

lemma block_plain: "\<forall>l \<in> set ls. plain_line l \<Longrightarrow> \<forall>l \<in> set (config_block ls). plain_line l"
  by (simp add: config_block_def)

lemma cert_config_lines:
  assumes "\<forall>v \<in> set dns_list \<union> set ip_list. plain_line v"
  shows "str_lines (cert_config dns_list ip_list) = config_head dns_list ip_list @
     config_block (numbered ''DNS'' dns_list) @ config_block (numbered ''IP'' ip_list)"
proof -
  have k: "plain_line ''DNS''" "plain_line ''IP''" by (simp_all add: plain_line_def LF_def CR_def)
  have "\<forall>l \<in> set (numbered ''DNS'' dns_list). plain_line l"
    and "\<forall>l \<in> set (numbered ''IP'' ip_list). plain_line l"
    using assms numbered_plain [OF _ k(1)] numbered_plain [OF _ k(2)] by blast+
  then show ?thesis
    unfolding cert_config_text using config_head_plain block_plain
    by (intro str_lines_text_of_lines) (metis UnE set_append)
qed

lemma head_no_entries:
  "filter (starts_with ''DNS.'') (config_head ds is) = []"
  "filter (starts_with ''IP.'') (config_head ds is) = []"
  by (simp_all add: config_head_def starts_with_def)

lemma filter_other:
  "filter (starts_with ''DNS.'') (config_block (numbered ''IP'' vs)) = []"
  "filter (starts_with ''IP.'') (config_block (numbered ''DNS'' vs)) = []"
  by (auto simp: config_block_def numbered_def filter_empty_conv starts_with_def)

lemma filter_block:
  "filter (starts_with (what @ ''.'')) (config_block (numbered what vs)) = numbered what vs"
proof (cases "vs = []")
  case True
  then show ?thesis by (simp add: config_block_def starts_with_def numbered_def)
next
  case False
  then show ?thesis by (simp add: config_block_def filter_numbered_same)
qed

lemma config_entries_back:
  assumes "\<forall>v \<in> set dns_list \<union> set ip_list. plain_line v"
  shows "config_entries ''DNS'' (cert_config dns_list ip_list) = dns_list"
    and "config_entries ''IP'' (cert_config dns_list ip_list) = ip_list"
  using filter_block [of "''DNS''"] filter_block [of "''IP''"]
  by (simp_all add: config_entries_def cert_config_lines [OF assms] head_no_entries filter_other
      map_entry_value_numbered)

section \<open>Lemmas: what openssl prints\<close>

lemma trim_ends_graphic:
  assumes "s \<noteq> []" and "is_ascii_graphic (hd s)" and "is_ascii_graphic (last s)"
  shows "trim s = s"
proof (rule trim_fixed)
  fix w assume w: "w \<in> set ws_seqs"
  note ne = ws_seqs_nonempty [OF w] and g = ws_seqs_first_last [OF w]
  show "\<not> starts_with w s" using ne g assms by (cases w) (auto simp: starts_with_iff)
  show "\<not> ends_with w s" using ne g assms by (auto simp: ends_with_iff)
qed

lemma trim_space: "trim (CHR '' '' # s) = trim s"
proof -
  have "trim_start (CHR '' '' # s) = trim_start s"
    by (subst trim_start.simps) (simp add: ws_seqs_def starts_with_def)
  then show ?thesis by (simp add: trim_def)
qed

text \<open>The extension as openssl prints it: entries separated by a comma and a space.\<close>

fun san_text :: "(string + string) \<Rightarrow> string" where
  "san_text (Inl dns) = ''DNS:'' @ dns"
| "san_text (Inr ip) = ''IP Address:'' @ ip"

definition printed_sans :: "(string + string) list \<Rightarrow> string" where
  "printed_sans es =
     text_of_lines [''X509v3 Subject Alternative Name: '',
       ''    '' @ join '', '' (map san_text es)]"

fun plain_san :: "(string + string) \<Rightarrow> bool" where
  "plain_san (Inl v) \<longleftrightarrow> v \<noteq> [] \<and> list_all (\<lambda>c. is_ascii_graphic c \<and> c \<noteq> CHR '','') v"
| "plain_san (Inr v) \<longleftrightarrow> v \<noteq> [] \<and> list_all (\<lambda>c. is_ascii_graphic c \<and> c \<noteq> CHR '','') v"

lemma san_part_text: "plain_san e \<Longrightarrow> san_part (san_text e) = Some e"
proof (cases e)
  case (Inl v)
  assume p: "plain_san e"
  then have "trim v = v" using Inl by (intro trim_graphic) (auto simp: list_all_iff)
  moreover have "trim (san_text e) = san_text e"
    using p Inl by (intro trim_ends_graphic) (auto simp: list_all_iff is_ascii_graphic_def byte_def)
  ultimately show ?thesis using Inl by (simp add: san_part_def strip_prefix_def starts_with_def)
next
  case (Inr v)
  assume p: "plain_san e"
  then have "trim v = v" using Inr by (intro trim_graphic) (auto simp: list_all_iff)
  moreover have "trim (san_text e) = san_text e"
    using p Inr by (intro trim_ends_graphic) (auto simp: list_all_iff is_ascii_graphic_def byte_def)
  ultimately show ?thesis using Inr by (simp add: san_part_def strip_prefix_def starts_with_def)
qed

lemma san_part_spaces: "san_part (CHR '' '' # s) = san_part s"
  by (simp add: san_part_def trim_space)

lemma split_comma_space:
  assumes "\<forall>t \<in> set (t # ts). CHR '','' \<notin> set t"
  shows "split_on (\<lambda>c. c = CHR '','') (join '', '' (t # ts)) = t # map (Cons (CHR '' '')) ts"
  using assms
proof (induction ts arbitrary: t)
  case Nil
  then show ?case by (intro split_on_none [THEN trans]) auto
next
  case (Cons u us)
  have t: "\<forall>c \<in> set t. \<not> c = CHR '',''" using Cons.prems by auto
  have "split_on (\<lambda>c. c = CHR '','') (t @ CHR '','' # (CHR '' '' # join '', '' (u # us))) =
      t # split_on (\<lambda>c. c = CHR '','') (CHR '' '' # join '', '' (u # us))"
    by (rule split_on_append_sep) (use t in simp_all)
  then have "split_on (\<lambda>c. c = CHR '','') (join '', '' (t # u # us)) =
      t # split_on (\<lambda>c. c = CHR '','') (CHR '' '' # join '', '' (u # us))"
    by simp
  also have "\<dots> = t # map (Cons (CHR '' '')) (u # us)"
    using Cons.IH [of u] Cons.prems by simp
  finally show ?case .
qed

lemma san_lists_map:
  assumes "\<And>e. e \<in> set es \<Longrightarrow> san_part (f e) = Some e"
  shows "san_lists (map f es) = (List.map_filter (\<lambda>e. case e of Inl v \<Rightarrow> Some v | Inr _ \<Rightarrow> None) es,
    List.map_filter (\<lambda>e. case e of Inr v \<Rightarrow> Some v | Inl _ \<Rightarrow> None) es)"
  using assms by (induction es) (auto simp: map_filter_def split: sum.splits)

lemma san_lists_cong: "map san_part xs = map san_part ys \<Longrightarrow> san_lists xs = san_lists ys"
proof (induction xs arbitrary: ys)
  case Nil
  then show ?case by simp
next
  case (Cons x xs)
  then obtain y zs where y: "ys = y # zs" "san_part x = san_part y" "map san_part xs = map san_part zs"
    by (cases ys) auto
  show ?case unfolding y(1) san_lists.simps y(2) Cons.IH [OF y(3)] ..
qed

lemma graphic_plain: "\<forall>c \<in> set s. is_ascii_graphic c \<Longrightarrow> plain_line s"
  by (auto simp: plain_line_def LF_def CR_def is_ascii_graphic_def byte_def)

lemma san_text_plain:
  assumes "plain_san e"
  shows "CHR '','' \<notin> set (san_text e)" and "plain_line (san_text e)"
proof -
  have sp: "plain_line ''DNS:''" "plain_line ''IP Address:''"
    by (simp_all add: plain_line_def LF_def CR_def)
  show "CHR '','' \<notin> set (san_text e)" using assms by (cases e) (auto simp: list_all_iff)
  show "plain_line (san_text e)"
    using assms sp graphic_plain
    by (cases e) (simp_all add: list_all_iff del: append.simps)
qed

lemma plain_join_sep:
  "\<forall>w \<in> set ws. plain_line w \<Longrightarrow> plain_line sep \<Longrightarrow> plain_line (join sep ws)"
  by (induction sep ws rule: join.induct) auto

lemma parse_printed_sans:
  assumes "es \<noteq> []" and "\<forall>e \<in> set es. plain_san e"
  shows "parse_san_entries (printed_sans es) =
    (List.map_filter (\<lambda>e. case e of Inl v \<Rightarrow> Some v | Inr _ \<Rightarrow> None) es,
     List.map_filter (\<lambda>e. case e of Inr v \<Rightarrow> Some v | Inl _ \<Rightarrow> None) es)"
proof -
  let ?v = "''    '' @ join '', '' (map san_text es)"
  let ?h = "''X509v3 Subject Alternative Name: ''"
  have sp: "plain_line ''    ''" "plain_line '', ''" "plain_line ?h"
    by (simp_all add: plain_line_def LF_def CR_def)
  then have pv: "plain_line ?v"
    using assms(2) san_text_plain plain_join_sep [of "map san_text es" "'', ''"]
    by (simp only: plain_line_append) auto
  have "str_lines (printed_sans es) = [?h, ?v]"
    unfolding printed_sans_def using sp(3) pv
    by (intro str_lines_text_of_lines) (simp del: append.simps)
  moreover have "str_contains ''Subject Alternative Name:'' ?h" by code_simp
  ultimately have p: "parse_san_entries (printed_sans es) = san_lists (split_on (\<lambda>c. c = CHR '','') ?v)"
    by (simp add: parse_san_entries_def del: append.simps)
  obtain e rest where es: "es = e # rest" using assms(1) by (cases es) auto
  let ?f = "\<lambda>e'. san_text e'"
  have "split_on (\<lambda>c. c = CHR '','') (join '', '' (map san_text es)) =
      san_text e # map (Cons (CHR '' '')) (map san_text rest)"
    unfolding es list.map using assms(2) san_text_plain es by (intro split_comma_space) auto
  then have "split_on (\<lambda>c. c = CHR '','') ?v =
      (''    '' @ san_text e) # map (Cons (CHR '' '')) (map san_text rest)"
    by simp
  then have "map san_part (split_on (\<lambda>c. c = CHR '','') ?v) = map san_part (map san_text es)"
    by (simp add: es san_part_spaces)
  then have "san_lists (split_on (\<lambda>c. c = CHR '','') ?v) = san_lists (map san_text es)"
    by (rule san_lists_cong)
  moreover have "san_lists (map san_text es) = (List.map_filter (\<lambda>e. case e of Inl v \<Rightarrow> Some v | Inr _ \<Rightarrow> None) es,
     List.map_filter (\<lambda>e. case e of Inr v \<Rightarrow> Some v | Inl _ \<Rightarrow> None) es)"
    using assms(2) san_part_text by (intro san_lists_map) blast
  ultimately show ?thesis using p by simp
qed

section \<open>Lemmas: logged arguments, work directories\<close>

text \<open>Whether the argument after \<open>as\<close> is replaced.\<close>

fun redacts :: "bool \<Rightarrow> string list \<Rightarrow> bool" where
  "redacts b [] = b"
| "redacts b (a # as) = redacts (\<not> b \<and> secret_flag a) as"

lemma sanitize_loop_append:
  "sanitize_loop b (as @ cs) = sanitize_loop b as @ sanitize_loop (redacts b as) cs"
  by (induction as arbitrary: b) auto

lemma length_sanitize_loop: "length (sanitize_loop b as) = length as"
  by (induction as arbitrary: b) auto

definition workdir_stamp :: "string \<Rightarrow> bool" where
  "workdir_stamp s \<longleftrightarrow> length s = 16 \<and> s ! 8 = CHR ''T''"

lemma workdir_names_recognised:
  "workdir_stamp s \<Longrightarrow> length suffix = 10 \<Longrightarrow> looks_like_workdir (s @ ''-'' @ suffix)"
  by (simp add: looks_like_workdir_def workdir_stamp_def nth_append)

lemma reap_cutoff_bounds:
  assumes "0 \<le> now" and "now \<le> i64_max"
  shows "reap_cutoff now hours \<le> now"
    and "hours * 3600 < 2 ^ 63 \<Longrightarrow> reap_cutoff now hours = now - int hours * 3600"
proof -
  have w: "wrap64 x = x" if "i64_min \<le> x" "x \<le> i64_max" for x
    using that by (simp add: wrap64_id in_i64_def)
  let ?secs = "min (hours * 3600) (2 ^ 64 - 1)"
  let ?d = "if int ?secs \<le> i64_max then int ?secs else i64_max"
  have "0 \<le> ?d" by (simp add: i64_max_def)
  moreover have "?d \<le> i64_max"
    by (cases "int ?secs \<le> i64_max") (simp_all only: if_True if_False order_refl)
  ultimately have d: "0 \<le> ?d" "?d \<le> i64_max" .
  then have r: "reap_cutoff now hours = now - ?d"
    unfolding reap_cutoff_def Let_def sub64_def
    by (intro w) (use assms in \<open>unfold i64_min_def i64_max_def, linarith+\<close>)
  show "reap_cutoff now hours \<le> now" using r d(1) by linarith
  assume h: "hours * 3600 < 2 ^ 63"
  then have s: "?secs = hours * 3600" by simp
  have "int (hours * 3600) \<le> i64_max"
  proof -
    have "hours * 3600 \<le> nat 9223372036854775807" using h by simp
    then show ?thesis unfolding i64_max_def by linarith
  qed
  then have "?d = int (hours * 3600)" unfolding s by simp
  with r show "reap_cutoff now hours = now - int hours * 3600" by simp
qed

end
