(* ===== verification/Openssl_Run.thy ===== *)
theory Openssl_Run
  imports Openssl_Text
begin

text \<open>
  Running openssl (\<open>src/src/openssl.rs\<close>): the work directory, the commands of each
  operation in their order, and what is read back. The openssl program, the zip writer and
  the crate's own PKCS#12 writer are parameters (record \<open>tools\<close>); an operation is a
  function of the work directory that returns a result and the directory it leaves.
\<close>

section \<open>Work directories and tools\<close>

text \<open>
  Files by their path relative to the directory, the sub-directories made, and the
  argument lists of the commands run so far, in order.
\<close>

record workdir =
  wd_path :: string
  wd_files :: "string \<Rightarrow> string option"
  wd_dirs :: "string list"
  wd_calls :: "string list list"

definition fresh_workdir :: "string \<Rightarrow> workdir" where
  "fresh_workdir p = \<lparr>wd_path = p, wd_files = (\<lambda>_. None), wd_dirs = [], wd_calls = []\<rparr>"

record tool_result =
  tr_exit :: int
  tr_stdout :: string
  tr_stderr :: string
  tr_files :: "string \<Rightarrow> string option"

text \<open>
  \<open>t_run\<close>: the commands run before, the arguments and the files give the outcome, or
  \<open>None\<close> when the program cannot be started; a command stopped at the timeout has exit
  code -1. \<open>t_zip\<close> is the zip writer, \<open>t_store\<close> the function \<open>pkcs12::truststore\<close>.
\<close>

record tools =
  t_run :: "string list list \<Rightarrow> string list \<Rightarrow> (string \<Rightarrow> string option) \<Rightarrow> tool_result option"
  t_zip :: "(string \<times> string) list \<Rightarrow> string result"
  t_store :: "string \<Rightarrow> string \<Rightarrow> string \<Rightarrow> string result"

type_synonym 'a act = "workdir \<Rightarrow> 'a result \<times> workdir"

definition give :: "'a \<Rightarrow> 'a act" where
  "give a w = (Inr a, w)"

definition lift_res :: "'a result \<Rightarrow> 'a act" where
  "lift_res r w = (r, w)"

definition and_then :: "'a act \<Rightarrow> ('a \<Rightarrow> 'b act) \<Rightarrow> 'b act" where
  "and_then m f w = (case m w of (r, w') \<Rightarrow> (case r of Inl e \<Rightarrow> (Inl e, w') | Inr a \<Rightarrow> f a w'))"

definition in_context :: "string \<Rightarrow> 'a act \<Rightarrow> 'a act" where
  "in_context msg m w = (case m w of (r, w') \<Rightarrow> (with_context msg r, w'))"

definition read_file :: "string \<Rightarrow> string act" where
  "read_file f w =
     (case wd_files w f of
        None \<Rightarrow> (Inl (External ''No such file or directory (os error 2)''), w)
      | Some s \<Rightarrow> (Inr s, w))"

definition write_file :: "string \<Rightarrow> string \<Rightarrow> unit act" where
  "write_file f s w = (Inr (), w\<lparr>wd_files := (wd_files w)(f := Some s)\<rparr>)"

definition create_dir :: "string \<Rightarrow> unit act" where
  "create_dir n w =
     (if n \<in> set (wd_dirs w) then (Inl (External ''File exists (os error 17)''), w)
      else (Inr (), w\<lparr>wd_dirs := n # wd_dirs w\<rparr>))"

definition create_dir_all :: "string \<Rightarrow> unit act" where
  "create_dir_all n w = (Inr (), w\<lparr>wd_dirs := List.insert n (wd_dirs w)\<rparr>)"

text \<open>\<open>run_in\<close>: exit code, standard output and error.\<close>

definition run_in :: "tools \<Rightarrow> string list \<Rightarrow> (int \<times> string \<times> string) act" where
  "run_in t args w =
     (case t_run t (wd_calls w) args (wd_files w) of
        None \<Rightarrow> (Inl (Context (''failed to start openssl '' @ join '' '' (sanitize_args args))
                   (External ''spawn'')), w)
      | Some r \<Rightarrow> (Inr (tr_exit r, tr_stdout r, tr_stderr r),
                   w\<lparr>wd_files := tr_files r, wd_calls := wd_calls w @ [args]\<rparr>))"

definition first_arg :: "string list \<Rightarrow> string" where
  "first_arg args = (case args of [] \<Rightarrow> [] | a # _ \<Rightarrow> a)"

text \<open>\<open>run_ok\<close>: the standard output of a command that succeeded.\<close>

definition run_ok :: "tools \<Rightarrow> string list \<Rightarrow> string act" where
  "run_ok t args =
     and_then (run_in t args) (\<lambda>(code, out, err).
       if code \<noteq> 0
       then and_then (write_file ''.openssl-failed'' (first_arg args)) (\<lambda>_.
            lift_res (Inl (Bail (''openssl '' @ first_arg args @ '' failed: '' @
              from_utf8_lossy err))))
       else give out)"

definition openssl_check :: "tools \<Rightarrow> unit act" where
  "openssl_check t =
     and_then (run_in t [''version'']) (\<lambda>(code, out, err).
       if code \<noteq> 0 then lift_res (Inl (Bail (''openssl version failed: '' @ from_utf8_lossy err)))
       else give ())"

section \<open>Files the operations share\<close>

definition write_pass_file :: "string \<Rightarrow> string \<Rightarrow> string act" where
  "write_pass_file name password =
     (if LF \<in> set password \<or> CR \<in> set password
      then lift_res (Inl (Bail ''password must not contain newlines''))
      else and_then (write_file name (password @ [LF])) (\<lambda>_. give (''file:'' @ name)))"

definition initial_crl_number :: string where
  "initial_crl_number = ''01'' @ [LF]"

definition export_ca_state :: "ca_secrets \<Rightarrow> unit act" where
  "export_ca_state ca =
     and_then (write_file ''ca-cert.pem'' (s_cert_pem ca)) (\<lambda>_.
     and_then (write_file ''ca-key.pem'' (s_key_pem ca)) (\<lambda>_.
     and_then (write_file ''index.txt'' (s_index_txt ca)) (\<lambda>_.
     and_then (write_file ''serial.txt'' (s_serial_txt ca)) (\<lambda>_.
     write_file ''crlnumber.txt''
       (if list_all is_ascii_whitespace (s_crlnumber_txt ca) then initial_crl_number
        else s_crlnumber_txt ca)))))"

record crl_refresh =
  cr_crl_der :: string
  cr_index_txt :: string
  cr_serial_txt :: string
  cr_crlnumber_txt :: string

definition read_crl_refresh :: "crl_refresh act" where
  "read_crl_refresh =
     and_then (read_file ''ca.crl'') (\<lambda>crl.
     and_then (read_file ''index.txt'') (\<lambda>idx.
     and_then (read_file ''serial.txt'') (\<lambda>ser.
     and_then (read_file ''crlnumber.txt'') (\<lambda>num.
     give \<lparr>cr_crl_der = crl, cr_index_txt = idx, cr_serial_txt = ser, cr_crlnumber_txt = num\<rparr>))))"

definition build_bundle :: "tools \<Rightarrow> cert_secrets \<Rightarrow> string \<Rightarrow> string result" where
  "build_bundle t cert ca_cert_pem =
     t_zip t [(''cert.csr'', k_csr_pem cert), (''cert.key'', k_key_pem cert),
       (''cert.p12'', k_pkcs12 cert), (''cert.pem'', k_cert_pem cert),
       (''cert-p12-password.txt'', k_password cert), (''ca.pem'', ca_cert_pem)]"

definition read_cert_files :: "string \<Rightarrow> cert_secrets act" where
  "read_cert_files bundle =
     and_then (read_file ''cert/cert.pem'') (\<lambda>pem.
     and_then (read_file ''cert/cert.key'') (\<lambda>key.
     and_then (read_file ''cert/cert.csr'') (\<lambda>csr.
     and_then (read_file ''cert/cert.p12'') (\<lambda>p12.
     and_then (read_file ''cert/password.txt'') (\<lambda>pw.
     give \<lparr>k_cert_pem = pem, k_key_pem = key, k_csr_pem = csr, k_pkcs12 = p12,
       k_password = pw, k_bundle_zip = bundle\<rparr>)))))"

definition create_bundle :: "tools \<Rightarrow> string act" where
  "create_bundle t =
     and_then (read_cert_files []) (\<lambda>cert.
     and_then (read_file ''ca-cert.pem'') (\<lambda>ca.
     lift_res (build_bundle t cert ca)))"

definition read_cert_secrets :: "tools \<Rightarrow> cert_secrets act" where
  "read_cert_secrets t = and_then (create_bundle t) read_cert_files"

definition pkcs12_args :: "string \<Rightarrow> string \<Rightarrow> string \<Rightarrow> string \<Rightarrow> string list" where
  "pkcs12_args out cert key passout =
     [''pkcs12'', ''-export'', ''-out'', out, ''-in'', cert, ''-inkey'', key, ''-passout'', passout]"

definition genkey_args :: "string \<Rightarrow> key_attributes \<Rightarrow> string \<Rightarrow> string list option" where
  "genkey_args output attributes algorithm =
     (let a = to_ascii_lowercase (trim algorithm)
      in if a = ''rsa''
         then Some [''genpkey'', ''-algorithm'', ''RSA'', ''-pkeyopt'',
           ''rsa_keygen_bits:'' @ show_int (case attributes of Bits n \<Rightarrow> n | Curve _ \<Rightarrow> 4096),
           ''-out'', output]
         else if a = ''ecdsa'' \<or> a = ''ec''
         then Some [''genpkey'', ''-algorithm'', ''EC'', ''-pkeyopt'',
           ''ec_paramgen_curve:'' @ (case attributes of Curve c \<Rightarrow> c | Bits _ \<Rightarrow> ''prime256v1''),
           ''-out'', output]
         else None)"

definition generate_key :: "tools \<Rightarrow> string \<Rightarrow> string \<Rightarrow> key_attributes \<Rightarrow> unit act" where
  "generate_key t output algorithm attributes =
     (case genkey_args output attributes algorithm of
        Some args \<Rightarrow> and_then (run_ok t args) (\<lambda>_. give ())
      | None \<Rightarrow> lift_res (Inl (Bail (''unsupported key algorithm: '' @
                  to_ascii_lowercase (trim algorithm)))))"

section \<open>Issuing\<close>

definition self_sign_args :: "string \<Rightarrow> int \<Rightarrow> string \<Rightarrow> string list" where
  "self_sign_args subject valid_days digest =
     [''req'', ''-new'', ''-x509'', ''-nodes'', ''-days'', show_int valid_days, ''-key'',
      ''ca-key.pem'', ''-'' @ digest, ''-out'', ''ca-cert.pem'', ''-subj'', subject]"

definition csr_args :: "string \<Rightarrow> string \<Rightarrow> string list" where
  "csr_args subject digest =
     [''req'', ''-config'', ''openssl-cert.conf'', ''-new'', ''-key'', ''cert/cert.key'',
      ''-'' @ digest, ''-nodes'', ''-out'', ''cert/cert.csr'', ''-outform'', ''PEM'', ''-subj'',
      subject]"

definition sign_args :: "int \<Rightarrow> string \<Rightarrow> string list" where
  "sign_args valid_days digest =
     [''ca'', ''-config'', ''openssl-ca.conf'', ''-days'', show_int valid_days, ''-md'', digest,
      ''-batch'', ''-policy'', ''signing_policy'', ''-extensions'', ''signing_req'', ''-notext'',
      ''-out'', ''cert/cert.pem'', ''-infiles'', ''cert/cert.csr'']"

definition finish_ca_files :: "tools \<Rightarrow> 8 word list \<Rightarrow> string \<Rightarrow> ca_secrets act" where
  "finish_ca_files t random password =
     and_then (write_pass_file ''ca-p12.pass'' password) (\<lambda>passout.
     and_then (run_ok t (pkcs12_args ''ca.p12'' ''ca-cert.pem'' ''ca-key.pem'' passout)) (\<lambda>_.
     and_then (write_file ''password.txt'' password) (\<lambda>_.
     and_then (write_file ''index.txt'' []) (\<lambda>_.
     and_then (write_file ''serial.txt'' (random_serial_hex random @ [LF])) (\<lambda>_.
     and_then (write_file ''crlnumber.txt'' initial_crl_number) (\<lambda>_.
     and_then (read_file ''ca-cert.pem'') (\<lambda>cert.
     and_then (read_file ''ca-key.pem'') (\<lambda>key.
     and_then (read_file ''ca.p12'') (\<lambda>p12.
     and_then (read_file ''index.txt'') (\<lambda>idx.
     and_then (read_file ''serial.txt'') (\<lambda>ser.
     and_then (read_file ''crlnumber.txt'') (\<lambda>num.
     give \<lparr>s_cert_pem = cert, s_key_pem = key, s_pkcs12 = p12, s_password = password,
       s_index_txt = idx, s_serial_txt = ser, s_crl_der = [], s_crl_updated_at = 0,
       s_crlnumber_txt = num\<rparr>))))))))))))"

definition create_ca_files ::
  "tools \<Rightarrow> 8 word list \<Rightarrow> string \<Rightarrow> int \<Rightarrow> string \<Rightarrow> string \<Rightarrow> key_attributes \<Rightarrow> string \<Rightarrow>
   ca_secrets act"
where
  "create_ca_files t random subject valid_days digest algorithm options password =
     and_then (lift_res (normalize_digest digest)) (\<lambda>digest.
     and_then (generate_key t ''ca-key.pem'' algorithm options) (\<lambda>_.
     and_then (run_ok t (self_sign_args subject valid_days digest)) (\<lambda>_.
     finish_ca_files t random password)))"

definition ca_config_file :: "int \<Rightarrow> string option \<Rightarrow> unit act" where
  "ca_config_file crl_days crl_url w =
     write_file ''openssl-ca.conf'' (ca_config (wd_path w) crl_days crl_url) w"

definition create_cert_files ::
  "tools \<Rightarrow> ca_secrets \<Rightarrow> string \<Rightarrow> int \<Rightarrow> string \<Rightarrow> string \<Rightarrow> key_attributes \<Rightarrow> string list \<Rightarrow>
   string list \<Rightarrow> string \<Rightarrow> string option \<Rightarrow> int \<Rightarrow> (cert_secrets \<times> string \<times> string) act"
where
  "create_cert_files t ca subject valid_days digest algorithm options dns_list ip_list password
     crl_url crl_days =
     and_then (lift_res (normalize_digest digest)) (\<lambda>digest.
     and_then (export_ca_state ca) (\<lambda>_.
     and_then (create_dir_all ''certs'') (\<lambda>_.
     and_then (create_dir ''cert'') (\<lambda>_.
     and_then (ca_config_file crl_days crl_url) (\<lambda>_.
     and_then (write_file ''openssl-cert.conf'' (cert_config dns_list ip_list)) (\<lambda>_.
     and_then (generate_key t ''cert/cert.key'' algorithm options) (\<lambda>_.
     and_then (run_ok t (csr_args subject digest)) (\<lambda>_.
     and_then (run_ok t (sign_args valid_days digest)) (\<lambda>_.
     and_then (write_pass_file ''cert-p12.pass'' password) (\<lambda>passout.
     and_then (run_ok t (pkcs12_args ''cert/cert.p12'' ''cert/cert.pem'' ''cert/cert.key'' passout)) (\<lambda>_.
     and_then (write_file ''cert/password.txt'' password) (\<lambda>_.
     and_then (read_cert_secrets t) (\<lambda>secrets.
     and_then (read_file ''index.txt'') (\<lambda>index_txt.
     and_then (read_file ''serial.txt'') (\<lambda>serial_txt.
     give (secrets, index_txt, serial_txt))))))))))))))))"

section \<open>Renewing\<close>

record renewal_request =
  rn_subject :: "string option"
  rn_dns_list :: "string list"
  rn_ip_list :: "string list"

text \<open>The signing request rebuilt from the key, when the subject is known: did it work?\<close>

definition rebuild_csr :: "tools \<Rightarrow> renewal_request \<Rightarrow> string \<Rightarrow> bool act" where
  "rebuild_csr t renewal digest =
     (case rn_subject renewal of
        None \<Rightarrow> give False
      | Some subject \<Rightarrow>
          and_then (write_file ''openssl-cert.conf''
              (cert_config (rn_dns_list renewal) (rn_ip_list renewal))) (\<lambda>_.
          and_then (run_in t (csr_args subject digest)) (\<lambda>(code, out, err).
          give (code = 0))))"

definition renew_cert_files ::
  "tools \<Rightarrow> ca_secrets \<Rightarrow> cert_secrets \<Rightarrow> renewal_request \<Rightarrow> int \<Rightarrow> string \<Rightarrow> string option \<Rightarrow> int \<Rightarrow>
   (string \<times> string \<times> string \<times> string) act"
where
  "renew_cert_files t ca cert renewal valid_days digest crl_url crl_days =
     and_then (lift_res (normalize_digest digest)) (\<lambda>digest.
     and_then (export_ca_state ca) (\<lambda>_.
     and_then (create_dir_all ''certs'') (\<lambda>_.
     and_then (ca_config_file crl_days crl_url) (\<lambda>_.
     and_then (create_dir ''cert'') (\<lambda>_.
     and_then (write_file ''cert/cert.key'' (k_key_pem cert)) (\<lambda>_.
     and_then (rebuild_csr t renewal digest) (\<lambda>rebuilt.
     and_then (if rebuilt then give () else write_file ''cert/cert.csr'' (k_csr_pem cert)) (\<lambda>_.
     and_then (run_ok t (sign_args valid_days digest)) (\<lambda>_.
     and_then (write_pass_file ''cert-p12.pass'' (k_password cert)) (\<lambda>passout.
     and_then (run_ok t (pkcs12_args ''cert/cert.p12'' ''cert/cert.pem'' ''cert/cert.key'' passout)) (\<lambda>_.
     and_then (write_file ''cert/password.txt'' (k_password cert)) (\<lambda>_.
     and_then (read_file ''cert/cert.pem'') (\<lambda>cert_pem.
     and_then (read_file ''cert/cert.p12'') (\<lambda>pkcs12.
     and_then (create_bundle t) (\<lambda>bundle.
     and_then (read_file ''index.txt'') (\<lambda>index_txt.
     give (cert_pem, pkcs12, bundle, index_txt)))))))))))))))))"

definition hashes_equal :: "string list \<Rightarrow> bool" where
  "hashes_equal hs \<longleftrightarrow> length hs = 2 \<and> hs ! 0 = hs ! 1"

definition is_self_issued :: "tools \<Rightarrow> string \<Rightarrow> bool act" where
  "is_self_issued t pem =
     and_then (write_file ''inspect-issuer.pem'' pem) (\<lambda>_.
     and_then (run_ok t [''x509'', ''-in'', ''inspect-issuer.pem'', ''-noout'', ''-subject_hash'',
       ''-issuer_hash'']) (\<lambda>out.
     give (hashes_equal (map trim (str_lines (from_utf8_lossy out))))))"

definition pubkey_args :: "string \<Rightarrow> string list" where
  "pubkey_args cert_file = [''x509'', ''-in'', cert_file, ''-noout'', ''-pubkey'']"

definition keypub_args :: "string \<Rightarrow> string list" where
  "keypub_args key_file = [''pkey'', ''-in'', key_file, ''-pubout'']"

definition serial_args :: "string \<Rightarrow> string list" where
  "serial_args cert_file = [''x509'', ''-in'', cert_file, ''-noout'', ''-serial'']"

definition resign_args :: "int \<Rightarrow> string \<Rightarrow> string \<Rightarrow> string list" where
  "resign_args valid_days serial digest =
     [''x509'', ''-in'', ''ca-cert.pem'', ''-signkey'', ''ca-key.pem'', ''-days'',
      show_int valid_days, ''-set_serial'', serial, ''-'' @ digest, ''-out'',
      ''ca-cert-renewed.pem'']"

text \<open>\<open>openssl pkey\<close> and \<open>x509 -pubkey\<close> print the same key.\<close>

definition same_pubkey :: "tools \<Rightarrow> string \<Rightarrow> string \<Rightarrow> string \<Rightarrow> string \<Rightarrow> unit act" where
  "same_pubkey t msg mismatch key_file cert_file =
     and_then (in_context msg (run_ok t (keypub_args key_file))) (\<lambda>key_pub.
     and_then (run_ok t (pubkey_args cert_file)) (\<lambda>cert_pub.
     if trim (from_utf8_lossy key_pub) \<noteq> trim (from_utf8_lossy cert_pub)
     then lift_res (Inl (Bail mismatch)) else give ()))"

definition renew_ca_files ::
  "tools \<Rightarrow> 8 word list \<Rightarrow> ca_secrets \<Rightarrow> int \<Rightarrow> string \<Rightarrow> (string \<times> string) act"
where
  "renew_ca_files t random ca valid_days digest =
     and_then (lift_res (normalize_digest digest)) (\<lambda>digest.
     and_then (write_file ''ca-cert.pem'' (s_cert_pem ca)) (\<lambda>_.
     and_then (write_file ''ca-key.pem'' (s_key_pem ca)) (\<lambda>_.
     and_then (is_self_issued t (s_cert_pem ca)) (\<lambda>self.
     if \<not> self
     then lift_res (Inl (Bail ''only a self-signed (root) CA can be renewed here; an intermediate CA must be re-issued by its parent''))
     else
     and_then (same_pubkey t ''CA private key could not be read''
         ''CA private key does not match the CA certificate'' ''ca-key.pem'' ''ca-cert.pem'') (\<lambda>_.
     and_then (run_ok t (serial_args ''ca-cert.pem'')) (\<lambda>old_serial.
     and_then (run_ok t (resign_args valid_days (''0x'' @ random_serial_hex random) digest)) (\<lambda>_.
     and_then (run_ok t (serial_args ''ca-cert-renewed.pem'')) (\<lambda>new_serial.
     if new_serial = old_serial
     then lift_res (Inl (Bail ''openssl did not assign a new serial to the renewed CA certificate''))
     else
     and_then (in_context ''renewed CA certificate does not verify against itself''
         (run_ok t [''verify'', ''-CAfile'', ''ca-cert-renewed.pem'', ''ca-cert-renewed.pem''])) (\<lambda>_.
     and_then (write_pass_file ''ca-p12.pass'' (s_password ca)) (\<lambda>passout.
     and_then (run_ok t (pkcs12_args ''ca-renewed.p12'' ''ca-cert-renewed.pem'' ''ca-key.pem'' passout)) (\<lambda>_.
     and_then (read_file ''ca-cert-renewed.pem'') (\<lambda>cert_pem.
     and_then (read_file ''ca-renewed.p12'') (\<lambda>pkcs12.
     give (cert_pem, pkcs12))))))))))))))"

section \<open>Revoking\<close>

definition gencrl_args :: "string list" where
  "gencrl_args = [''ca'', ''-config'', ''openssl-ca.conf'', ''-gencrl'', ''-out'', ''ca.crl.pem'']"

definition crl_der_args :: "string list" where
  "crl_der_args = [''crl'', ''-in'', ''ca.crl.pem'', ''-out'', ''ca.crl'', ''-outform'', ''DER'']"

definition revoke_args :: "string \<Rightarrow> string list" where
  "revoke_args reason =
     [''ca'', ''-config'', ''openssl-ca.conf'', ''-revoke'', ''revoke.pem'', ''-crl_reason'', reason]"

definition generate_crl :: "tools \<Rightarrow> ca_secrets \<Rightarrow> int \<Rightarrow> crl_refresh act" where
  "generate_crl t ca crl_days =
     and_then (export_ca_state ca) (\<lambda>_.
     and_then (create_dir_all ''certs'') (\<lambda>_.
     and_then (ca_config_file crl_days None) (\<lambda>_.
     and_then (run_ok t gencrl_args) (\<lambda>_.
     and_then (run_ok t crl_der_args) (\<lambda>_.
     read_crl_refresh)))))"

text \<open>\<open>trim_start_matches("serial=")\<close> removes the prefix as often as it occurs.\<close>

function trim_prefixes :: "string \<Rightarrow> string \<Rightarrow> string" where
  "trim_prefixes p s =
     (if p \<noteq> [] \<and> starts_with p s then trim_prefixes p (drop (length p) s) else s)"
  by pat_completeness auto
termination
proof (relation "measure (\<lambda>(p, s). length s)")
  fix p s :: string
  assume "p \<noteq> [] \<and> starts_with p s"
  then show "((p, drop (length p) s), p, s) \<in> measure (\<lambda>(p, s). length s)"
    by (cases s) (auto simp: starts_with_def)
qed simp

declare trim_prefixes.simps [simp del]

definition read_index_text :: "string act" where
  "read_index_text =
     and_then (read_file ''index.txt'') (\<lambda>idx.
     if valid_utf8 idx then give idx
     else lift_res (Inl (External ''stream did not contain valid UTF-8'')))"

definition revoke_cert_files ::
  "tools \<Rightarrow> ca_secrets \<Rightarrow> cert_secrets \<Rightarrow> string \<Rightarrow> int \<Rightarrow> crl_refresh act"
where
  "revoke_cert_files t ca cert reason crl_days =
     and_then (export_ca_state ca) (\<lambda>_.
     and_then (create_dir_all ''certs'') (\<lambda>_.
     and_then (ca_config_file crl_days None) (\<lambda>_.
     and_then (write_file ''revoke.pem'' (k_cert_pem cert)) (\<lambda>_.
     and_then (run_ok t (revoke_args reason)) (\<lambda>_.
     and_then (run_ok t (serial_args ''revoke.pem'')) (\<lambda>serial_out.
     and_then read_index_text (\<lambda>idx.
     let serial = trim_prefixes ''serial='' (trim (from_utf8_lossy serial_out));
         (index', extra_revoked) = revoke_superseded_index_entries idx serial
     in
     and_then (if 0 < extra_revoked then write_file ''index.txt'' index' else give ()) (\<lambda>_.
     and_then (run_ok t gencrl_args) (\<lambda>_.
     and_then (run_ok t crl_der_args) (\<lambda>_.
     read_crl_refresh))))))))))"

section \<open>Importing\<close>

definition to_req_args :: "bool \<Rightarrow> string list" where
  "to_req_args copy =
     [''x509'', ''-x509toreq''] @ (if copy then [''-copy_extensions'', ''copyall''] else []) @
     [''-in'', ''cert/cert.pem'', ''-signkey'', ''cert/cert.key'', ''-out'', ''cert/cert.csr'']"

text \<open>The request the caller supplied, when openssl can read it: was it usable?\<close>

definition supplied_csr :: "tools \<Rightarrow> string option \<Rightarrow> bool act" where
  "supplied_csr t csr_pem =
     (case csr_pem of
        None \<Rightarrow> give False
      | Some csr \<Rightarrow>
          if list_all is_ascii_whitespace csr then give False
          else
            and_then (write_file ''cert/cert.csr'' csr) (\<lambda>_.
            and_then (run_in t [''req'', ''-in'', ''cert/cert.csr'', ''-noout'', ''-verify'']) (\<lambda>(code, out, err).
            give (code = 0))))"

definition derive_csr :: "tools \<Rightarrow> unit act" where
  "derive_csr t =
     and_then (run_in t (to_req_args True)) (\<lambda>(code, out, err).
     if code = 0 then give ()
     else and_then (in_context ''failed to derive a CSR from the imported certificate''
            (run_ok t (to_req_args False))) (\<lambda>_. give ()))"

definition check_key_matches_cert :: "tools \<Rightarrow> string \<Rightarrow> string \<Rightarrow> unit act" where
  "check_key_matches_cert t cert_file key_file =
     same_pubkey t ''private key could not be read'' ''private key does not match the certificate''
       key_file cert_file"

definition import_cert_files ::
  "tools \<Rightarrow> ca_secrets \<Rightarrow> string \<Rightarrow> string \<Rightarrow> string option \<Rightarrow> string \<Rightarrow> cert_secrets act"
where
  "import_cert_files t ca cert_pem key_pem csr_pem password =
     and_then (export_ca_state ca) (\<lambda>_.
     and_then (create_dir ''cert'') (\<lambda>_.
     and_then (write_file ''cert/cert.pem'' cert_pem) (\<lambda>_.
     and_then (write_file ''cert/cert.key'' key_pem) (\<lambda>_.
     and_then (in_context ''imported certificate was not issued by this CA''
         (run_ok t [''verify'', ''-CAfile'', ''ca-cert.pem'', ''cert/cert.pem''])) (\<lambda>_.
     and_then (in_context ''imported private key does not match the certificate''
         (check_key_matches_cert t ''cert/cert.pem'' ''cert/cert.key'')) (\<lambda>_.
     and_then (supplied_csr t csr_pem) (\<lambda>supplied.
     and_then (if supplied then give () else derive_csr t) (\<lambda>_.
     and_then (write_pass_file ''cert-p12.pass'' password) (\<lambda>passout.
     and_then (run_ok t (pkcs12_args ''cert/cert.p12'' ''cert/cert.pem'' ''cert/cert.key'' passout)) (\<lambda>_.
     and_then (write_file ''cert/password.txt'' password) (\<lambda>_.
     read_cert_secrets t)))))))))))"

section \<open>Inspecting\<close>

definition inspect_cert_text :: "tools \<Rightarrow> string \<Rightarrow> string act" where
  "inspect_cert_text t pem =
     and_then (write_file ''inspect-text.pem'' pem) (\<lambda>_.
     and_then (run_ok t [''x509'', ''-in'', ''inspect-text.pem'', ''-noout'', ''-text'']) (\<lambda>out.
     give (from_utf8_lossy out)))"

definition is_ca_cert :: "tools \<Rightarrow> string \<Rightarrow> bool act" where
  "is_ca_cert t pem = and_then (inspect_cert_text t pem) (\<lambda>text. give (text_is_ca text))"

definition inspect_cert :: "tools \<Rightarrow> string \<Rightarrow> (string \<times> string) list act" where
  "inspect_cert t pem =
     and_then (write_file ''inspect.pem'' pem) (\<lambda>_.
     and_then (run_ok t [''x509'', ''-in'', ''inspect.pem'', ''-noout'', ''-subject'', ''-issuer'',
       ''-dates'', ''-serial'', ''-fingerprint'', ''-sha256'']) (\<lambda>out.
     give (key_value_lines (CHR ''='') (from_utf8_lossy out))))"

definition truststore_pkcs12 :: "tools \<Rightarrow> string \<Rightarrow> string \<Rightarrow> string \<Rightarrow> string act" where
  "truststore_pkcs12 t cert_pem alias_name password =
     and_then (write_file ''truststore-cert.pem'' cert_pem) (\<lambda>_.
     and_then (write_pass_file ''truststore.pass'' password) (\<lambda>passout.
     and_then (run_in t [''pkcs12'', ''-export'', ''-nokeys'', ''-in'', ''truststore-cert.pem'',
       ''-jdktrust'', ''anyExtendedKeyUsage'', ''-caname'', alias_name, ''-out'', ''truststore.p12'',
       ''-passout'', passout]) (\<lambda>(code, out, err).
     if code = 0 then read_file ''truststore.p12''
     else lift_res (t_store t cert_pem alias_name password))))"

definition inspect_cert_subject_rfc2253 :: "tools \<Rightarrow> string \<Rightarrow> string act" where
  "inspect_cert_subject_rfc2253 t pem =
     and_then (write_file ''inspect-subject.pem'' pem) (\<lambda>_.
     and_then (run_ok t [''x509'', ''-in'', ''inspect-subject.pem'', ''-noout'', ''-subject'',
       ''-nameopt'', ''RFC2253,-esc_msb,-dn_rev'']) (\<lambda>out.
     let text = trim (from_utf8_lossy out)
     in give (trim (case strip_prefix ''subject='' text of Some s \<Rightarrow> s | None \<Rightarrow> text))))"

definition inspect_cert_purposes :: "tools \<Rightarrow> string \<Rightarrow> (string \<times> string) list act" where
  "inspect_cert_purposes t pem =
     and_then (write_file ''inspect-purpose.pem'' pem) (\<lambda>_.
     and_then (run_ok t [''x509'', ''-in'', ''inspect-purpose.pem'', ''-noout'', ''-purpose'']) (\<lambda>out.
     give (key_value_lines (CHR '':'') (from_utf8_lossy out))))"

definition inspect_cert_sans :: "tools \<Rightarrow> string \<Rightarrow> (string list \<times> string list) act" where
  "inspect_cert_sans t pem =
     and_then (write_file ''inspect-san.pem'' pem) (\<lambda>_.
     and_then (run_in t [''x509'', ''-in'', ''inspect-san.pem'', ''-noout'', ''-ext'',
       ''subjectAltName'']) (\<lambda>(code, out, err).
     and_then
       (if code = 0 then give (from_utf8_lossy out)
        else and_then (run_ok t [''x509'', ''-in'', ''inspect-san.pem'', ''-noout'', ''-text''])
               (\<lambda>out. give (from_utf8_lossy out))) (\<lambda>text.
     give (parse_san_entries text))))"

section \<open>Lemmas: inversion\<close>

named_theorems act_simps "inversion rules for successful operations on a work directory"

lemma and_then_Inr [act_simps]:
  "and_then m f w = (Inr b, w'') \<longleftrightarrow> (\<exists>a w'. m w = (Inr a, w') \<and> f a w' = (Inr b, w''))"
  by (auto simp: and_then_def split: prod.splits sum.splits)

lemma give_Inr [act_simps]: "give a w = (Inr b, w') \<longleftrightarrow> b = a \<and> w' = w"
  by (auto simp: give_def)

lemma lift_res_Inr [act_simps]: "lift_res r w = (Inr b, w') \<longleftrightarrow> r = Inr b \<and> w' = w"
  by (auto simp: lift_res_def)

lemma in_context_Inr [act_simps]: "in_context c m w = (Inr b, w') \<longleftrightarrow> m w = (Inr b, w')"
  by (cases "m w") (auto simp: in_context_def with_context_eq_Inr)

lemma read_file_Inr [act_simps]:
  "read_file f w = (Inr s, w') \<longleftrightarrow> wd_files w f = Some s \<and> w' = w"
  by (auto simp: read_file_def split: option.splits)

lemma write_file_Inr [act_simps]:
  "write_file f s w = (Inr u, w') \<longleftrightarrow> w' = w\<lparr>wd_files := (wd_files w)(f := Some s)\<rparr>"
  by (auto simp: write_file_def)

lemma create_dir_Inr [act_simps]:
  "create_dir n w = (Inr u, w') \<longleftrightarrow> n \<notin> set (wd_dirs w) \<and> w' = w\<lparr>wd_dirs := n # wd_dirs w\<rparr>"
  by (auto simp: create_dir_def)

lemma create_dir_all_Inr [act_simps]:
  "create_dir_all n w = (Inr u, w') \<longleftrightarrow> w' = w\<lparr>wd_dirs := List.insert n (wd_dirs w)\<rparr>"
  by (auto simp: create_dir_all_def)

lemma run_in_Inr [act_simps]:
  "run_in t args w = (Inr (code, out, err), w') \<longleftrightarrow>
   (\<exists>r. t_run t (wd_calls w) args (wd_files w) = Some r \<and> code = tr_exit r \<and> out = tr_stdout r \<and>
      err = tr_stderr r \<and> w' = w\<lparr>wd_files := tr_files r, wd_calls := wd_calls w @ [args]\<rparr>)"
  by (auto simp: run_in_def split: option.splits)

lemma run_ok_Inr [act_simps]:
  "run_ok t args w = (Inr out, w') \<longleftrightarrow>
   (\<exists>r. t_run t (wd_calls w) args (wd_files w) = Some r \<and> tr_exit r = 0 \<and> out = tr_stdout r \<and>
      w' = w\<lparr>wd_files := tr_files r, wd_calls := wd_calls w @ [args]\<rparr>)"
  by (auto simp: run_ok_def and_then_def run_in_def give_def lift_res_def write_file_def
      split: option.splits)

lemma write_pass_file_Inr [act_simps]:
  "write_pass_file name pw w = (Inr arg, w') \<longleftrightarrow> LF \<notin> set pw \<and> CR \<notin> set pw \<and> arg = ''file:'' @ name \<and>
   w' = w\<lparr>wd_files := (wd_files w)(name := Some (pw @ [LF]))\<rparr>"
  by (auto simp: write_pass_file_def act_simps)

section \<open>Lemmas: the order of the commands\<close>

text \<open>
  An operation runs exactly the commands \<open>cs\<close> in this order when it succeeds, and a
  prefix of them when it fails.
\<close>

definition runs :: "string list list \<Rightarrow> 'a act \<Rightarrow> bool" where
  "runs cs m \<longleftrightarrow>
     (\<forall>w r w'. m w = (r, w') \<longrightarrow>
        (\<exists>n. wd_calls w' = wd_calls w @ take n cs) \<and>
        (is_ok r \<longrightarrow> wd_calls w' = wd_calls w @ cs))"

named_theorems runs_intros "which commands an operation runs"

lemma runs_no_calls: "(\<And>w. wd_calls (snd (m w)) = wd_calls w) \<Longrightarrow> runs [] m"
  unfolding runs_def by (metis append.right_neutral snd_conv take_Nil)

lemma runs_give [runs_intros]: "runs [] (give a)"
  by (rule runs_no_calls) (simp add: give_def)

lemma runs_lift_res [runs_intros]: "runs [] (lift_res r)"
  by (rule runs_no_calls) (simp add: lift_res_def)

lemma runs_read_file [runs_intros]: "runs [] (read_file f)"
  by (rule runs_no_calls) (simp add: read_file_def split: option.split)

lemma runs_write_file [runs_intros]: "runs [] (write_file f s)"
  by (rule runs_no_calls) (simp add: write_file_def)

lemma runs_create_dir [runs_intros]: "runs [] (create_dir n)"
  by (rule runs_no_calls) (simp add: create_dir_def)

lemma runs_create_dir_all [runs_intros]: "runs [] (create_dir_all n)"
  by (rule runs_no_calls) (simp add: create_dir_all_def)

lemma runs_ca_config_file [runs_intros]: "runs [] (ca_config_file crl_days crl_url)"
  by (rule runs_no_calls) (simp add: ca_config_file_def write_file_def)

lemma runs_run_in [runs_intros]: "runs [args] (run_in t args)"
  unfolding runs_def run_in_def
  by (auto split: option.splits intro: exI [of _ 0] exI [of _ "Suc 0"])

lemma runs_and_then:
  assumes "runs cs m" and "\<And>a w w'. m w = (Inr a, w') \<Longrightarrow> runs ds (f a)"
  shows "runs (cs @ ds) (and_then m f)"
  unfolding runs_def
proof (intro allI impI)
  fix w r w''
  assume e: "and_then m f w = (r, w'')"
  obtain q w' where m: "m w = (q, w')" by (cases "m w")
  note c = assms(1) [unfolded runs_def, rule_format, OF m]
  show "(\<exists>n. wd_calls w'' = wd_calls w @ take n (cs @ ds)) \<and>
      (is_ok r \<longrightarrow> wd_calls w'' = wd_calls w @ cs @ ds)"
  proof (cases q)
    case (Inl x)
    then have "r = Inl x" "w'' = w'" using e m by (simp_all add: and_then_def)
    moreover obtain n where n: "wd_calls w' = wd_calls w @ take n cs" using c by blast
    then have "wd_calls w' = wd_calls w @ take (min n (length cs)) (cs @ ds)" by (simp add: min_def)
    ultimately show ?thesis by (metis is_ok_simps(1))
  next
    case (Inr a)
    then have fa: "f a w' = (r, w'')" and w': "wd_calls w' = wd_calls w @ cs"
      using e m c by (simp_all add: and_then_def)
    note d = assms(2) [OF m [unfolded Inr], unfolded runs_def, rule_format, OF fa]
    then obtain n where "wd_calls w'' = wd_calls w' @ take n ds" by blast
    then have "wd_calls w'' = wd_calls w @ take (length cs + n) (cs @ ds)" using w' by simp
    moreover have "is_ok r \<longrightarrow> wd_calls w'' = wd_calls w @ cs @ ds" using d w' by simp
    ultimately show ?thesis by blast
  qed
qed

text \<open>The two shapes of a step: one that runs nothing, one that runs the next command.\<close>

lemma runs_quiet [runs_intros]:
  "runs [] m \<Longrightarrow> (\<And>a w w'. m w = (Inr a, w') \<Longrightarrow> runs ds (f a)) \<Longrightarrow> runs ds (and_then m f)"
  using runs_and_then [of "[]" m ds f] by simp

lemma runs_step:
  "runs [c] m \<Longrightarrow> (\<And>a w w'. m w = (Inr a, w') \<Longrightarrow> runs ds (f a)) \<Longrightarrow> runs (c # ds) (and_then m f)"
  using runs_and_then [of "[c]" m ds f] by simp

lemma runs_in_context [runs_intros]: "runs cs m \<Longrightarrow> runs cs (in_context c m)"
  unfolding runs_def in_context_def with_context_def
  by (fastforce split: prod.splits sum.splits)

lemma runs_if [runs_intros]: "(P \<Longrightarrow> runs cs m) \<Longrightarrow> (\<not> P \<Longrightarrow> runs cs n) \<Longrightarrow> runs cs (if P then m else n)"
  by simp

lemma runs_last: "runs [c] m \<Longrightarrow> (\<And>a. runs [] (f a)) \<Longrightarrow> runs [c] (and_then m f)"
  by (rule runs_step) auto

lemma runs_run_ok [runs_intros]: "runs [args] (run_ok t args)"
  unfolding run_ok_def
  by (rule runs_last [OF runs_run_in]) (auto split: prod.split intro!: runs_intros)

lemma runs_prefix: "runs cs m \<Longrightarrow> \<exists>n. wd_calls (snd (m w)) = wd_calls w @ take n cs"
  unfolding runs_def by (metis prod.collapse)

lemma runs_all: "runs cs m \<Longrightarrow> m w = (Inr a, w') \<Longrightarrow> wd_calls w' = wd_calls w @ cs"
  unfolding runs_def by (metis is_ok_simps(2))

text \<open>
  The commands of each operation, given its arguments. Passwords and keys do not occur
  among them: openssl reads both from files.
\<close>

lemma runs_write_pass_file [runs_intros]: "runs [] (write_pass_file name pw)"
  unfolding write_pass_file_def by (intro runs_intros)

lemma runs_export_ca_state [runs_intros]: "runs [] (export_ca_state ca)"
  unfolding export_ca_state_def by (intro runs_intros)

lemma runs_read_crl_refresh [runs_intros]: "runs [] read_crl_refresh"
  unfolding read_crl_refresh_def by (intro runs_intros)

lemma runs_read_cert_files [runs_intros]: "runs [] (read_cert_files b)"
  unfolding read_cert_files_def by (intro runs_intros)

lemma runs_create_bundle [runs_intros]: "runs [] (create_bundle t)"
  unfolding create_bundle_def by (intro runs_intros)

lemma runs_read_cert_secrets [runs_intros]: "runs [] (read_cert_secrets t)"
  unfolding read_cert_secrets_def by (intro runs_intros)

lemma runs_read_index_text [runs_intros]: "runs [] read_index_text"
  unfolding read_index_text_def by (intro runs_intros)

definition genkey_commands :: "string \<Rightarrow> key_attributes \<Rightarrow> string \<Rightarrow> string list list" where
  "genkey_commands output attributes algorithm =
     (case genkey_args output attributes algorithm of Some a \<Rightarrow> [a] | None \<Rightarrow> [])"

definition digest_of :: "string \<Rightarrow> string" where
  "digest_of digest = unwrap_or [] (normalize_digest digest)"

lemma digest_of_Inr: "lift_res (normalize_digest digest) w = (Inr a, w') \<Longrightarrow> a = digest_of digest"
  by (simp add: lift_res_Inr digest_of_def)

lemma runs_none: "runs [] m \<Longrightarrow> (\<And>w a w'. m w \<noteq> (Inr a, w')) \<Longrightarrow> runs ds (and_then m f)"
  by (rule runs_quiet) auto

lemma runs_generate_key:
  assumes "\<And>a. runs ds (f a)"
  shows "runs (genkey_commands output attributes algorithm @ ds)
    (and_then (generate_key t output algorithm attributes) f)"
proof (cases "genkey_args output attributes algorithm")
  case None
  then have "runs ds (and_then (generate_key t output algorithm attributes) f)"
    by (intro runs_quiet) (simp_all add: generate_key_def runs_lift_res lift_res_Inr)
  with None show ?thesis by (simp add: genkey_commands_def)
next
  case (Some a)
  have "runs [a] (generate_key t output algorithm attributes)"
    using Some by (simp add: generate_key_def runs_last runs_run_ok runs_give)
  with Some assms show ?thesis by (simp add: genkey_commands_def runs_step)
qed

definition pass_pkcs12 :: "string \<Rightarrow> string \<Rightarrow> string \<Rightarrow> string \<Rightarrow> string list" where
  "pass_pkcs12 out cert key file = pkcs12_args out cert key (''file:'' @ file)"

definition ca_commands :: "string \<Rightarrow> int \<Rightarrow> string \<Rightarrow> string \<Rightarrow> key_attributes \<Rightarrow> string list list" where
  "ca_commands subject valid_days digest algorithm options =
     genkey_commands ''ca-key.pem'' options algorithm @
     [self_sign_args subject valid_days (digest_of digest),
      pass_pkcs12 ''ca.p12'' ''ca-cert.pem'' ''ca-key.pem'' ''ca-p12.pass'']"

definition cert_commands :: "string \<Rightarrow> int \<Rightarrow> string \<Rightarrow> string \<Rightarrow> key_attributes \<Rightarrow> string list list" where
  "cert_commands subject valid_days digest algorithm options =
     genkey_commands ''cert/cert.key'' options algorithm @
     [csr_args subject (digest_of digest), sign_args valid_days (digest_of digest),
      pass_pkcs12 ''cert/cert.p12'' ''cert/cert.pem'' ''cert/cert.key'' ''cert-p12.pass'']"

definition renew_ca_commands :: "string \<Rightarrow> int \<Rightarrow> string \<Rightarrow> string list list" where
  "renew_ca_commands serial valid_days digest =
     [[''x509'', ''-in'', ''inspect-issuer.pem'', ''-noout'', ''-subject_hash'', ''-issuer_hash''],
      keypub_args ''ca-key.pem'', pubkey_args ''ca-cert.pem'', serial_args ''ca-cert.pem'',
      resign_args valid_days serial (digest_of digest), serial_args ''ca-cert-renewed.pem'',
      [''verify'', ''-CAfile'', ''ca-cert-renewed.pem'', ''ca-cert-renewed.pem''],
      pass_pkcs12 ''ca-renewed.p12'' ''ca-cert-renewed.pem'' ''ca-key.pem'' ''ca-p12.pass'']"

lemma runs_pass_pkcs12:
  assumes "\<And>a. runs [] (f a)"
  shows "runs [pass_pkcs12 out cert key file]
    (and_then (write_pass_file file pw) (\<lambda>passout. and_then (run_ok t (pkcs12_args out cert key passout)) f))"
  by (rule runs_quiet [OF runs_write_pass_file])
    (auto simp: write_pass_file_Inr pass_pkcs12_def intro!: runs_last runs_run_ok assms)

lemma runs_finish_ca_files:
  "runs [pass_pkcs12 ''ca.p12'' ''ca-cert.pem'' ''ca-key.pem'' ''ca-p12.pass''] (finish_ca_files t random pw)"
  unfolding finish_ca_files_def by (rule runs_pass_pkcs12) (intro runs_intros)

lemma runs_create_ca_files:
  "runs (ca_commands subject valid_days digest algorithm options)
     (create_ca_files t random subject valid_days digest algorithm options pw)"
  unfolding create_ca_files_def ca_commands_def
  by (rule runs_quiet [OF runs_lift_res])
    (auto dest!: digest_of_Inr intro!: runs_generate_key runs_step runs_run_ok runs_finish_ca_files)

text \<open>One quiet step of each kind.\<close>

lemmas quiet_steps =
  runs_quiet [OF runs_write_file] runs_quiet [OF runs_read_file] runs_quiet [OF runs_create_dir]
  runs_quiet [OF runs_create_dir_all] runs_quiet [OF runs_ca_config_file]
  runs_quiet [OF runs_export_ca_state] runs_quiet [OF runs_read_index_text]
  runs_quiet [OF runs_read_cert_secrets] runs_quiet [OF runs_create_bundle]

lemma runs_create_cert_files:
  "runs (cert_commands subject valid_days digest algorithm options)
     (create_cert_files t ca subject valid_days digest algorithm options dns_list ip_list pw
        crl_url crl_days)"
  unfolding create_cert_files_def cert_commands_def
  by (rule runs_quiet [OF runs_lift_res], drule digest_of_Inr)
    (simp only:, intro quiet_steps runs_generate_key runs_step [OF runs_run_ok] runs_pass_pkcs12 runs_give)

lemma runs_write_pass_step:
  "runs ds (f (''file:'' @ name)) \<Longrightarrow> runs ds (and_then (write_pass_file name pw) f)"
  by (rule runs_quiet [OF runs_write_pass_file]) (simp add: write_pass_file_Inr)

lemma runs_same_pubkey:
  assumes "\<And>a. runs ds (f a)"
  shows "runs (keypub_args key # pubkey_args cert # ds) (and_then (same_pubkey t m m' key cert) f)"
proof -
  have "runs [keypub_args key, pubkey_args cert] (same_pubkey t m m' key cert)"
    unfolding same_pubkey_def by (intro runs_step runs_intros)
  from runs_and_then [OF this assms] show ?thesis by simp
qed

lemma runs_fail: "runs cs (lift_res (Inl e))"
  unfolding runs_def lift_res_def by (auto intro: exI [of _ 0])

lemma runs_is_self_issued:
  assumes "\<And>a. runs ds (f a)"
  shows "runs ([''x509'', ''-in'', ''inspect-issuer.pem'', ''-noout'', ''-subject_hash'',
    ''-issuer_hash''] # ds) (and_then (is_self_issued t pem) f)"
proof -
  have "runs [[''x509'', ''-in'', ''inspect-issuer.pem'', ''-noout'', ''-subject_hash'',
      ''-issuer_hash'']] (is_self_issued t pem)"
    unfolding is_self_issued_def by (intro quiet_steps runs_last runs_intros)
  from runs_and_then [OF this assms] show ?thesis by simp
qed

lemma runs_renew_ca_files:
  "runs (renew_ca_commands (''0x'' @ random_serial_hex random) valid_days digest)
     (renew_ca_files t random ca valid_days digest)"
  unfolding renew_ca_files_def renew_ca_commands_def
  by (rule runs_quiet [OF runs_lift_res], drule digest_of_Inr)
    (simp only:, intro quiet_steps runs_is_self_issued runs_if runs_fail runs_same_pubkey
       runs_step [OF runs_run_ok] runs_step [OF runs_in_context [OF runs_run_ok]]
       runs_pass_pkcs12 runs_give)

lemma runs_generate_crl: "runs [gencrl_args, crl_der_args] (generate_crl t ca crl_days)"
  unfolding generate_crl_def
  by (intro quiet_steps runs_step [OF runs_run_ok] runs_last [OF runs_run_ok] runs_read_crl_refresh)

lemma runs_revoke_cert_files:
  "runs [revoke_args reason, serial_args ''revoke.pem'', gencrl_args, crl_der_args]
     (revoke_cert_files t ca cert reason crl_days)"
proof -
  have quiet: "runs [] (if (0::nat) < n then write_file f s else give ())" for n f s
    by (intro runs_intros)
  show ?thesis
    unfolding revoke_cert_files_def Let_def case_prod_unfold
    by (intro quiet_steps runs_step [OF runs_run_ok] runs_quiet [OF quiet] runs_last [OF runs_run_ok]
        runs_read_crl_refresh)
qed

section \<open>What openssl is relied on for\<close>

text \<open>
  Documented behaviour of the command line tool: a command writes the file named after
  \<open>-out\<close>; \<open>ca\<close> also keeps its database (index, serial and CRL number with their backup
  copies, and the directory of new certificates), of which \<open>-gencrl\<close> only moves the CRL
  number on and \<open>-revoke\<close> only writes the index.
\<close>

fun out_file :: "string list \<Rightarrow> string option" where
  "out_file (a # f # as) = (if a = ''-out'' then Some f else out_file (f # as))"
| "out_file _ = None"

definition database_file :: "string list \<Rightarrow> string \<Rightarrow> bool" where
  "database_file args f \<longleftrightarrow>
     first_arg args = ''ca'' \<and>
     (if ''-gencrl'' \<in> set args then starts_with ''crlnumber.txt'' f
      else if ''-revoke'' \<in> set args then starts_with ''index.txt'' f
      else starts_with ''index.txt'' f \<or> starts_with ''serial.txt'' f \<or> starts_with ''certs/'' f)"

definition may_write :: "string list \<Rightarrow> string \<Rightarrow> bool" where
  "may_write args f \<longleftrightarrow> out_file args = Some f \<or> database_file args f"

definition frame_ok :: "tools \<Rightarrow> bool" where
  "frame_ok t \<longleftrightarrow>
     (\<forall>h args fs r f. t_run t h args fs = Some r \<longrightarrow> \<not> may_write args f \<longrightarrow> tr_files r f = fs f)"

text \<open>
  After a successful \<open>ca -revoke\<close> the index, whose lines end in a line feed, has a revoked
  entry for the serial number that \<open>x509 -serial\<close> prints for the certificate.
\<close>

definition printed_serial :: "string \<Rightarrow> string" where
  "printed_serial out = trim_prefixes ''serial='' (trim (from_utf8_lossy out))"

definition revoke_ok :: "tools \<Rightarrow> bool" where
  "revoke_ok t \<longleftrightarrow>
     (\<forall>h fs r h' r' idx. \<forall>reason \<in> set revocation_reasons.
        t_run t h (revoke_args reason) fs = Some r \<longrightarrow> tr_exit r = 0 \<longrightarrow>
        t_run t h' (serial_args ''revoke.pem'') (tr_files r) = Some r' \<longrightarrow> tr_exit r' = 0 \<longrightarrow>
        tr_files r ''index.txt'' = Some idx \<longrightarrow>
        CR \<notin> set idx \<and>
        (\<exists>l \<in> set (str_lines idx). revoked_entry (printed_serial (tr_stdout r')) l \<noteq> None))"

lemma frame_okD: "frame_ok t \<Longrightarrow> t_run t h args fs = Some r \<Longrightarrow> \<not> may_write args f \<Longrightarrow> tr_files r f = fs f"
  unfolding frame_ok_def by blast

lemmas write_defs = may_write_def database_file_def first_arg_def starts_with_def

lemma export_ca_state_Inr [act_simps]:
  "export_ca_state ca w = (Inr u, w') \<longleftrightarrow>
   w' = w\<lparr>wd_files := (wd_files w)(''ca-cert.pem'' := Some (s_cert_pem ca),
     ''ca-key.pem'' := Some (s_key_pem ca), ''index.txt'' := Some (s_index_txt ca),
     ''serial.txt'' := Some (s_serial_txt ca),
     ''crlnumber.txt'' := Some (if list_all is_ascii_whitespace (s_crlnumber_txt ca)
        then initial_crl_number else s_crlnumber_txt ca))\<rparr>"
  by (simp only: export_ca_state_def act_simps) auto

lemma ca_config_file_Inr [act_simps]:
  "ca_config_file d u w = (Inr x, w') \<longleftrightarrow>
   w' = w\<lparr>wd_files := (wd_files w)(''openssl-ca.conf'' := Some (ca_config (wd_path w) d u))\<rparr>"
  by (simp add: ca_config_file_def act_simps)

lemma read_crl_refresh_Inr [act_simps]:
  "read_crl_refresh w = (Inr c, w') \<longleftrightarrow> w' = w \<and> wd_files w ''ca.crl'' = Some (cr_crl_der c) \<and>
   wd_files w ''index.txt'' = Some (cr_index_txt c) \<and>
   wd_files w ''serial.txt'' = Some (cr_serial_txt c) \<and>
   wd_files w ''crlnumber.txt'' = Some (cr_crlnumber_txt c)"
  by (cases c) (auto simp: read_crl_refresh_def act_simps)

lemma read_cert_files_Inr [act_simps]:
  "read_cert_files b w = (Inr k, w') \<longleftrightarrow> w' = w \<and> k_bundle_zip k = b \<and>
   wd_files w ''cert/cert.pem'' = Some (k_cert_pem k) \<and>
   wd_files w ''cert/cert.key'' = Some (k_key_pem k) \<and>
   wd_files w ''cert/cert.csr'' = Some (k_csr_pem k) \<and>
   wd_files w ''cert/cert.p12'' = Some (k_pkcs12 k) \<and>
   wd_files w ''cert/password.txt'' = Some (k_password k)"
  by (cases k) (auto simp: read_cert_files_def act_simps)

lemma build_bundle_any: "build_bundle t (k\<lparr>k_bundle_zip := b\<rparr>) ca = build_bundle t k ca"
  by (simp add: build_bundle_def)

text \<open>The certificate's files as read back, with the bundle made of them.\<close>

lemma read_cert_secrets_Inr:
  "read_cert_secrets t w = (Inr k, w') \<Longrightarrow>
   w' = w \<and> wd_files w ''cert/cert.pem'' = Some (k_cert_pem k) \<and>
   wd_files w ''cert/cert.key'' = Some (k_key_pem k) \<and>
   wd_files w ''cert/password.txt'' = Some (k_password k) \<and>
   (\<exists>ca. wd_files w ''ca-cert.pem'' = Some ca \<and> build_bundle t k ca = Inr (k_bundle_zip k))"
  by (cases k) (auto simp: read_cert_secrets_def create_bundle_def act_simps build_bundle_def)

lemma normalize_digest_supported: "normalize_digest d = Inr d' \<Longrightarrow> d' \<in> set supported_digests"
  by (auto simp: normalize_digest_def Let_def split: if_splits)

lemma digest_flag: "d \<in> set supported_digests \<Longrightarrow> ''-'' @ d \<noteq> ''-out'' \<and> d \<noteq> ''-out''"
  by (auto simp: supported_digests_def)

lemma show_int_flag: "show_int i \<noteq> ''-out''"
proof
  assume "show_int i = ''-out''"
  moreover from this have "show_nat (nat (- i)) = ''out'' \<or> show_nat (nat i) = ''-out''"
    by (auto simp: show_int_def split: if_splits)
  ultimately show False
    using show_nat_digits [of "nat (- i)"] show_nat_digits [of "nat i"]
    by (auto simp: is_ascii_digit_def byte_def)
qed

lemma out_files:
  "d \<in> set supported_digests \<Longrightarrow> out_file (csr_args subject d) = Some ''cert/cert.csr''"
  "d \<in> set supported_digests \<Longrightarrow> out_file (sign_args days d) = Some ''cert/cert.pem''"
  "out_file gencrl_args = Some ''ca.crl.pem''" "out_file crl_der_args = Some ''ca.crl''"
  "f \<noteq> ''-out'' \<Longrightarrow> out_file (serial_args f) = None"
  "f \<noteq> ''-out'' \<Longrightarrow> out_file (pubkey_args f) = None"
  "f \<noteq> ''-out'' \<Longrightarrow> out_file (keypub_args f) = None"
  "out_file (pkcs12_args out cert key passout) = Some out"
  "genkey_args out attributes algorithm = Some args \<Longrightarrow> out_file args = Some out"
  using digest_flag [of d] show_int_flag
  by (auto simp: csr_args_def sign_args_def gencrl_args_def crl_der_args_def serial_args_def
      pubkey_args_def keypub_args_def pkcs12_args_def genkey_args_def Let_def split: if_splits)

lemma database_files:
  "\<not> database_file (csr_args subject d) f" "\<not> database_file crl_der_args f"
  "\<not> database_file (serial_args c) f" "\<not> database_file (pubkey_args c) f"
  "\<not> database_file (keypub_args c) f" "\<not> database_file (pkcs12_args out cert key passout) f"
  "genkey_args out attributes algorithm = Some args \<Longrightarrow> \<not> database_file args f"
  by (auto simp: database_file_def first_arg_def csr_args_def crl_der_args_def serial_args_def
      pubkey_args_def keypub_args_def pkcs12_args_def genkey_args_def Let_def split: if_splits)

text \<open>A successful \<open>run_ok\<close> leaves every file it may not write.\<close>

lemma run_ok_frame:
  assumes "frame_ok t" and "run_ok t args w = (Inr out, w')" and "\<not> may_write args f"
  shows "wd_files w' f = wd_files w f"
  using assms frame_okD by (fastforce simp: run_ok_Inr)

lemma generate_key_frame:
  assumes "frame_ok t" and "generate_key t out algorithm attributes w = (Inr u, w')" and "f \<noteq> out"
  shows "wd_files w' f = wd_files w f"
proof (cases "genkey_args out attributes algorithm")
  case None
  with assms(2) show ?thesis by (simp add: generate_key_def lift_res_Inr)
next
  case (Some args)
  with assms(2) obtain x where "run_ok t args w = (Inr x, w')"
    by (auto simp: generate_key_def act_simps)
  then show ?thesis
    using Some assms(3) by (intro run_ok_frame [OF assms(1)]) (auto simp: may_write_def out_files database_files)
qed

lemma create_cert_files_stored:
  assumes "frame_ok t"
    and "create_cert_files t ca subject days digest algorithm options dns ips pw crl_url crl_days w =
      (Inr (k, idx, ser), w')"
  shows "k_password k = pw" and "build_bundle t k (s_cert_pem ca) = Inr (k_bundle_zip k)"
    and "wd_files w' ''index.txt'' = Some idx" and "wd_files w' ''serial.txt'' = Some ser"
proof -
  let ?ca = "''ca-cert.pem''"
  let ?w1 = "w\<lparr>wd_dirs := ''cert'' # List.insert ''certs'' (wd_dirs w),
    wd_files := (wd_files w)(''ca-cert.pem'' := Some (s_cert_pem ca),
       ''ca-key.pem'' := Some (s_key_pem ca), ''index.txt'' := Some (s_index_txt ca),
       ''serial.txt'' := Some (s_serial_txt ca),
       ''crlnumber.txt'' := Some (if list_all is_ascii_whitespace (s_crlnumber_txt ca)
          then initial_crl_number else s_crlnumber_txt ca),
       ''openssl-ca.conf'' := Some (ca_config (wd_path w) crl_days crl_url),
       ''openssl-cert.conf'' := Some (cert_config dns ips))\<rparr>"
  obtain d w2 w3 w4 w5 x y z p where d: "normalize_digest digest = Inr d"
    and k1: "generate_key t ''cert/cert.key'' algorithm options ?w1 = (Inr (), w2)"
    and k2: "run_ok t (csr_args subject d) w2 = (Inr x, w3)"
    and k3: "run_ok t (sign_args days d) w3 = (Inr y, w4)"
    and k4: "run_ok t (pkcs12_args ''cert/cert.p12'' ''cert/cert.pem'' ''cert/cert.key'' p)
       (w4\<lparr>wd_files := (wd_files w4)(''cert-p12.pass'' := Some (pw @ [LF]))\<rparr>) = (Inr z, w5)"
    and k5: "read_cert_secrets t (w5\<lparr>wd_files := (wd_files w5)(''cert/password.txt'' := Some pw)\<rparr>) = (Inr k, w')"
    and k6: "wd_files w' ''index.txt'' = Some idx" "wd_files w' ''serial.txt'' = Some ser"
    using assms(2)
    unfolding create_cert_files_def and_then_Inr lift_res_Inr export_ca_state_Inr create_dir_all_Inr
      create_dir_Inr ca_config_file_Inr write_file_Inr write_pass_file_Inr read_file_Inr give_Inr
    by (elim exE conjE) (rule that; simp)
  have w1: "wd_files ?w1 ?ca = Some (s_cert_pem ca)" by simp
  have sup: "d \<in> set supported_digests" by (rule normalize_digest_supported [OF d])
  note frame = run_ok_frame [OF assms(1)]
  have "wd_files w2 ?ca = Some (s_cert_pem ca)"
    using generate_key_frame [OF assms(1) k1, of ?ca] w1 by simp
  then have "wd_files w3 ?ca = Some (s_cert_pem ca)"
    using frame [OF k2, of ?ca] sup by (simp add: may_write_def out_files database_files)
  then have "wd_files w4 ?ca = Some (s_cert_pem ca)"
    using frame [OF k3, of ?ca] sup
    by (simp add: may_write_def out_files database_file_def starts_with_def)
  then have "wd_files w5 ?ca = Some (s_cert_pem ca)"
    using frame [OF k4, of ?ca] by (simp add: may_write_def out_files database_files)
  with read_cert_secrets_Inr [OF k5] show "k_password k = pw"
    and "build_bundle t k (s_cert_pem ca) = Inr (k_bundle_zip k)" by auto
  show "wd_files w' ''index.txt'' = Some idx" "wd_files w' ''serial.txt'' = Some ser" by (fact k6)+
qed

lemma revoke_entry_unchanged:
  "\<not> is_superseded subject l \<Longrightarrow> map_option (revoke_entry revocation subject) (entry_view l) = entry_view l"
  by (cases "entry_view l") (auto simp: is_superseded_view revoke_entry_def)

lemma read_index_text_Inr [act_simps]:
  "read_index_text w = (Inr s, w') \<longleftrightarrow> w' = w \<and> wd_files w ''index.txt'' = Some s \<and> valid_utf8 s"
  by (auto simp: read_index_text_def act_simps)

text \<open>The index a revocation returns is the one openssl left, with the other serials revoked.\<close>

text \<open>What the commands that read a certificate or a key print depends on that file only.\<close>

definition reads_ok :: "tools \<Rightarrow> (string \<Rightarrow> string) \<Rightarrow> (string \<Rightarrow> string) \<Rightarrow> (string \<Rightarrow> string) \<Rightarrow> bool" where
  "reads_ok t serial_of pub_of keypub_of \<longleftrightarrow>
     (\<forall>h f fs r pem. t_run t h (serial_args f) fs = Some r \<longrightarrow> tr_exit r = 0 \<longrightarrow> fs f = Some pem \<longrightarrow>
        tr_stdout r = serial_of pem) \<and>
     (\<forall>h f fs r pem. t_run t h (pubkey_args f) fs = Some r \<longrightarrow> tr_exit r = 0 \<longrightarrow> fs f = Some pem \<longrightarrow>
        tr_stdout r = pub_of pem) \<and>
     (\<forall>h f fs r key. t_run t h (keypub_args f) fs = Some r \<longrightarrow> tr_exit r = 0 \<longrightarrow> fs f = Some key \<longrightarrow>
        tr_stdout r = keypub_of key)"

lemma reads_okD:
  assumes "reads_ok t serial_of pub_of keypub_of"
  shows "run_ok t (serial_args f) w = (Inr out, w') \<Longrightarrow> wd_files w f = Some pem \<Longrightarrow> out = serial_of pem"
    and "run_ok t (pubkey_args f) w = (Inr out, w') \<Longrightarrow> wd_files w f = Some pem \<Longrightarrow> out = pub_of pem"
    and "run_ok t (keypub_args f) w = (Inr out, w') \<Longrightarrow> wd_files w f = Some pem \<Longrightarrow> out = keypub_of pem"
  using assms unfolding reads_ok_def run_ok_Inr by blast+

lemma revoke_out: "reason \<in> set revocation_reasons \<Longrightarrow> out_file (revoke_args reason) = None"
  by (auto simp: revocation_reasons_def revoke_args_def)

lemma revoke_cert_files_index:
  assumes "frame_ok t" and "revoke_ok t" and "reads_ok t serial_of pub_of keypub_of"
    and "reason \<in> set revocation_reasons"
    and "revoke_cert_files t ca cert reason crl_days w = (Inr c, w')"
  shows "\<exists>idx revocation subject.
    first_some (revoked_entry (printed_serial (serial_of (k_cert_pem cert)))) (str_lines idx) =
      Some (revocation, subject) \<and>
    map entry_view (str_lines (cr_index_txt c)) =
      map (map_option (revoke_entry revocation subject)) (map entry_view (str_lines idx))"
proof -
  let ?i = "''index.txt''"
  obtain w1 w2 w3 w4 w5 w6 out1 out2 out3 out4 idx where
    pem: "wd_files w1 ''revoke.pem'' = Some (k_cert_pem cert)"
    and r1: "run_ok t (revoke_args reason) w1 = (Inr out1, w2)"
    and r2: "run_ok t (serial_args ''revoke.pem'') w2 = (Inr out2, w3)"
    and i: "wd_files w3 ?i = Some idx"
    and w4: "(if 0 < snd (revoke_superseded_index_entries idx (printed_serial out2))
       then write_file ?i (fst (revoke_superseded_index_entries idx (printed_serial out2)))
       else give ()) w3 = (Inr (), w4)"
    and r3: "run_ok t gencrl_args w4 = (Inr out3, w5)"
    and r4: "run_ok t crl_der_args w5 = (Inr out4, w6)"
    and c: "read_crl_refresh w6 = (Inr c, w')"
    using assms(5)
    unfolding revoke_cert_files_def Let_def case_prod_unfold printed_serial_def [symmetric]
      and_then_Inr read_index_text_Inr
    by (elim exE conjE) (rule that; simp add: write_file_Inr)
  note frame = run_ok_frame [OF assms(1)]
  have "wd_files w2 ''revoke.pem'' = Some (k_cert_pem cert)"
    using frame [OF r1, of "''revoke.pem''"] pem revoke_out [OF assms(4)]
    by (simp add: may_write_def database_file_def revoke_args_def first_arg_def starts_with_def)
  then have out2: "out2 = serial_of (k_cert_pem cert)" using reads_okD(1) [OF assms(3) r2] by blast
  let ?s = "printed_serial out2"
  obtain r r' where "t_run t (wd_calls w1) (revoke_args reason) (wd_files w1) = Some r"
    "tr_exit r = 0" "wd_files w2 = tr_files r"
    "t_run t (wd_calls w2) (serial_args ''revoke.pem'') (tr_files r) = Some r'" "tr_exit r' = 0"
    "out2 = tr_stdout r'"
    using r1 r2 by (auto simp: run_ok_Inr)
  moreover have "tr_files r ?i = Some idx"
    using frame [OF r2, of ?i] i calculation(3) by (simp add: may_write_def out_files database_files)
  ultimately have cr: "CR \<notin> set idx"
    and l: "\<exists>l \<in> set (str_lines idx). revoked_entry ?s l \<noteq> None"
    using assms(2,4) unfolding revoke_ok_def by blast+
  from l have "first_some (revoked_entry ?s) (str_lines idx) \<noteq> None"
    by (simp add: first_some_None)
  then obtain revocation subject where
    f: "first_some (revoked_entry ?s) (str_lines idx) = Some (revocation, subject)" by auto
  have "wd_files w6 ?i = wd_files w4 ?i"
    using frame [OF r3, of ?i] frame [OF r4, of ?i]
    by (simp add: may_write_def out_files database_files)
      (simp add: database_file_def gencrl_args_def first_arg_def starts_with_def)
  then have c': "wd_files w4 ?i = Some (cr_index_txt c)" using c by (simp add: read_crl_refresh_Inr)
  have "map entry_view (str_lines (cr_index_txt c)) =
      map (map_option (revoke_entry revocation subject)) (map entry_view (str_lines idx))"
  proof (cases "0 < snd (revoke_superseded_index_entries idx ?s)")
    case True
    then have "cr_index_txt c = fst (revoke_superseded_index_entries idx ?s)"
      using w4 c' by (auto simp: write_file_Inr)
    then show ?thesis using superseded_refines [OF f cr] by simp
  next
    case False
    then have "cr_index_txt c = idx" using w4 c' i by (auto simp: give_Inr)
    moreover have "\<forall>l \<in> set (str_lines idx). \<not> is_superseded subject l"
      using False f by (simp add: revoke_superseded_index_entries_def Let_def filter_empty_conv)
    ultimately show ?thesis by (auto simp: revoke_entry_unchanged)
  qed
  with f show ?thesis unfolding out2 by blast
qed

text \<open>So the certificate is revoked, and no entry of its subject is valid any more.\<close>

lemma revoke_cert_files_withdrawn:
  assumes "frame_ok t" and "revoke_ok t" and "reads_ok t serial_of pub_of keypub_of"
    and "reason \<in> set revocation_reasons"
    and "revoke_cert_files t ca cert reason crl_days w = (Inr c, w')"
  shows "\<exists>subject.
    (\<exists>l \<in> set (str_lines (cr_index_txt c)). \<exists>revocation.
       revoked_entry (printed_serial (serial_of (k_cert_pem cert))) l = Some (revocation, subject)) \<and>
    (\<forall>l \<in> set (str_lines (cr_index_txt c)). \<not> is_superseded subject l)"
proof -
  let ?s = "printed_serial (serial_of (k_cert_pem cert))"
  obtain idx revocation subject where
    f: "first_some (revoked_entry ?s) (str_lines idx) = Some (revocation, subject)"
    and m: "map entry_view (str_lines (cr_index_txt c)) =
      map (map_option (revoke_entry revocation subject)) (map entry_view (str_lines idx))"
    using revoke_cert_files_index [OF assms] by blast
  have new: "\<exists>l \<in> set (str_lines (cr_index_txt c)). entry_view l = v"
    if "v \<in> set (map (map_option (revoke_entry revocation subject)) (map entry_view (str_lines idx)))" for v
    using that unfolding m [symmetric] by auto
  have old: "\<exists>l \<in> set (str_lines idx). entry_view x = map_option (revoke_entry revocation subject) (entry_view l)"
    if "x \<in> set (str_lines (cr_index_txt c))" for x
    using that arg_cong [OF m, of set] by auto
  obtain l e where l: "l \<in> set (str_lines idx)" "entry_view l = Some e" "ie_status e = ''R''"
    "same_serial (ie_serial e) ?s" "ie_revocation e = revocation" "ie_subject e = subject"
    using first_some_Some [OF f] by (auto simp: revoked_entry_view)
  have "revoke_entry revocation subject e = e" using l(3) by (simp add: revoke_entry_def valid_for_def)
  then have "Some e \<in> set (map (map_option (revoke_entry revocation subject)) (map entry_view (str_lines idx)))"
    using l(1,2) by (force simp: image_iff)
  from new [OF this] obtain x where "x \<in> set (str_lines (cr_index_txt c))" "entry_view x = Some e" by blast
  then have "\<exists>l \<in> set (str_lines (cr_index_txt c)). revoked_entry ?s l = Some (revocation, subject)"
    using l(3-6) by (auto simp: revoked_entry_view)
  moreover have "\<not> is_superseded subject x" if x: "x \<in> set (str_lines (cr_index_txt c))" for x
  proof -
    obtain l where l: "entry_view x = map_option (revoke_entry revocation subject) (entry_view l)"
      using old [OF x] by blast
    then show ?thesis by (cases "entry_view l") (auto simp: is_superseded_view revoke_entry_not_valid)
  qed
  ultimately show ?thesis by blast
qed

lemma out_file_resign: "d \<in> set supported_digests \<Longrightarrow> serial \<noteq> ''-out'' \<Longrightarrow>
   out_file (resign_args days serial d) = Some ''ca-cert-renewed.pem''"
  using digest_flag [of d] show_int_flag [of days] by (auto simp: resign_args_def)

lemma may_write_reads:
  "f \<noteq> ''-out'' \<Longrightarrow> \<not> may_write (serial_args f) g" "f \<noteq> ''-out'' \<Longrightarrow> \<not> may_write (pubkey_args f) g"
  "f \<noteq> ''-out'' \<Longrightarrow> \<not> may_write (keypub_args f) g"
  by (simp_all add: may_write_def out_files database_files)

lemma fail_if_Inr [act_simps]:
  "(if P then lift_res (Inl e) else m) w = (Inr a, w') \<longleftrightarrow> \<not> P \<and> m w = (Inr a, w')"
  by (simp add: lift_res_Inr)

lemma same_pubkey_Inr:
  assumes "frame_ok t" and "reads_ok t serial_of pub_of keypub_of"
    and "same_pubkey t m m' kf cf w = (Inr u, w')" and "kf \<noteq> ''-out''" "cf \<noteq> ''-out''"
    and "wd_files w kf = Some key" "wd_files w cf = Some pem"
  shows "trim (from_utf8_lossy (keypub_of key)) = trim (from_utf8_lossy (pub_of pem))"
    and "wd_files w' f = wd_files w f"
proof -
  from assms(3) obtain a b w1 where k: "run_ok t (keypub_args kf) w = (Inr a, w1)"
    "run_ok t (pubkey_args cf) w1 = (Inr b, w')"
    and eq: "trim (from_utf8_lossy a) = trim (from_utf8_lossy b)"
    unfolding same_pubkey_def and_then_Inr in_context_Inr fail_if_Inr give_Inr
    by blast
  have w1: "wd_files w1 f = wd_files w f" for f
    by (rule run_ok_frame [OF assms(1) k(1)]) (simp add: may_write_reads assms(4))
  have "wd_files w' f = wd_files w1 f" for f
    by (rule run_ok_frame [OF assms(1) k(2)]) (simp add: may_write_reads assms(5))
  with w1 show "wd_files w' f = wd_files w f" by simp
  have "a = keypub_of key" by (rule reads_okD(3) [OF assms(2) k(1) assms(6)])
  moreover have "b = pub_of pem"
    by (rule reads_okD(2) [OF assms(2) k(2)]) (simp add: w1 assms(7))
  ultimately show "trim (from_utf8_lossy (keypub_of key)) = trim (from_utf8_lossy (pub_of pem))"
    using eq by simp
qed

text \<open>What a successful renewal of a CA certificate has checked.\<close>

lemma renew_ca_files_checked:
  assumes "frame_ok t" and "reads_ok t serial_of pub_of keypub_of"
    and "renew_ca_files t random ca days digest w = (Inr (pem, p12), w')"
  shows "serial_of pem \<noteq> serial_of (s_cert_pem ca)"
    and "trim (from_utf8_lossy (keypub_of (s_key_pem ca))) = trim (from_utf8_lossy (pub_of (s_cert_pem ca)))"
    and "[''verify'', ''-CAfile'', ''ca-cert-renewed.pem'', ''ca-cert-renewed.pem''] \<in> set (wd_calls w')"
proof -
  let ?ca = "''ca-cert.pem''" and ?new = "''ca-cert-renewed.pem''" and ?key = "''ca-key.pem''"
  let ?v = "[''verify'', ''-CAfile'', ?new, ?new]"
  let ?s = "''0x'' @ random_serial_hex random"
  let ?w0 = "w\<lparr>wd_files := (wd_files w)(?ca := Some (s_cert_pem ca), ?key := Some (s_key_pem ca))\<rparr>"
  obtain d w1 w2 w3 w4 w5 w6 w7 self old x new y z p where d: "normalize_digest digest = Inr d"
    and s: "is_self_issued t (s_cert_pem ca) ?w0 = (Inr self, w1)"
    and k: "same_pubkey t ''CA private key could not be read''
         ''CA private key does not match the CA certificate'' ?key ?ca w1 = (Inr (), w2)"
    and r1: "run_ok t (serial_args ?ca) w2 = (Inr old, w3)"
    and r2: "run_ok t (resign_args days ?s d) w3 = (Inr x, w4)"
    and r3: "run_ok t (serial_args ?new) w4 = (Inr new, w5)" and ne: "new \<noteq> old"
    and r4: "run_ok t ?v w5 = (Inr y, w6)"
    and r5: "run_ok t (pkcs12_args ''ca-renewed.p12'' ?new ?key p)
       (w6\<lparr>wd_files := (wd_files w6)(''ca-p12.pass'' := Some (s_password ca @ [LF]))\<rparr>) = (Inr z, w7)"
    and pem: "wd_files w7 ?new = Some pem"
    using assms(3)
    unfolding renew_ca_files_def and_then_Inr lift_res_Inr write_file_Inr fail_if_Inr
      in_context_Inr write_pass_file_Inr read_file_Inr give_Inr
    by (elim exE conjE) (rule that; simp)
  have sup: "d \<in> set supported_digests" by (rule normalize_digest_supported [OF d])
  note frame = run_ok_frame [OF assms(1)]
  have w1: "wd_files w1 f = wd_files ?w0 f" if "f \<noteq> ''inspect-issuer.pem''" for f
  proof -
    from s obtain o1 w' where "run_ok t [''x509'', ''-in'', ''inspect-issuer.pem'', ''-noout'',
        ''-subject_hash'', ''-issuer_hash''] (?w0\<lparr>wd_files := (wd_files ?w0)
          (''inspect-issuer.pem'' := Some (s_cert_pem ca))\<rparr>) = (Inr o1, w')" "w' = w1"
      unfolding is_self_issued_def and_then_Inr write_file_Inr give_Inr
      by (elim exE conjE) (rule that; simp)
    from frame [OF this(1), of f] this(2) that show ?thesis
      by (simp add: may_write_def database_file_def first_arg_def)
  qed
  have "wd_files w1 ?key = Some (s_key_pem ca)" "wd_files w1 ?ca = Some (s_cert_pem ca)"
    by (simp_all add: w1)
  note pub = same_pubkey_Inr [OF assms(1,2) k _ _ this]
  from pub(1) show "trim (from_utf8_lossy (keypub_of (s_key_pem ca))) =
      trim (from_utf8_lossy (pub_of (s_cert_pem ca)))" by simp
  have "wd_files w2 ?ca = Some (s_cert_pem ca)" using pub(2) [of ?ca] by (simp add: w1)
  then have old: "old = serial_of (s_cert_pem ca)" by (rule reads_okD(1) [OF assms(2) r1])
  have "wd_files w7 ?new = wd_files w6 ?new"
    using frame [OF r5, of ?new] by (simp add: may_write_def out_files database_files)
  also have "\<dots> = wd_files w5 ?new"
    by (rule frame [OF r4]) (simp add: may_write_def database_file_def first_arg_def)
  also have "\<dots> = wd_files w4 ?new"
    by (rule frame [OF r3]) (simp add: may_write_reads)
  finally have "wd_files w4 ?new = Some pem" using pem by simp
  then have "new = serial_of pem" by (rule reads_okD(1) [OF assms(2) r3])
  with old ne show "serial_of pem \<noteq> serial_of (s_cert_pem ca)" by simp
  have "?v \<in> set (wd_calls w')"
    using runs_all [OF runs_renew_ca_files assms(3)] by (simp add: renew_ca_commands_def)
  then show "?v \<in> set (wd_calls w')" .
qed

end
