(* ===== verification/Ip_Addr.thy ===== *)
theory Ip_Addr
  imports Config Subject
begin

text \<open>
  \<open>std::net::IpAddr\<close>: the parser behind \<open>str::parse\<close> and the canonical text behind
  \<open>to_string\<close>, which the service applies to the addresses of a certificate request. An
  address is its octets or its 16-bit groups.
\<close>

datatype ip_addr = V4 "nat list" | V6 "nat list"

section \<open>Parsing\<close>

text \<open>
  The parser reads a prefix and returns the rest. \<open>read_number(radix, Some(max),
  allow_zero_prefix)\<close> takes every digit there is; more than \<open>max\<close> digits, a value above
  the type's maximum or a forbidden leading zero make it fail.
\<close>

definition radix_digit :: "nat \<Rightarrow> char \<Rightarrow> nat option" where
  "radix_digit radix c =
     (case hex_value c of Some v \<Rightarrow> if v < radix then Some v else None | None \<Rightarrow> None)"

fun take_digits :: "nat \<Rightarrow> string \<Rightarrow> nat list \<times> string" where
  "take_digits radix [] = ([], [])"
| "take_digits radix (c # s) =
     (case radix_digit radix c of
        None \<Rightarrow> ([], c # s)
      | Some d \<Rightarrow> (let (ds, r) = take_digits radix s in (d # ds, r)))"

definition read_number :: "nat \<Rightarrow> nat \<Rightarrow> bool \<Rightarrow> nat \<Rightarrow> string \<Rightarrow> (nat \<times> string) option" where
  "read_number radix max_digits allow_zero_prefix max_value s =
     (let (ds, r) = take_digits radix s;
          v = foldl (\<lambda>a d. radix * a + d) 0 ds
      in if ds = [] \<or> max_digits < length ds \<or> max_value < v \<or>
            (\<not> allow_zero_prefix \<and> hd ds = 0 \<and> 1 < length ds)
         then None else Some (v, r))"

text \<open>\<open>read_separator(sep, index, ..)\<close>: the separator comes before all but the first.\<close>

definition read_separator :: "char \<Rightarrow> nat \<Rightarrow> (string \<Rightarrow> ('a \<times> string) option) \<Rightarrow> string \<Rightarrow> ('a \<times> string) option" where
  "read_separator sep i p s =
     (if i = 0 then p s else (case s of [] \<Rightarrow> None | c # r \<Rightarrow> if c = sep then p r else None))"

fun read_octets :: "nat \<Rightarrow> nat \<Rightarrow> string \<Rightarrow> (nat list \<times> string) option" where
  "read_octets i 0 s = Some ([], s)"
| "read_octets i (Suc n) s =
     (case read_separator (CHR ''.'') i (read_number 10 3 False 255) s of
        None \<Rightarrow> None
      | Some (v, r) \<Rightarrow>
          (case read_octets (Suc i) n r of None \<Rightarrow> None | Some (vs, r') \<Rightarrow> Some (v # vs, r')))"

definition read_ipv4 :: "string \<Rightarrow> (nat list \<times> string) option" where
  "read_ipv4 s = read_octets 0 4 s"

text \<open>
  \<open>read_groups\<close> from group \<open>i\<close> with \<open>n\<close> places left: the groups, whether the last two came
  from an embedded IPv4 address, and the rest.
\<close>

fun read_groups :: "nat \<Rightarrow> nat \<Rightarrow> string \<Rightarrow> nat list \<times> bool \<times> string" where
  "read_groups i 0 s = ([], False, s)"
| "read_groups i (Suc n) s =
     (case (if 0 < n then read_separator (CHR '':'') i read_ipv4 s else None) of
        Some (os, r) \<Rightarrow> ([256 * os ! 0 + os ! 1, 256 * os ! 2 + os ! 3], True, r)
      | None \<Rightarrow>
          (case read_separator (CHR '':'') i (read_number 16 4 True 65535) s of
             None \<Rightarrow> ([], False, s)
           | Some (g, r) \<Rightarrow> (let (gs, v4, r') = read_groups (Suc i) n r in (g # gs, v4, r'))))"

definition read_ipv6 :: "string \<Rightarrow> (nat list \<times> string) option" where
  "read_ipv6 s =
     (let (head, v4, r) = read_groups 0 8 s
      in if length head = 8 then Some (head, r)
         else if v4 then None
         else case strip_prefix ''::'' r of
           None \<Rightarrow> None
         | Some r' \<Rightarrow>
             (let (tail, _, r'') = read_groups 0 (8 - (length head + 1)) r'
              in Some (head @ replicate (8 - length head - length tail) 0 @ tail, r'')))"

definition parse_ip :: "string \<Rightarrow> ip_addr option" where
  "parse_ip s =
     (case read_ipv4 s of
        Some (os, r) \<Rightarrow> if r = [] then Some (V4 os) else None
      | None \<Rightarrow>
          (case read_ipv6 s of
             Some (gs, r) \<Rightarrow> if r = [] then Some (V6 gs) else None
           | None \<Rightarrow> None))"

section \<open>Printing\<close>

fun show_hex :: "nat \<Rightarrow> string" where
  "show_hex n = (if n < 16 then [hex_char n] else show_hex (n div 16) @ [hex_char (n mod 16)])"

declare show_hex.simps [simp del]

text \<open>The loop that looks for the longest run of zero groups: (start, length).\<close>

fun longest_zeros :: "nat \<Rightarrow> nat list \<Rightarrow> nat \<times> nat \<Rightarrow> nat \<times> nat \<Rightarrow> nat \<times> nat" where
  "longest_zeros i [] current longest = longest"
| "longest_zeros i (g # gs) current longest =
     (if g = 0
      then (let c = ((if snd current = 0 then i else fst current), snd current + 1)
            in longest_zeros (Suc i) gs c (if snd longest < snd c then c else longest))
      else longest_zeros (Suc i) gs (0, 0) longest)"

definition show_ipv6 :: "nat list \<Rightarrow> string" where
  "show_ipv6 gs =
     (if take 6 gs = [0, 0, 0, 0, 0, 65535]
      then ''::ffff:'' @ join ''.'' (map show_nat
        [gs ! 6 div 256, gs ! 6 mod 256, gs ! 7 div 256, gs ! 7 mod 256])
      else
        (let (start, len) = longest_zeros 0 gs (0, 0) (0, 0)
         in if 1 < len
            then join '':'' (map show_hex (take start gs)) @ ''::'' @
                 join '':'' (map show_hex (drop (start + len) gs))
            else join '':'' (map show_hex gs)))"

fun show_ip :: "ip_addr \<Rightarrow> string" where
  "show_ip (V4 os) = join ''.'' (map show_nat os)"
| "show_ip (V6 gs) = show_ipv6 gs"

section \<open>The characters of an address\<close>

definition ip_char :: "char \<Rightarrow> bool" where
  "ip_char c \<longleftrightarrow> is_ascii_hexdigit c \<or> c = CHR ''.'' \<or> c = CHR '':''"

lemma set_join_all:
  "list_all ip_char sep \<Longrightarrow> \<forall>w \<in> set ws. list_all ip_char w \<Longrightarrow> list_all ip_char (join sep ws)"
  by (induction sep ws rule: join.induct) auto

lemma show_nat_ip_char: "list_all ip_char (show_nat n)"
  using show_nat_digits [of n]
  by (auto simp: list_all_iff ip_char_def is_ascii_hexdigit_def is_ascii_digit_def)

lemma hex_char_ip: "n < 16 \<Longrightarrow> ip_char (hex_char n)"
  by (auto simp: ip_char_def hex_char_def is_ascii_hexdigit_def byte_class_defs)

lemma show_hex_ip_char: "list_all ip_char (show_hex n)"
proof (induction n rule: show_hex.induct)
  case (1 n)
  then show ?case by (subst show_hex.simps) (simp add: hex_char_ip)
qed

lemma show_ip_chars: "list_all ip_char (show_ip a)"
proof (cases a)
  case (V4 os)
  have "list_all ip_char ''.''" by (simp add: ip_char_def)
  then show ?thesis using V4 show_nat_ip_char by (simp add: set_join_all)
next
  case (V6 gs)
  have s: "list_all ip_char ''.''" "list_all ip_char '':''" "list_all ip_char ''::''"
    "list_all ip_char ''::ffff:''"
    by (simp_all add: ip_char_def is_ascii_hexdigit_def byte_class_defs)
  have h: "list_all ip_char (join '':'' (map show_hex xs))" for xs
    using s(2) show_hex_ip_char by (simp add: set_join_all)
  have d: "list_all ip_char (join ''.'' (map show_nat xs))" for xs
    using s(1) show_nat_ip_char by (simp add: set_join_all)
  show ?thesis using V6 h d s
    by (simp add: show_ipv6_def del: list.map append.simps split: prod.split)
qed

lemma ip_char_graphic: "ip_char c \<Longrightarrow> is_ascii_graphic c \<and> c \<noteq> CHR '';'' \<and> c \<noteq> CHR '','' \<and> \<not> conf_special c"
  by (auto simp: ip_char_def is_ascii_hexdigit_def byte_class_defs conf_special_def BS_def)

section \<open>Well-formed addresses\<close>

fun wf_ip :: "ip_addr \<Rightarrow> bool" where
  "wf_ip (V4 os) \<longleftrightarrow> length os = 4 \<and> list_all (\<lambda>x. x \<le> 255) os"
| "wf_ip (V6 gs) \<longleftrightarrow> length gs = 8 \<and> list_all (\<lambda>g. g \<le> 65535) gs"

lemma read_number_max: "read_number radix m z mx s = Some (v, r) \<Longrightarrow> v \<le> mx"
  by (auto simp: read_number_def Let_def split: prod.splits if_splits)

lemma read_separator_max:
  "read_separator c i (read_number radix m z mx) s = Some (v, r) \<Longrightarrow> v \<le> mx"
  by (auto simp: read_separator_def split: if_splits list.splits dest: read_number_max)

lemma read_octets_wf:
  "read_octets i n s = Some (os, r) \<Longrightarrow> length os = n \<and> list_all (\<lambda>x. x \<le> 255) os"
  by (induction i n s arbitrary: os r rule: read_octets.induct)
    (auto split: option.splits dest!: read_separator_max)

lemma embedded_ipv4:
  assumes "read_separator c i read_ipv4 s = Some (os, r)"
  shows "256 * os ! 0 + os ! 1 \<le> 65535 \<and> 256 * os ! 2 + os ! 3 \<le> 65535"
proof -
  from assms obtain s' where "read_octets 0 4 s' = Some (os, r)"
    by (auto simp: read_separator_def read_ipv4_def split: if_splits list.splits)
  from read_octets_wf [OF this] have os: "length os = 4" "list_all (\<lambda>x. x \<le> 255) os" by auto
  have "os ! k \<le> 255" if "k < 4" for k using os that by (simp add: list_all_length)
  from this [of 0] this [of 1] this [of 2] this [of 3] show ?thesis by simp
qed

lemma read_groups_wf:
  "read_groups i n s = (gs, v4, r) \<Longrightarrow> length gs \<le> n \<and> list_all (\<lambda>g. g \<le> 65535) gs"
proof (induction i n s arbitrary: gs v4 r rule: read_groups.induct)
  case (1 i s)
  then show ?case by simp
next
  case (2 i n s)
  show ?case
  proof (cases "if 0 < n then read_separator (CHR '':'') i read_ipv4 s else None")
    case (Some p)
    obtain os q where p: "p = (os, q)" by (cases p)
    with Some have "0 < n" "read_separator (CHR '':'') i read_ipv4 s = Some (os, q)"
      by (auto split: if_splits)
    with 2(2) show ?thesis using embedded_ipv4 by auto
  next
    case None
    note n = None
    show ?thesis
    proof (cases "read_separator (CHR '':'') i (read_number 16 4 True 65535) s")
      case None
      with n 2(2) show ?thesis by auto
    next
      case (Some p)
      obtain g q where p: "p = (g, q)" by (cases p)
      obtain gs' v q' where rec: "read_groups (Suc i) n q = (gs', v, q')"
        by (cases "read_groups (Suc i) n q") auto
      from 2(1) [OF n Some p [symmetric] rec] Some p n rec 2(2) show ?thesis
        by (auto dest: read_separator_max)
    qed
  qed
qed

lemma parse_ip_wf:
  assumes "parse_ip s = Some a"
  shows "wf_ip a"
proof (cases "read_ipv4 s")
  case (Some p)
  with assms show ?thesis
    by (cases p) (auto simp: parse_ip_def read_ipv4_def split: if_splits dest: read_octets_wf)
next
  case None
  with assms obtain gs where a: "a = V6 gs" "read_ipv6 s = Some (gs, [])"
    by (auto simp: parse_ip_def split: option.splits if_splits)
  obtain head v4 r where h: "read_groups 0 8 s = (head, v4, r)" by (cases "read_groups 0 8 s") auto
  note hw = read_groups_wf [OF h]
  show ?thesis
  proof (cases "length head = 8")
    case True
    with a h hw show ?thesis by (simp add: read_ipv6_def)
  next
    case False
    with hw have "length head \<le> 7" by simp
    from False a h obtain r' tail v r'' where t: "read_groups 0 (8 - (length head + 1)) r' = (tail, v, r'')"
      "gs = head @ replicate (8 - length head - length tail) 0 @ tail"
      by (auto simp: read_ipv6_def Let_def split: if_splits option.splits prod.splits)
    with read_groups_wf [OF t(1)] hw \<open>length head \<le> 7\<close> a(1) show ?thesis
      by (auto simp: list_all_length nth_append)
  qed
qed

lemma join_Cons_not_Nil: "w \<noteq> [] \<Longrightarrow> join sep (w # ws) \<noteq> []"
  by (cases ws) auto

lemma show_hex_not_Nil [simp]: "show_hex n \<noteq> []"
  by (subst show_hex.simps) simp

lemma show_ip_not_Nil: "wf_ip a \<Longrightarrow> show_ip a \<noteq> []"
proof (cases a)
  case (V4 os)
  assume "wf_ip a"
  with V4 obtain o1 os' where "os = o1 # os'" by (cases os) auto
  with V4 show ?thesis by (simp add: join_Cons_not_Nil show_nat_digits)
next
  case (V6 gs)
  assume "wf_ip a"
  with V6 obtain g gs' where "gs = g # gs'" by (cases gs) auto
  with V6 show ?thesis by (auto simp: show_ipv6_def join_Cons_not_Nil split: prod.split)
qed

end
