(* ===== verification/Signing.thy ===== *)
theory Signing
  imports Openssl_Run Ip_Addr Db_Safety
begin

text \<open>
  The signing operations of \<open>src/src/service.rs\<close>: issuing, importing, renewing and revoking
  certificates and renewing a CA, each around the signing lock of the CA.

  \<open>service\<close> holds the configuration and the external parts: openssl and the date parser
  of chrono. \<open>env\<close> is what one request draws from outside: the work directories it gets, the
  clock at each reading, the fresh ids, a random password and random bytes.
\<close>

record service =
  sv_tools :: tools
  sv_base_url :: "string option"
  sv_crl_enabled :: bool
  sv_crl_days :: int
  sv_parse_date :: "string \<Rightarrow> int option"

record env =
  ev_workdir :: "nat \<Rightarrow> string result"
  ev_clock :: "nat \<Rightarrow> int"
  ev_owner :: string
  ev_id :: string
  ev_password :: string
  ev_random :: "8 word list"

text \<open>Work in a new directory; it is gone afterwards.\<close>

definition in_workdir :: "env \<Rightarrow> nat \<Rightarrow> 'a act \<Rightarrow> 'a result" where
  "in_workdir ev n m = bind_res (ev_workdir ev n) (\<lambda>p. fst (m (fresh_workdir p)))"

text \<open>\<open>m.ok()\<close> and \<open>m.unwrap_or_default()\<close>: the error is dropped, the directory stays.\<close>

definition attempt :: "'a act \<Rightarrow> 'a result act" where
  "attempt m w = (case m w of (r, w') \<Rightarrow> (Inr r, w'))"

section \<open>Shared steps\<close>

definition ensure_unique_cert_common_name :: "string \<Rightarrow> string \<Rightarrow> db \<Rightarrow> unit result" where
  "ensure_unique_cert_common_name ca_id common_name d =
     (if cert_common_name_exists ca_id common_name d
      then Inl (Bail (''common name already exists: '' @ trim common_name)) else Inr ())"

definition base_url :: "string \<Rightarrow> string" where
  "base_url b = trim_end_matches (\<lambda>c. c = CHR ''/'') b"

definition crl_url :: "service \<Rightarrow> string \<Rightarrow> string option" where
  "crl_url sv ca_id =
     (if \<not> sv_crl_enabled sv then None
      else map_option (\<lambda>b. base_url b @ ''/crl/'' @ ca_id) (sv_base_url sv))"

definition public_ca_cert_download_url :: "service \<Rightarrow> string \<Rightarrow> string option" where
  "public_ca_cert_download_url sv ca_id =
     map_option (\<lambda>b. base_url b @ ''/download/ca/'' @ ca_id @ ''/cert'') (sv_base_url sv)"

definition public_ca_cert_url :: "service \<Rightarrow> string \<Rightarrow> string option" where
  "public_ca_cert_url sv ca_id =
     map_option (\<lambda>b. base_url b @ ''/'' @ ca_id @ ''/download'') (sv_base_url sv)"

definition issuing_crl_url :: "service \<Rightarrow> string \<Rightarrow> string option result" where
  "issuing_crl_url sv ca_id =
     (case crl_url sv ca_id of
        None \<Rightarrow> Inr None
      | Some u \<Rightarrow> bind_res (validate_crl_url u) (\<lambda>_. Inr (Some u)))"

definition not_after :: "service \<Rightarrow> (string \<times> string) list \<Rightarrow> int option" where
  "not_after sv info = Option.bind (info_value info ''notAfter'') (sv_parse_date sv)"

definition clamp_days :: "int \<Rightarrow> int option \<Rightarrow> int \<Rightarrow> int result" where
  "clamp_days now na days =
     (case na of
        None \<Rightarrow> Inr days
      | Some t \<Rightarrow>
          (let max_days = tdiv (sub64 t now) 86400000
           in if max_days < 1
              then Inl (Bail ''the CA certificate expires within a day; it can no longer issue certificates'')
              else if max_days < days then Inr max_days else Inr days))"

definition clamp_to_ca_validity :: "service \<Rightarrow> env \<Rightarrow> string \<Rightarrow> int \<Rightarrow> int result" where
  "clamp_to_ca_validity sv ev ca_cert_pem days =
     bind_res (in_workdir ev 0 (inspect_cert (sv_tools sv) ca_cert_pem)) (\<lambda>info.
     clamp_days (ev_clock ev 0) (not_after sv info) days)"

definition derive_subject :: "service \<Rightarrow> string \<Rightarrow> (string \<times> string) list \<Rightarrow> derived_subject act" where
  "derive_subject sv pem info =
     and_then (attempt (inspect_cert_subject_rfc2253 (sv_tools sv) pem)) (\<lambda>r.
     give (from_rfc2253
       (case r of
          Inr s \<Rightarrow> if s \<noteq> [] then s else or_default (info_value info ''subject'')
        | Inl _ \<Rightarrow> or_default (info_value info ''subject''))))"

text \<open>
  The closure run under the lock: read and work, one transaction, read the result. An
  error at any point drops the lock.
\<close>

definition commit_then ::
  "'x result \<Rightarrow> ('x \<Rightarrow> db \<Rightarrow> db result) \<Rightarrow> (db \<Rightarrow> 'a result) \<Rightarrow> db \<Rightarrow> 'a result \<times> db"
where
  "commit_then prep commit final d =
     (case prep of
        Inl e \<Rightarrow> (Inl e, d)
      | Inr x \<Rightarrow> (case commit x d of Inl e \<Rightarrow> (Inl e, d) | Inr d' \<Rightarrow> (final d', d')))"

definition with_ca_lock ::
  "env \<Rightarrow> nat \<Rightarrow> string \<Rightarrow> (db \<Rightarrow> 'a result \<times> db) \<Rightarrow> db \<Rightarrow> 'a result \<times> db"
where
  "with_ca_lock ev n ca_id body d =
     (case acquire_ca_lock (ev_clock ev n) ca_id (ev_owner ev) 120000 d of
        Inl e \<Rightarrow> (Inl e, d)
      | Inr d1 \<Rightarrow>
          (case body d1 of
             (Inl e, d2) \<Rightarrow> (Inl e, release_ca_lock ca_id (ev_owner ev) d2)
           | (Inr a, d2) \<Rightarrow> (Inr a, d2)))"

text \<open>Checks before the lock is taken: on an error the database is as it was.\<close>

definition checked :: "'x result \<Rightarrow> ('x \<Rightarrow> db \<Rightarrow> 'a result \<times> db) \<Rightarrow> db \<Rightarrow> 'a result \<times> db" where
  "checked r f d = (case r of Inl e \<Rightarrow> (Inl e, d) | Inr x \<Rightarrow> f x d)"

section \<open>Revoking\<close>

definition revoke_cert ::
  "service \<Rightarrow> env \<Rightarrow> string \<Rightarrow> string \<Rightarrow> string \<Rightarrow> db \<Rightarrow> certificate result \<times> db"
where
  "revoke_cert sv ev ca_id cert_id reason d =
     checked
       (if \<not> sv_crl_enabled sv then Inl (Bail ''CRL support is disabled'')
        else bind_res (normalize_revocation_reason reason) (\<lambda>reason.
             bind_res (get_cert ca_id cert_id d) (\<lambda>c.
             if m_revoked_at c \<noteq> None then Inl (Bail ''certificate is already revoked'')
             else Inr reason)))
       (\<lambda>reason. with_ca_lock ev 0 ca_id (\<lambda>d.
          commit_then
            (bind_res (get_cert ca_id cert_id d) (\<lambda>c.
             if m_revoked_at c \<noteq> None then Inl (Bail ''certificate is already revoked'')
             else
             bind_res (get_ca_secrets ca_id d) (\<lambda>ca_secrets.
             bind_res (get_cert_secrets ca_id cert_id d) (\<lambda>cert_secrets.
             in_workdir ev 0
               (revoke_cert_files (sv_tools sv) ca_secrets cert_secrets reason (sv_crl_days sv))))))
            (\<lambda>refresh.
             revoke_cert_with_state (ev_clock ev 2) ca_id cert_id reason (ev_clock ev 1)
               (cr_index_txt refresh, cr_serial_txt refresh)
               (cr_crl_der refresh, cr_crlnumber_txt refresh) (ev_owner ev))
            (get_cert ca_id cert_id) d)) d"

section \<open>Issuing\<close>

definition san_ips :: "string list \<Rightarrow> string list result" where
  "san_ips ips =
     map_res (\<lambda>ip.
       ok_or (Bail (''invalid IP SAN: '' @ debug_str ip)) (map_option show_ip (parse_ip ip)))
     (filter (\<lambda>ip. ip \<noteq> []) (map trim ips))"

definition add_dns :: "string \<Rightarrow> string list \<Rightarrow> string list result" where
  "add_dns dns known =
     (if dns = [] then Inr known
      else bind_res (validate_dns_name dns) (\<lambda>_.
           if list_ex (\<lambda>k. eq_ignore_ascii_case k dns) known then Inr known
           else Inr (known @ [dns])))"

definition san_dns :: "string \<Rightarrow> string list \<Rightarrow> string list result" where
  "san_dns common_name dns_list =
     fold_res add_dns (map trim dns_list)
       (if is_valid_dns_name common_name then [common_name] else [])"

record cert_plan =
  pl_key :: key_spec
  pl_digest :: string
  pl_dns :: "string list"
  pl_ips :: "string list"
  pl_valid_days :: int
  pl_crl_url :: "string option"
  pl_subject :: string

text \<open>What \<open>create_cert\<close> settles before it takes the lock.\<close>

definition plan_cert :: "service \<Rightarrow> env \<Rightarrow> string \<Rightarrow> create_cert_request \<Rightarrow> db \<Rightarrow> cert_plan result" where
  "plan_cert sv ev ca_id req d =
     bind_res (validate_days (rq_valid_days req)) (\<lambda>_.
     bind_res (key_spec_of (rq_key_profile req)) (\<lambda>key.
     bind_res (normalize_digest (rq_digest_algorithm req)) (\<lambda>digest.
     bind_res (validate_password (rq_password req)) (\<lambda>_.
     bind_res (san_ips (rq_ip_list req)) (\<lambda>ips.
     bind_res (san_dns (rq_common_name req) (rq_dns_list req)) (\<lambda>dns.
     bind_res (ensure_unique_cert_common_name ca_id (rq_common_name req) d) (\<lambda>_.
     bind_res (get_ca ca_id d) (\<lambda>ca.
     bind_res (clamp_to_ca_validity sv ev (v_cert_pem ca) (rq_valid_days req)) (\<lambda>valid_days.
     bind_res (issuing_crl_url sv ca_id) (\<lambda>crl_url.
     bind_res (create_subject (rq_common_name req) (rq_country_code req) (rq_organization req)
        (rq_state req) (rq_city req) (rq_organization_unit req)) (\<lambda>subject.
     Inr \<lparr>pl_key = key, pl_digest = digest, pl_dns = dns, pl_ips = ips,
          pl_valid_days = valid_days, pl_crl_url = crl_url, pl_subject = subject\<rparr>)))))))))))"

definition password_of :: "env \<Rightarrow> string option \<Rightarrow> string" where
  "password_of ev p = (case p of Some s \<Rightarrow> s | None \<Rightarrow> ev_password ev)"

definition planned_meta :: "env \<Rightarrow> string \<Rightarrow> create_cert_request \<Rightarrow> cert_plan \<Rightarrow> cert_meta" where
  "planned_meta ev ca_id req p =
     \<lparr>m_id = ev_id ev, m_common_name = rq_common_name req, m_country_code = rq_country_code req,
      m_state = rq_state req, m_city = rq_city req, m_organization = rq_organization req,
      m_organization_unit = rq_organization_unit req, m_subject = pl_subject p,
      m_issue_time = ev_clock ev 2, m_valid_days = pl_valid_days p,
      m_key_profile = ks_profile (pl_key p), m_digest_algorithm = pl_digest p,
      m_ca_id = ca_id, m_dns_list = pl_dns p, m_ip_list = pl_ips p, m_revoked_at = None,
      m_revocation_reason = None\<rparr>"

definition issue_cert :: "service \<Rightarrow> env \<Rightarrow> string \<Rightarrow> create_cert_request \<Rightarrow> cert_plan \<Rightarrow> db \<Rightarrow>
  certificate result \<times> db"
where
  "issue_cert sv ev ca_id req p =
     with_ca_lock ev 1 ca_id (\<lambda>d.
       commit_then
         (bind_res (get_ca_secrets ca_id d) (\<lambda>ca_secrets.
          in_workdir ev 1
            (create_cert_files (sv_tools sv) ca_secrets (pl_subject p) (pl_valid_days p)
               (pl_digest p) (ks_algorithm (pl_key p)) (ks_attributes (pl_key p)) (pl_dns p)
               (pl_ips p) (password_of ev (rq_password req)) (pl_crl_url p) (sv_crl_days sv))))
         (\<lambda>(secrets, index_txt, serial_txt).
          insert_cert_with_state (ev_clock ev 3) (planned_meta ev ca_id req p) secrets
            (Some (index_txt, serial_txt)) (ev_owner ev))
         (get_cert ca_id (ev_id ev)) d)"

definition create_cert ::
  "service \<Rightarrow> env \<Rightarrow> string \<Rightarrow> create_cert_request \<Rightarrow> db \<Rightarrow> certificate result \<times> db"
where
  "create_cert sv ev ca_id req d = checked (plan_cert sv ev ca_id req d) (issue_cert sv ev ca_id req) d"

section \<open>Importing\<close>

record import_cert_request =
  ic_cert_pem :: string
  ic_key_pem :: string
  ic_password :: "string option"

text \<open>The closure given to \<open>map_err\<close>.\<close>

definition import_error :: "error \<Rightarrow> error" where
  "import_error e =
     (if str_contains ''imported certificate was not issued'' (error_text e) \<or>
         str_contains ''openssl verify failed'' (error_text e)
      then Bail ''imported certificate was not issued by this CA or cannot be verified against it''
      else e)"

definition map_err :: "(error \<Rightarrow> error) \<Rightarrow> 'a act \<Rightarrow> 'a act" where
  "map_err f m w = (case m w of (r, w') \<Rightarrow> (map_sum f (\<lambda>a. a) r, w'))"

text \<open>The DNS names kept of an imported certificate, the common name first.\<close>

definition imported_dns :: "string \<Rightarrow> string list \<Rightarrow> string list" where
  "imported_dns common_name dns_list =
     (let kept = filter (\<lambda>dns. CHR '';'' \<notin> set dns \<and> \<not> has_control dns) dns_list
      in if is_valid_dns_name common_name \<and> common_name \<notin> set kept then common_name # kept
         else kept)"

definition imported_meta ::
  "service \<Rightarrow> env \<Rightarrow> string \<Rightarrow> string \<Rightarrow> derived_subject \<Rightarrow> string \<Rightarrow> (string \<times> string) list \<Rightarrow>
   string list \<times> string list \<Rightarrow> string \<Rightarrow> cert_meta"
where
  "imported_meta sv ev ca_id cert_id derived common_name info sans text =
     (let validity = validity_from_info (sv_parse_date sv) (ev_clock ev 1) info in
     \<lparr>m_id = cert_id, m_common_name = common_name, m_country_code = ds_country_code derived,
      m_state = ds_state derived, m_city = ds_city derived,
      m_organization = ds_organization derived,
      m_organization_unit = ds_organization_unit derived, m_subject = ds_subject derived,
      m_issue_time = fst validity, m_valid_days = snd validity,
      m_key_profile = parse_public_key_profile text,
      m_digest_algorithm = (case parse_signature_digest text of Some s \<Rightarrow> s | None \<Rightarrow> ''imported''),
      m_ca_id = ca_id, m_dns_list = imported_dns common_name (fst sans), m_ip_list = snd sans,
      m_revoked_at = None, m_revocation_reason = None\<rparr>)"

text \<open>The work under the lock, in the directory in which the certificate was inspected.\<close>

definition import_work ::
  "service \<Rightarrow> env \<Rightarrow> string \<Rightarrow> string \<Rightarrow> import_cert_request \<Rightarrow> string option \<Rightarrow> ca_secrets \<Rightarrow>
   (string \<times> string) list \<Rightarrow> db \<Rightarrow> (cert_secrets \<times> cert_meta) act"
where
  "import_work sv ev ca_id cert_id req csr_pem ca_secrets info d =
     and_then (map_err import_error
       (import_cert_files (sv_tools sv) ca_secrets (ic_cert_pem req) (ic_key_pem req) csr_pem
          (password_of ev (ic_password req)))) (\<lambda>secrets.
     and_then (derive_subject sv (ic_cert_pem req) info) (\<lambda>derived.
     let common_name = (case ds_common_name derived of
           Some cn \<Rightarrow> cn | None \<Rightarrow> ''Imported Certificate'') in
     and_then (lift_res (ensure_unique_cert_common_name ca_id common_name d)) (\<lambda>_.
     and_then (attempt (inspect_cert_sans (sv_tools sv) (ic_cert_pem req))) (\<lambda>sans.
     and_then (attempt (inspect_cert_text (sv_tools sv) (ic_cert_pem req))) (\<lambda>text.
     give (secrets, imported_meta sv ev ca_id cert_id derived common_name info
       (unwrap_or ([], []) sans) (unwrap_or [] text)))))))"

definition import_cert_with ::
  "service \<Rightarrow> env \<Rightarrow> string \<Rightarrow> string option \<Rightarrow> import_cert_request \<Rightarrow> string option \<Rightarrow> db \<Rightarrow>
   certificate result \<times> db"
where
  "import_cert_with sv ev ca_id cert_id req csr_pem d =
     checked
       (bind_res (validate_password (ic_password req)) (\<lambda>_.
        bind_res (get_ca ca_id d) (\<lambda>_.
        bind_res (case cert_id of Some i \<Rightarrow> validate_entity_id i | None \<Rightarrow> Inr (ev_id ev)) (\<lambda>i.
        if cert_exists i d then Inl (Bail (''certificate id already exists: '' @ i))
        else
        bind_res (ev_workdir ev 0) (\<lambda>p.
        case in_context ''imported certificate PEM is not a valid certificate''
               (inspect_cert (sv_tools sv) (ic_cert_pem req)) (fresh_workdir p) of
          (Inl e, w) \<Rightarrow> Inl e
        | (Inr info, w) \<Rightarrow> Inr (i, info, w))))))
       (\<lambda>(i, info, w). with_ca_lock ev 0 ca_id (\<lambda>d.
          commit_then
            (bind_res (get_ca_secrets ca_id d) (\<lambda>ca_secrets.
             fst (import_work sv ev ca_id i req csr_pem ca_secrets info d w)))
            (\<lambda>(secrets, meta).
             insert_cert_with_state (ev_clock ev 2) meta secrets None (ev_owner ev))
            (get_cert ca_id i) d)) d"

section \<open>Renewing a certificate\<close>

definition day_ms :: int where "day_ms = 86400000"

definition expiry :: "int \<Rightarrow> int \<Rightarrow> int" where
  "expiry issue_time valid_days = add64 issue_time (mul64 valid_days day_ms)"

definition min_days :: "int \<Rightarrow> int \<Rightarrow> int" where
  "min_days now current_expiry = add64 (tdiv (max (sub64 current_expiry now) 0) day_ms) 1"

definition renewal_extends :: "int \<Rightarrow> int \<Rightarrow> int \<Rightarrow> int \<Rightarrow> unit result" where
  "renewal_extends now current_expiry requested_days days =
     (if expiry now days \<le> current_expiry
      then (if days < requested_days
            then Inl (Bail ''renewal would not extend the certificate expiry: the CA certificate expires first'')
            else Inl (Bail (''renewal would not extend the certificate expiry; choose at least '' @
                   show_int (min_days now current_expiry) @ '' days'')))
      else Inr ())"

definition fallback_digest :: "string \<Rightarrow> string" where
  "fallback_digest d = unwrap_or ''sha512'' (normalize_digest d)"

text \<open>Subject and SANs of the current certificate; the stored SANs when it shows none.\<close>

definition renewal_source :: "service \<Rightarrow> certificate \<Rightarrow> renewal_request act" where
  "renewal_source sv cert =
     and_then (attempt (inspect_cert_subject_rfc2253 (sv_tools sv) (w_cert_pem cert))) (\<lambda>s.
     and_then (attempt (inspect_cert_sans (sv_tools sv) (w_cert_pem cert))) (\<lambda>sans.
     let (dns, ips) = unwrap_or ([], []) sans;
         subject = Option.bind (res_ok s) (\<lambda>text. slash_subject (subject_attributes text))
     in give (if dns = [] \<and> ips = []
              then \<lparr>rn_subject = subject, rn_dns_list = filter is_valid_dns_name (m_dns_list cert),
                    rn_ip_list = filter (\<lambda>ip. parse_ip ip \<noteq> None) (m_ip_list cert)\<rparr>
              else \<lparr>rn_subject = subject, rn_dns_list = dns, rn_ip_list = ips\<rparr>)))"

record renewal_plan =
  rp_days :: int
  rp_digest :: string
  rp_crl_url :: "string option"
  rp_source :: renewal_request

definition plan_renewal :: "service \<Rightarrow> env \<Rightarrow> string \<Rightarrow> string \<Rightarrow> int \<Rightarrow> db \<Rightarrow> renewal_plan result" where
  "plan_renewal sv ev ca_id cert_id requested_days d =
     bind_res (validate_days requested_days) (\<lambda>_.
     bind_res (get_cert ca_id cert_id d) (\<lambda>cert.
     if m_revoked_at cert \<noteq> None
     then Inl (Bail ''certificate is revoked and cannot be renewed; issue a new certificate instead'')
     else
     bind_res (get_ca ca_id d) (\<lambda>ca.
     bind_res (clamp_to_ca_validity sv ev (v_cert_pem ca) requested_days) (\<lambda>days.
     bind_res (renewal_extends (ev_clock ev 1) (expiry (m_issue_time cert) (m_valid_days cert))
       requested_days days) (\<lambda>_.
     bind_res (issuing_crl_url sv ca_id) (\<lambda>crl_url.
     bind_res (in_workdir ev 1 (renewal_source sv cert)) (\<lambda>source.
     Inr \<lparr>rp_days = days, rp_digest = fallback_digest (m_digest_algorithm cert),
          rp_crl_url = crl_url, rp_source = source\<rparr>)))))))"

definition renew_work ::
  "service \<Rightarrow> renewal_plan \<Rightarrow> ca_secrets \<Rightarrow> cert_secrets \<Rightarrow> (string \<times> string \<times> string \<times> string \<times> string) act"
where
  "renew_work sv p ca_secrets cert_secrets =
     and_then (renew_cert_files (sv_tools sv) ca_secrets cert_secrets (rp_source p) (rp_days p)
       (rp_digest p) (rp_crl_url p) (sv_crl_days sv)) (\<lambda>(cert_pem, pkcs12, bundle, index_txt).
     and_then (read_file ''serial.txt'') (\<lambda>serial_txt.
     give (cert_pem, pkcs12, bundle, index_txt, serial_txt)))"

definition renew_cert ::
  "service \<Rightarrow> env \<Rightarrow> string \<Rightarrow> string \<Rightarrow> int \<Rightarrow> db \<Rightarrow> certificate result \<times> db"
where
  "renew_cert sv ev ca_id cert_id days d =
     checked (plan_renewal sv ev ca_id cert_id days d)
       (\<lambda>p. with_ca_lock ev 2 ca_id (\<lambda>d.
          commit_then
            (bind_res (get_ca_secrets ca_id d) (\<lambda>ca_secrets.
             bind_res (get_cert_secrets ca_id cert_id d) (\<lambda>cert_secrets.
             in_workdir ev 2 (renew_work sv p ca_secrets cert_secrets))))
            (\<lambda>(cert_pem, pkcs12, bundle, index_txt, serial_txt).
             update_cert_with_state (ev_clock ev 3) ca_id cert_id cert_pem pkcs12 bundle
               (ev_clock ev 1) (rp_days p) (index_txt, serial_txt) (ev_owner ev))
            (get_cert ca_id cert_id) d)) d"

section \<open>The contract of the locked section\<close>

text \<open>Everything but the lock table.\<close>

definition same_data :: "db \<Rightarrow> db \<Rightarrow> bool" where
  "same_data d d' \<longleftrightarrow> cas d' = cas d \<and> certs d' = certs d \<and> users d' = users d \<and> templates d' = templates d"

lemma same_data_refl [simp]: "same_data d d" by (simp add: same_data_def)

lemma same_data_acquire: "acquire_ca_lock now c p ttl d = Inr d' \<Longrightarrow> same_data d d'"
  by (auto simp: acquire_Inr same_data_def)

lemma same_data_release: "same_data d d' \<Longrightarrow> same_data d (release_ca_lock c p d')"
  by (simp add: same_data_def release_ca_lock_def)

lemma lock_taken_ok: "acquire_ca_lock now c p ttl d = Inr d' \<Longrightarrow> schema_ok d \<Longrightarrow> schema_ok d'"
  using db_exec_schema_ok [of "Acquire now c p ttl"] by simp

text \<open>
  The laws a signing transaction obeys: it ends with the lock released, and after it the
  answer can be read. Then an operation that reports an error has changed no data and
  keeps no lock, and one that succeeds has committed exactly one transaction.
\<close>

locale signing_commit =
  fixes c p :: string and good :: "'x \<Rightarrow> bool" and commit :: "'x \<Rightarrow> db \<Rightarrow> db result"
    and final :: "db \<Rightarrow> 'a result"
  assumes releases: "good x \<Longrightarrow> commit x d = Inr d' \<Longrightarrow> \<not> db_holds d' c p"
    and answers: "good x \<Longrightarrow> schema_ok d \<Longrightarrow> commit x d = Inr d' \<Longrightarrow> \<exists>a. final d' = Inr a"
begin

lemma failed:
  assumes "schema_ok d" and "ev_owner ev = p" and "\<not> db_holds d c p"
    and "\<And>d x. prep d = Inr x \<Longrightarrow> good x"
    and "with_ca_lock ev n c (\<lambda>d. commit_then (prep d) commit final d) d = (Inl e, d')"
  shows "same_data d d'" and "\<not> db_holds d' c p"
proof -
  consider (busy) e' where "acquire_ca_lock (ev_clock ev n) c p 120000 d = Inl e'"
    | (got) d1 where "acquire_ca_lock (ev_clock ev n) c p 120000 d = Inr d1"
    by (cases "acquire_ca_lock (ev_clock ev n) c p 120000 d") auto
  then have "same_data d d' \<and> \<not> db_holds d' c p"
  proof cases
    case busy
    then show ?thesis using assms by (simp add: with_ca_lock_def)
  next
    case got
    have ok: "schema_ok d1" by (rule lock_taken_ok [OF got assms(1)])
    have "d' = release_ca_lock c p d1"
    proof (cases "prep d1")
      case (Inl x)
      then show ?thesis using assms(2,5) got by (simp add: with_ca_lock_def commit_then_def)
    next
      case (Inr x)
      show ?thesis
      proof (cases "commit x d1")
        case (Inl y)
        then show ?thesis
          using Inr assms(2,5) got by (simp add: with_ca_lock_def commit_then_def)
      next
        case (Inr d2)
        obtain a where "final d2 = Inr a"
          using answers [OF assms(4) [OF \<open>prep d1 = Inr x\<close>] ok Inr] by blast
        then show ?thesis
          using Inr \<open>prep d1 = Inr x\<close> assms(2,5) got by (simp add: with_ca_lock_def commit_then_def)
      qed
    qed
    then show ?thesis
      using same_data_release [OF same_data_acquire [OF got]] ca_lease.released_not_held by simp
  qed
  then show "same_data d d'" "\<not> db_holds d' c p" by simp_all
qed

lemma succeeded:
  assumes "ev_owner ev = p" and good: "\<And>d x. prep d = Inr x \<Longrightarrow> good x"
    and "with_ca_lock ev n c (\<lambda>d. commit_then (prep d) commit final d) d = (Inr a, d')"
  obtains d1 x where "acquire_ca_lock (ev_clock ev n) c p 120000 d = Inr d1" and "prep d1 = Inr x"
    and "commit x d1 = Inr d'" and "final d' = Inr a" and "\<not> db_holds d' c p"
proof -
  from assms(1,3) obtain d1 where d1: "acquire_ca_lock (ev_clock ev n) c p 120000 d = Inr d1"
    by (auto simp: with_ca_lock_def split: sum.splits)
  with assms(1,3) have "commit_then (prep d1) commit final d1 = (Inr a, d')"
    by (auto simp: with_ca_lock_def split: prod.splits sum.splits)
  then obtain x where "prep d1 = Inr x" "commit x d1 = Inr d'" "final d' = Inr a"
    by (auto simp: commit_then_def split: sum.splits)
  moreover from this have "\<not> db_holds d' c p" using releases good by blast
  ultimately show ?thesis using d1 by (intro that)
qed

end

lemma active_ca_live: "schema_ok d \<Longrightarrow> r \<in> set (cas d) \<Longrightarrow> active_ca c r \<Longrightarrow> ca_live d c"
  using ca_live_iff [of d c] by (auto simp: active_ca_def)

lemma update_where_has:
  "r \<in> set t \<Longrightarrow> p r \<Longrightarrow> (\<And>x. p x \<Longrightarrow> q (f x)) \<Longrightarrow> \<exists>x \<in> set (update_where p f t). q x"
  by (force simp: set_update_where)

lemma release_holds: "\<not> db_holds (release_ca_lock c p d) c p"
  by (rule ca_lease.released_not_held)

lemma ca_change_live:
  assumes "schema_ok d'" and "\<exists>r \<in> set t. active_ca c r" and "cas d' = update_where (active_ca c) f t"
    and "\<And>r. car_id (f r) = car_id r" and "\<And>r. car_deleted (f r) = car_deleted r"
  shows "ca_live d' c"
proof -
  obtain s where "s \<in> set t" "active_ca c s" using assms(2) by blast
  then have "\<exists>x \<in> set (update_where (active_ca c) f t). active_ca c x"
    by (rule update_where_has) (simp add: active_ca_def assms(4,5))
  then obtain r where "r \<in> set (cas d')" "active_ca c r" unfolding assms(3) by blast
  then show ?thesis by (rule active_ca_live [OF assms(1)])
qed

lemma ca_state_change_deleted [simp]: "car_deleted (ca_state_change st now r) = car_deleted r"
  by (simp add: ca_state_change_def split: option.splits)

lemma get_cert_found:
  "schema_ok d \<Longrightarrow> ca_live d c \<Longrightarrow> r \<in> set (certs d) \<Longrightarrow> active_cert c i r \<Longrightarrow> \<exists>a. get_cert c i d = Inr a"
  by (auto simp: get_cert_Inr)

lemma release_data [simp]:
  "cas (release_ca_lock c p d) = cas d" "certs (release_ca_lock c p d) = certs d"
  by (simp_all add: release_ca_lock_def)

interpretation issuing: signing_commit "m_ca_id meta" p "\<lambda>_. True"
  "\<lambda>(secrets, idx, ser). insert_cert_with_state now meta secrets (Some (idx, ser)) p"
  "get_cert (m_ca_id meta) (m_id meta)" for meta p now
proof
  fix x :: "cert_secrets \<times> string \<times> string" and d d'
  obtain k idx ser where x: "x = (k, idx, ser)" by (cases x) auto
  assume "(case x of (secrets, idx, ser) \<Rightarrow> insert_cert_with_state now meta secrets (Some (idx, ser)) p) d = Inr d'"
  then have i: "insert_cert_with_state now meta k (Some (idx, ser)) p d = Inr d'" by (simp add: x)
  then show "\<not> db_holds d' (m_ca_id meta) p" by (auto simp: insert_cert_Inr release_holds)
  assume "schema_ok d"
  then have ok: "schema_ok d'" using i db_exec_schema_ok [of "Insert_cert now meta k (Some (idx, ser)) p"] by simp
  have "ca_live d' (m_ca_id meta)"
    using i by (intro ca_change_live [OF ok, of "cas d" _ "ca_state_change (Some (idx, ser)) now"])
      (auto simp: insert_cert_Inr)
  moreover have "certs d' = certs d @ [new_cert_row now 1 meta k]"
    using i by (auto simp: insert_cert_Inr)
  ultimately show "\<exists>a. get_cert (m_ca_id meta) (m_id meta) d' = Inr a"
    by (intro get_cert_found [OF ok, of _ "new_cert_row now 1 meta k"]) (auto simp: active_cert_def)
qed

interpretation importing: signing_commit c p "\<lambda>x. m_ca_id (snd x) = c \<and> m_id (snd x) = i"
  "\<lambda>(secrets, meta). insert_cert_with_state now meta secrets None p" "get_cert c i" for c i p now
proof
  fix x :: "cert_secrets \<times> cert_meta" and d d'
  obtain k meta where x: "x = (k, meta)" by (cases x)
  assume g: "m_ca_id (snd x) = c \<and> m_id (snd x) = i"
    and c: "(case x of (secrets, meta) \<Rightarrow> insert_cert_with_state now meta secrets None p) d = Inr d'"
  then have m: "m_ca_id meta = c" "m_id meta = i"
    and i: "insert_cert_with_state now meta k None p d = Inr d'" by (auto simp: x)
  from i m show "\<not> db_holds d' c p" by (auto simp: insert_cert_Inr release_holds)
  assume "schema_ok d"
  then have ok: "schema_ok d'" using i db_exec_schema_ok [of "Insert_cert now meta k None p"] by simp
  have "ca_live d' c"
    using i m by (intro ca_change_live [OF ok, of "cas d" _ "ca_state_change None now"])
      (auto simp: insert_cert_Inr)
  moreover have "certs d' = certs d @ [new_cert_row now 1 meta k]"
    using i by (auto simp: insert_cert_Inr)
  ultimately show "\<exists>a. get_cert c i d' = Inr a"
    using m by (intro get_cert_found [OF ok, of _ "new_cert_row now 1 meta k"]) (auto simp: active_cert_def)
qed

interpretation renewing: signing_commit c p "\<lambda>_. True"
  "\<lambda>(pem, p12, bun, idx, ser). update_cert_with_state now c i pem p12 bun it vd (idx, ser) p"
  "get_cert c i" for c i p now it vd
proof
  fix x :: "string \<times> string \<times> string \<times> string \<times> string" and d d'
  obtain pem p12 bun idx ser where x: "x = (pem, p12, bun, idx, ser)" by (cases x) auto
  assume "(case x of (pem, p12, bun, idx, ser) \<Rightarrow>
     update_cert_with_state now c i pem p12 bun it vd (idx, ser) p) d = Inr d'"
  then have u: "update_cert_with_state now c i pem p12 bun it vd (idx, ser) p d = Inr d'" by (simp add: x)
  then show "\<not> db_holds d' c p" by (auto simp: update_cert_Inr release_holds)
  assume "schema_ok d"
  then have ok: "schema_ok d'"
    using u db_exec_schema_ok [of "Update_cert now c i pem p12 bun it vd (idx, ser) p"] by simp
  have "ca_live d' c"
    using u by (intro ca_change_live [OF ok, of "cas d" _ "put_ca_state idx ser now"])
      (auto simp: update_cert_Inr)
  moreover have "\<exists>r \<in> set (certs d'). active_cert c i r"
  proof -
    obtain s where "s \<in> set (certs d)" "renewable_cert c i s" using u by (auto simp: update_cert_Inr)
    then have "\<exists>x \<in> set (update_where (renewable_cert c i) (renewed_cert pem p12 bun it vd now) (certs d)).
        active_cert c i x"
      by (rule update_where_has) (auto simp: renewable_cert_def active_cert_def renewed_cert_def cer_id_def)
    then show ?thesis using u by (auto simp: update_cert_Inr)
  qed
  ultimately show "\<exists>a. get_cert c i d' = Inr a" by (auto simp: get_cert_Inr [OF ok])
qed

interpretation revoking: signing_commit c p "\<lambda>_. True"
  "\<lambda>refresh. revoke_cert_with_state now c i reason at
     (cr_index_txt refresh, cr_serial_txt refresh) (cr_crl_der refresh, cr_crlnumber_txt refresh) p"
  "get_cert c i" for c i p now reason at
proof
  fix x d d'
  let ?st = "(cr_index_txt x, cr_serial_txt x)" and ?crl = "(cr_crl_der x, cr_crlnumber_txt x)"
  assume u: "revoke_cert_with_state now c i reason at ?st ?crl p d = Inr d'"
  then show "\<not> db_holds d' c p" by (auto simp: revoke_cert_Inr release_holds)
  assume "schema_ok d"
  then have ok: "schema_ok d'"
    using u db_exec_schema_ok [of "Revoke_cert now c i reason at ?st ?crl p"] by simp
  have "ca_live d' c"
    using u by (intro ca_change_live [OF ok, of "cas d" _
        "\<lambda>r. put_ca_crl (fst ?crl) (snd ?crl) now (put_ca_state (fst ?st) (snd ?st) now r)"])
      (auto simp: revoke_cert_Inr)
  moreover have "\<exists>r \<in> set (certs d'). active_cert c i r"
  proof -
    obtain s where "s \<in> set (certs d)" "active_cert c i s" using u by (auto simp: revoke_cert_Inr)
    then have "\<exists>x \<in> set (update_where (active_cert c i) (revoked_cert reason at now) (certs d)).
        active_cert c i x"
      by (rule update_where_has) (auto simp: active_cert_def revoked_cert_def cer_id_def)
    then show ?thesis using u by (auto simp: revoke_cert_Inr)
  qed
  ultimately show "\<exists>a. get_cert c i d' = Inr a" by (auto simp: get_cert_Inr [OF ok])
qed

section \<open>Failures and successes of the operations\<close>

lemma checked_Inl:
  assumes "checked r f d = (Inl e, d')"
  obtains "r = Inl e" "d' = d" | x where "r = Inr x" "f x d = (Inl e, d')"
  using assms by (cases r) (auto simp: checked_def)

lemma checked_Inr:
  assumes "checked r f d = (Inr a, d')"
  obtains x where "r = Inr x" "f x d = (Inr a, d')"
  using assms by (cases r) (auto simp: checked_def)

lemma planned_meta_simps [simp]:
  "m_ca_id (planned_meta ev c req p) = c" "m_id (planned_meta ev c req p) = ev_id ev"
  by (simp_all add: planned_meta_def)

lemma create_cert_failed:
  assumes "schema_ok d" and "\<not> db_holds d c (ev_owner ev)" and "create_cert sv ev c req d = (Inl e, d')"
  shows "same_data d d' \<and> \<not> db_holds d' c (ev_owner ev)"
  using assms(3) unfolding create_cert_def
proof (cases rule: checked_Inl)
  case 1
  with assms(2) show ?thesis by simp
next
  case (2 p)
  let ?m = "planned_meta ev c req p"
  note w = 2(2) [unfolded issue_cert_def]
  show ?thesis
    using issuing.failed [where meta = ?m and p = "ev_owner ev" and ev = ev, OF assms(1) refl _ TrueI]
      w assms(2) by (simp add: case_prod_unfold)
qed

lemma import_work_ids:
  "fst (import_work sv ev c i req csr ca info d w) = Inr x \<Longrightarrow> m_ca_id (snd x) = c \<and> m_id (snd x) = i"
  by (cases "import_work sv ev c i req csr ca info d w")
    (auto simp: import_work_def Let_def act_simps imported_meta_def)

lemma import_cert_failed:
  assumes "schema_ok d" and "\<not> db_holds d c (ev_owner ev)"
    and "import_cert_with sv ev c cert_id req csr d = (Inl e, d')"
  shows "same_data d d' \<and> \<not> db_holds d' c (ev_owner ev)"
  using assms(3) unfolding import_cert_with_def
proof (cases rule: checked_Inl)
  case 1
  with assms(2) show ?thesis by simp
next
  case (2 x)
  obtain i info w where x: "x = (i, info, w)" by (cases x) auto
  let ?prep = "\<lambda>d. bind_res (get_ca_secrets c d) (\<lambda>ca. fst (import_work sv ev c i req csr ca info d w))"
  have g: "?prep d = Inr y \<Longrightarrow> m_ca_id (snd y) = c \<and> m_id (snd y) = i" for d y
    by (auto simp: bind_res_eq_Inr dest: import_work_ids)
  have "with_ca_lock ev 0 c (\<lambda>d. commit_then (?prep d)
      (\<lambda>(secrets, meta). insert_cert_with_state (ev_clock ev 2) meta secrets None (ev_owner ev))
      (get_cert c i) d) d = (Inl e, d')"
    using 2(2) by (simp add: x)
  from importing.failed [OF assms(1) refl assms(2) g this] show ?thesis by simp
qed

lemma renew_cert_failed:
  assumes "schema_ok d" and "\<not> db_holds d c (ev_owner ev)"
    and "renew_cert sv ev c i days d = (Inl e, d')"
  shows "same_data d d' \<and> \<not> db_holds d' c (ev_owner ev)"
  using assms(3) unfolding renew_cert_def
proof (cases rule: checked_Inl)
  case 1
  with assms(2) show ?thesis by simp
next
  case (2 p)
  from renewing.failed [OF assms(1) refl assms(2) TrueI 2(2)] show ?thesis by simp
qed

lemma revoke_cert_failed:
  assumes "schema_ok d" and "\<not> db_holds d c (ev_owner ev)"
    and "revoke_cert sv ev c i reason d = (Inl e, d')"
  shows "same_data d d' \<and> \<not> db_holds d' c (ev_owner ev)"
  using assms(3) unfolding revoke_cert_def
proof (cases rule: checked_Inl)
  case 1
  with assms(2) show ?thesis by simp
next
  case (2 p)
  from revoking.failed [OF assms(1) refl assms(2) TrueI 2(2)] show ?thesis by simp
qed

lemma in_workdir_Inr:
  "in_workdir ev n m = Inr a \<longleftrightarrow> (\<exists>p w. ev_workdir ev n = Inr p \<and> m (fresh_workdir p) = (Inr a, w))"
  by (auto simp: in_workdir_def bind_res_eq_Inr) (metis prod.collapse)

lemma acquire_keeps:
  "acquire_ca_lock now c p ttl d = Inr d' \<Longrightarrow> cas d' = cas d \<and> certs d' = certs d"
  by (auto simp: acquire_Inr)

lemma get_ca_secrets_cong: "cas d' = cas d \<Longrightarrow> get_ca_secrets c d' = get_ca_secrets c d"
  by (simp add: get_ca_secrets_def)

section \<open>Bounds on validity\<close>

lemma clamp_days_bound:
  assumes "clamp_days now (Some t) days = Inr k" and "in_i64 (t - now)"
  shows "k \<le> days" and "now + k * day_ms \<le> t"
proof -
  let ?m = "tdiv (t - now) 86400000"
  have k: "1 \<le> ?m" "k = min ?m days"
    using assms by (auto simp: clamp_days_def Let_def sub64_def wrap64_id split: if_splits)
  then have "0 \<le> t - now" using tdiv_le_0 [of "t - now" 86400000] by linarith
  then have "?m = (t - now) div 86400000" by (simp add: tdiv_nonneg)
  then have "?m * 86400000 \<le> t - now" by simp
  moreover have "k * 86400000 \<le> ?m * 86400000" using k by simp
  ultimately show "now + k * day_ms \<le> t" by (simp add: day_ms_def)
  show "k \<le> days" using k by simp
qed

text \<open>The number of days the message proposes is the least one that is accepted.\<close>

lemma min_days_least:
  assumes "in_i64 (cur - now)" and "0 \<le> now" and "now \<le> 2 ^ 61" and "cur \<le> 2 ^ 61"
    and "0 \<le> k" and "k \<le> 36500"
  shows "renewal_extends now cur r k = Inr () \<longleftrightarrow> min_days now cur \<le> k \<or> cur < now \<and> k = 0"
proof -
  have w: "wrap64 x = x" if "- (2 ^ 62) \<le> x" "x \<le> 2 ^ 62" for x
    using that by (intro wrap64_id) (simp add: in_i64_def i64_min_def i64_max_def)
  have e: "expiry now k = now + k * day_ms"
    using assms unfolding expiry_def add64_def mul64_def day_ms_def by (simp add: w)
  let ?q = "max (cur - now) 0 div day_ms"
  have "tdiv (max (sub64 cur now) 0) day_ms = ?q"
    using assms(1) by (simp add: sub64_def wrap64_id tdiv_nonneg day_ms_def)
  moreover have "?q \<le> 2 ^ 61" "0 \<le> ?q" using assms by (auto simp: day_ms_def max_def)
  ultimately have m: "min_days now cur = ?q + 1"
    unfolding min_days_def add64_def by (simp add: w)
  have "renewal_extends now cur r k = Inr () \<longleftrightarrow> cur < now + k * day_ms"
    by (simp add: renewal_extends_def e not_less [symmetric])
  also have "\<dots> \<longleftrightarrow> ?q + 1 \<le> k \<or> cur < now \<and> k = 0"
  proof (cases "cur \<le> now")
    case True
    then show ?thesis using assms(5) by (cases "k = 0") (auto simp: day_ms_def max_def)
  next
    case False
    then have "max (cur - now) 0 = cur - now" by simp
    then show ?thesis using False by (simp add: day_ms_def) linarith
  qed
  finally show ?thesis by (simp add: m)
qed

end
