(* ===== verification/Ip_Roundtrip.thy ===== *)
theory Ip_Roundtrip
  imports Ip_Addr
begin

text \<open>The canonical text of an address parses back to it.\<close>

section \<open>Numbers\<close>

fun digits_of :: "nat \<Rightarrow> nat \<Rightarrow> nat list" where
  "digits_of b n = (if n < b \<or> b < 2 then [n] else digits_of b (n div b) @ [n mod b])"

declare digits_of.simps [simp del]

lemma digit_char_hex: "d < 10 \<Longrightarrow> digit_char d = hex_char d"
  by (simp add: digit_char_def hex_char_def)

lemma digits_of_less: "2 \<le> b \<Longrightarrow> \<forall>d \<in> set (digits_of b n). d < b"
proof (induction b n rule: digits_of.induct)
  case (1 b n)
  then show ?case by (subst digits_of.simps) auto
qed

lemma show_nat_digits_of: "show_nat n = map hex_char (digits_of 10 n)"
proof (induction n rule: show_nat.induct)
  case (1 n)
  then show ?case by (subst show_nat.simps, subst digits_of.simps) (simp add: digit_char_hex)
qed

lemma show_hex_digits_of: "show_hex n = map hex_char (digits_of 16 n)"
proof (induction n rule: show_hex.induct)
  case (1 n)
  then show ?case by (subst show_hex.simps, subst digits_of.simps) simp
qed

lemma foldl_digits_of: "2 \<le> b \<Longrightarrow> foldl (\<lambda>a d. b * a + d) 0 (digits_of b n) = n"
proof (induction b n rule: digits_of.induct)
  case (1 b n)
  then show ?case by (subst digits_of.simps) auto
qed

lemma digits_of_not_Nil [simp]: "digits_of b n \<noteq> []"
  by (subst digits_of.simps) simp

lemma hd_digits_of: "2 \<le> b \<Longrightarrow> hd (digits_of b n) = 0 \<Longrightarrow> n = 0"
proof (induction b n rule: digits_of.induct)
  case (1 b n)
  show ?case
  proof (cases "n < b \<or> b < 2")
    case True
    with 1(3) show ?thesis by (subst (asm) digits_of.simps) simp
  next
    case False
    with 1(3) have "hd (digits_of b (n div b)) = 0" by (subst (asm) digits_of.simps) simp
    with 1(1) [OF False] 1(2) have "n div b = 0" by simp
    with False show ?thesis by (simp add: div_eq_0_iff)
  qed
qed

lemma length_digits_of: "2 \<le> b \<Longrightarrow> n < b ^ Suc k \<Longrightarrow> length (digits_of b n) \<le> Suc k"
proof (induction k arbitrary: n)
  case 0
  then show ?case by (subst digits_of.simps) simp
next
  case (Suc k)
  have "n div b < b ^ Suc k" using Suc.prems by (simp add: less_mult_imp_div_less mult.commute)
  with Suc show ?case by (subst digits_of.simps) simp
qed

lemma hex_value_char: "d < 16 \<Longrightarrow> hex_value (hex_char d) = Some d"
  by (auto simp: hex_value_def hex_char_def byte_def)

text \<open>The text begins with no digit of the base.\<close>

definition no_digit :: "nat \<Rightarrow> string \<Rightarrow> bool" where
  "no_digit b s \<longleftrightarrow> (case s of [] \<Rightarrow> True | c # _ \<Rightarrow> radix_digit b c = None)"

lemma no_digit_simps [simp]:
  "no_digit b []" "no_digit b (CHR '':'' # s)" "no_digit b (CHR ''.'' # s)"
  by (simp_all add: no_digit_def radix_digit_def hex_value_def byte_def)

lemma take_no_digit: "no_digit b s \<Longrightarrow> take_digits b s = ([], s)"
  by (cases s) (simp_all add: no_digit_def)

lemma take_digits_hex:
  "b \<le> 16 \<Longrightarrow> \<forall>d \<in> set ds. d < b \<Longrightarrow> no_digit b r \<Longrightarrow> take_digits b (map hex_char ds @ r) = (ds, r)"
  by (induction ds) (simp_all add: take_no_digit radix_digit_def hex_value_char)

lemma read_number_digits:
  assumes "2 \<le> b" "b \<le> 16" "n \<le> mx" "mx < b ^ Suc k" "no_digit b r"
  shows "read_number b (Suc k) z mx (map hex_char (digits_of b n) @ r) = Some (n, r)"
proof -
  have "length (digits_of b n) \<le> Suc k" using assms(1,3,4) by (intro length_digits_of) auto
  moreover have "length (digits_of b n) = 1" if "hd (digits_of b n) = 0"
  proof -
    have "n = 0" using hd_digits_of [OF assms(1)] that by blast
    then show ?thesis using assms(1) by (subst digits_of.simps) simp
  qed
  moreover have "take_digits b (map hex_char (digits_of b n) @ r) = (digits_of b n, r)"
    using assms(2,5) digits_of_less [OF assms(1)] by (intro take_digits_hex) auto
  ultimately show ?thesis
    using assms(3) by (auto simp: read_number_def foldl_digits_of [OF assms(1)])
qed

lemma read_octet: "o1 \<le> 255 \<Longrightarrow> no_digit 10 r \<Longrightarrow> read_number 10 3 False 255 (show_nat o1 @ r) = Some (o1, r)"
  using read_number_digits [of 10 o1 255 2 r False] by (simp add: show_nat_digits_of)

lemma read_group: "g \<le> 65535 \<Longrightarrow> no_digit 16 r \<Longrightarrow> read_number 16 4 True 65535 (show_hex g @ r) = Some (g, r)"
  using read_number_digits [of 16 g 65535 3 r True] by (simp add: show_hex_digits_of)

lemma read_number_no_digit: "no_digit b s \<Longrightarrow> read_number b m z mx s = None"
  by (simp add: read_number_def take_no_digit)

section \<open>IPv4\<close>

lemma join_Cons: "join sep (w # ws) = w @ concat (map (\<lambda>v. sep @ v) ws)"
  by (induction ws arbitrary: w) auto

lemma read_octets_tail:
  "list_all (\<lambda>x. x \<le> 255) os \<Longrightarrow> no_digit 10 r \<Longrightarrow>
   read_octets (Suc i) (length os) (concat (map (\<lambda>v. ''.'' @ show_nat v) os) @ r) = Some (os, r)"
proof (induction os arbitrary: i)
  case Nil
  then show ?case by simp
next
  case (Cons v os)
  let ?t = "concat (map (\<lambda>v. ''.'' @ show_nat v) os) @ r"
  have "no_digit 10 ?t" using Cons.prems(2) by (cases os) auto
  with Cons show ?case by (simp add: read_separator_def read_octet)
qed

lemma read_ipv4_shown:
  assumes "length os = 4" "list_all (\<lambda>x. x \<le> 255) os" "no_digit 10 r"
  shows "read_ipv4 (join ''.'' (map show_nat os) @ r) = Some (os, r)"
proof -
  obtain v vs where os: "os = v # vs" "length vs = 3" using assms(1) by (cases os) auto
  let ?t = "concat (map (\<lambda>v. ''.'' @ show_nat v) vs) @ r"
  have "no_digit 10 ?t" using assms(3) by (cases vs) auto
  moreover have "read_octets (Suc 0) 3 ?t = Some (vs, r)"
    using read_octets_tail [of vs r 0] assms os by simp
  ultimately show ?thesis
    using assms(2) os read_octet [of v ?t]
    by (simp add: read_ipv4_def join_Cons comp_def eval_nat_numeral read_separator_def)
qed

lemma parse_shown_ipv4: "wf_ip (V4 os) \<Longrightarrow> parse_ip (show_ip (V4 os)) = Some (V4 os)"
  using read_ipv4_shown [of os "[]"] by (simp add: parse_ip_def)

section \<open>IPv6\<close>

lemma take_digits_rest: "take_digits b s = (ds, r) \<Longrightarrow> \<exists>p. s = p @ r"
proof (induction b s arbitrary: ds r rule: take_digits.induct)
  case (1 b)
  then show ?case by simp
next
  case (2 b c s)
  show ?case
  proof (cases "radix_digit b c")
    case None
    with 2(2) show ?thesis by simp
  next
    case (Some d)
    with 2(2) obtain ds' where "take_digits b s = (ds', r)" by (auto split: prod.splits)
    from 2(1) [OF Some this] show ?thesis by (metis append_Cons)
  qed
qed

lemma read_number_rest: "read_number b m z mx s = Some (v, r) \<Longrightarrow> \<exists>p. s = p @ r"
  by (auto simp: read_number_def Let_def split: prod.splits if_splits dest: take_digits_rest)

lemma read_ipv4_dot: "CHR ''.'' \<notin> set s \<Longrightarrow> read_ipv4 s = None"
  by (auto simp: read_ipv4_def eval_nat_numeral read_separator_def split: option.splits list.splits
      dest!: read_number_rest)

lemma no_ipv4: "CHR ''.'' \<notin> set s \<Longrightarrow> read_separator c i read_ipv4 s = None"
  by (auto simp: read_separator_def read_ipv4_dot split: list.splits)

lemma hex_no_dot: "CHR ''.'' \<notin> set (show_hex g)"
proof -
  have "hex_char d \<noteq> CHR ''.''" if "d < 16" for d
    using hex_value_char [OF that] by (auto simp: hex_value_def byte_def)
  moreover have "\<forall>d \<in> set (digits_of 16 g). d < 16" by (rule digits_of_less) simp
  ultimately have "\<forall>d \<in> set (digits_of 16 g). hex_char d \<noteq> CHR ''.''" by blast
  then show ?thesis unfolding show_hex_digits_of set_map by (metis imageE)
qed

text \<open>Where the groups stop: no separator that a group follows.\<close>

abbreviation no_group :: "nat \<Rightarrow> string \<Rightarrow> bool" where
  "no_group i s \<equiv> read_separator (CHR '':'') i (read_number 16 4 True 65535) s = None"

lemma read_groups_stop: "CHR ''.'' \<notin> set s \<Longrightarrow> no_group i s \<Longrightarrow> read_groups i n s = ([], False, s)"
  by (cases n) (simp_all add: no_ipv4)

lemma read_groups_tail:
  assumes "list_all (\<lambda>g. g \<le> 65535) gs" "CHR ''.'' \<notin> set r" "no_digit 16 r"
    and "length gs \<le> n" and "length gs < n \<Longrightarrow> \<forall>j. no_group (Suc j) r"
  shows "read_groups (Suc i) n (concat (map (\<lambda>g. '':'' @ show_hex g) gs) @ r) = (gs, False, r)"
  using assms
proof (induction gs arbitrary: i n)
  case Nil
  then show ?case by (cases n) (simp_all add: no_ipv4)
next
  case (Cons g gs)
  let ?t = "concat (map (\<lambda>g. '':'' @ show_hex g) gs) @ r"
  obtain m where n: "n = Suc m" using Cons.prems(4) by (cases n) auto
  have "no_digit 16 ?t" using Cons.prems(3) by (cases gs) auto
  then have "read_separator (CHR '':'') (Suc i) (read_number 16 4 True 65535) ('':'' @ show_hex g @ ?t) =
      Some (g, ?t)"
    using Cons.prems(1) by (simp add: read_separator_def read_group)
  moreover have "read_separator (CHR '':'') (Suc i) read_ipv4 ('':'' @ show_hex g @ ?t) = None"
    using Cons.prems(2) hex_no_dot by (intro no_ipv4) auto
  moreover have "read_groups (Suc (Suc i)) m ?t = (gs, False, r)"
    using Cons.prems n by (intro Cons.IH) auto
  ultimately show ?case using Cons.prems(4) by (cases m) (simp_all add: n)
qed

lemma read_groups_shown:
  assumes "list_all (\<lambda>g. g \<le> 65535) gs" "CHR ''.'' \<notin> set r" "no_digit 16 r"
    and "length gs \<le> n" and "length gs < n \<Longrightarrow> \<forall>j. no_group j r"
  shows "read_groups 0 n (join '':'' (map show_hex gs) @ r) = (gs, False, r)"
proof (cases gs)
  case Nil
  with assms show ?thesis by (cases n) (simp_all add: no_ipv4)
next
  case (Cons g gs')
  let ?t = "concat (map (\<lambda>g. '':'' @ show_hex g) gs') @ r"
  obtain m where n: "n = Suc m" using assms(4) Cons by (cases n) auto
  have "no_digit 16 ?t" using assms(3) by (cases gs') auto
  then have "read_separator (CHR '':'') 0 (read_number 16 4 True 65535) (show_hex g @ ?t) = Some (g, ?t)"
    using assms(1) Cons by (simp add: read_separator_def read_group)
  moreover have "read_separator (CHR '':'') 0 read_ipv4 (show_hex g @ ?t) = None"
    using assms(2) hex_no_dot by (intro no_ipv4) auto
  moreover have "read_groups (Suc 0) m ?t = (gs', False, r)"
    using assms Cons n by (intro read_groups_tail) auto
  moreover have "join '':'' (map show_hex gs) @ r = show_hex g @ ?t"
    by (simp add: Cons join_Cons comp_def)
  ultimately show ?thesis using assms(4) by (cases m) (simp_all add: n Cons)
qed

text \<open>The run of zeros found is one.\<close>

lemma longest_zeros_run:
  assumes "longest_zeros i gs current longest = (s, l)"
    and "take i all @ gs = all" and "i \<le> length all"
    and "fst current + snd current = i \<or> snd current = 0"
    and "\<forall>k. fst current \<le> k \<and> k < fst current + snd current \<longrightarrow> all ! k = 0"
    and "fst longest + snd longest \<le> i"
    and "\<forall>k. fst longest \<le> k \<and> k < fst longest + snd longest \<longrightarrow> all ! k = 0"
  shows "s + l \<le> length all \<and> (\<forall>k. s \<le> k \<and> k < s + l \<longrightarrow> all ! k = (0 :: nat))"
  using assms
proof (induction i gs current longest rule: longest_zeros.induct)
  case (1 i current longest)
  then show ?case by auto
next
  case (2 i g gs current longest)
  have g: "all ! i = g" "take (Suc i) all @ gs = all" "Suc i \<le> length all"
  proof -
    have l: "length all = i + Suc (length gs)"
      using arg_cong [OF 2(4), of length] 2(5) by simp
    have "drop i all = g # gs" using arg_cong [OF 2(4), of "drop i"] 2(5) by simp
    then show "all ! i = g" using l by (simp add: nth_via_drop)
    have "drop (Suc i) all = gs"
      using \<open>drop i all = g # gs\<close> by (metis drop_Suc list.sel(3) tl_drop)
    then show "take (Suc i) all @ gs = all" by (metis append_take_drop_id)
    show "Suc i \<le> length all" using l by simp
  qed
  show ?case
  proof (cases "g = 0")
    case False
    with 2 g show ?thesis by auto
  next
    case True
    let ?c = "((if snd current = 0 then i else fst current), snd current + 1)"
    have c: "fst ?c + snd ?c = Suc i" using 2(6) by auto
    have z: "\<forall>k. fst ?c \<le> k \<and> k < fst ?c + snd ?c \<longrightarrow> all ! k = 0"
      using 2(6,7) g(1) True by (auto simp: less_Suc_eq)
    show ?thesis
      using 2(1) [OF True refl] 2(3,8,9) True g c z by (cases "snd longest < snd ?c") (auto simp: Let_def)
  qed
qed

lemma read_ipv4_colon: "read_ipv4 (CHR '':'' # s) = None"
  by (simp add: read_ipv4_def eval_nat_numeral read_separator_def read_number_no_digit)

lemma no_group_simps [simp]: "no_group i []" "no_group i (CHR '':'' # CHR '':'' # s)"
  by (simp_all add: read_separator_def read_number_no_digit)

lemma join_no_dot: "CHR ''.'' \<notin> set (join '':'' (map show_hex gs))"
  using hex_no_dot by (induction gs rule: induct_list012) auto

lemma all_drop: "list_all P xs \<Longrightarrow> list_all P (drop n xs)"
  and all_take: "list_all P xs \<Longrightarrow> list_all P (take n xs)"
  by (auto simp: list_all_iff dest: in_set_dropD in_set_takeD)

lemma read_plain_ipv6:
  assumes "length gs = 8" "list_all (\<lambda>g. g \<le> 65535) gs"
  shows "read_ipv6 (join '':'' (map show_hex gs)) = Some (gs, [])"
  using read_groups_shown [of gs "[]" 8] assms by (simp add: read_ipv6_def)

lemma read_short_ipv6:
  assumes "length gs = 8" "list_all (\<lambda>g. g \<le> 65535) gs" "1 < l" "s + l \<le> 8"
    and zeros: "\<forall>k. s \<le> k \<and> k < s + l \<longrightarrow> gs ! k = 0"
  shows "read_ipv6 (join '':'' (map show_hex (take s gs)) @ ''::'' @
     join '':'' (map show_hex (drop (s + l) gs))) = Some (gs, [])"
proof -
  let ?a = "take s gs" and ?b = "drop (s + l) gs"
  let ?r = "join '':'' (map show_hex ?b)"
  have len: "length ?a = s" "length ?b = 8 - (s + l)" using assms by auto
  have "read_groups 0 8 (join '':'' (map show_hex ?a) @ ''::'' @ ?r) = (?a, False, ''::'' @ ?r)"
    using assms(2,3,4) join_no_dot len
    by (intro read_groups_shown) (auto simp: all_take)
  moreover have "read_groups 0 (8 - (s + 1)) (?r @ []) = (?b, False, [])"
    using assms(2,3,4) len by (intro read_groups_shown) (auto simp: all_drop)
  moreover have "?a @ replicate (8 - s - length ?b) 0 @ ?b = gs"
  proof (rule nth_equalityI)
    show "length (?a @ replicate (8 - s - length ?b) 0 @ ?b) = length gs" using assms len by simp
    fix k assume "k < length (?a @ replicate (8 - s - length ?b) 0 @ ?b)"
    then have "k < 8" using assms len by simp
    then show "(?a @ replicate (8 - s - length ?b) 0 @ ?b) ! k = gs ! k"
      using assms len zeros by (auto simp: nth_append)
  qed
  ultimately show ?thesis
    using assms(3,4) len by (simp add: read_ipv6_def strip_prefix_def starts_with_def)
qed

lemma read_ipv4_no_digit: "no_digit 10 s \<Longrightarrow> read_ipv4 s = None"
proof -
  assume "no_digit 10 s"
  then have "read_octets 0 (Suc 3) s = None"
    by (simp only: read_octets.simps(2)) (simp add: read_separator_def read_number_no_digit)
  then show ?thesis by (simp add: read_ipv4_def)
qed

lemma read_mapped_ipv6:
  assumes "length os = 4" "list_all (\<lambda>x. x \<le> 255) os"
  shows "read_ipv6 (''::ffff:'' @ join ''.'' (map show_nat os)) =
    Some ([0, 0, 0, 0, 0, 65535, 256 * os ! 0 + os ! 1, 256 * os ! 2 + os ! 3], [])"
proof -
  let ?v = "join ''.'' (map show_nat os)"
  let ?gs = "[256 * os ! 0 + os ! 1, 256 * os ! 2 + os ! 3]"
  have v: "read_ipv4 ?v = Some (os, [])" using read_ipv4_shown [of os "[]"] assms by simp
  have "read_groups (Suc 0) (Suc 5) ('':'' @ ?v) = (?gs, True, [])"
    by (simp only: read_groups.simps(2)) (simp add: read_separator_def v)
  then have t1: "read_groups (Suc 0) 6 ('':'' @ ?v) = (?gs, True, [])" by simp
  have "char_of (102 :: nat) = CHR ''f''" by code_simp
  then have "show_hex 65535 = ''ffff''" by (simp add: show_hex.simps hex_char_def)
  then have "read_number 16 4 True 65535 (''ffff'' @ '':'' @ ?v) = Some (65535, '':'' @ ?v)"
    using read_group [of 65535 "'':'' @ ?v"] by simp
  moreover have "read_ipv4 (''ffff'' @ '':'' @ ?v) = None"
    by (rule read_ipv4_no_digit) (simp add: no_digit_def radix_digit_def hex_value_def byte_def)
  ultimately have "read_groups 0 (Suc 6) (''ffff'' @ '':'' @ ?v) = (65535 # ?gs, True, [])"
    using t1 by (simp only: read_groups.simps(2)) (simp add: read_separator_def)
  then have t: "read_groups 0 7 (''ffff:'' @ ?v) = (65535 # ?gs, True, [])" by simp
  have "read_groups 0 (Suc 7) (''::ffff:'' @ ?v) = ([], False, ''::ffff:'' @ ?v)"
    by (simp only: read_groups.simps(2))
      (simp add: read_separator_def read_ipv4_colon read_number_no_digit)
  then have h: "read_groups 0 8 (''::ffff:'' @ ?v) = ([], False, ''::ffff:'' @ ?v)" by simp
  have p: "strip_prefix ''::'' (''::ffff:'' @ ?v) = Some (''ffff:'' @ ?v)"
    by (simp add: strip_prefix_def starts_with_def)
  have "replicate 5 (0 :: nat) = [0, 0, 0, 0, 0]" by (simp add: numeral_eq_Suc)
  with t p show ?thesis by (simp add: read_ipv6_def h del: append.simps)
qed

text \<open>Well-formed addresses survive being printed.\<close>

lemma parse_shown_ip: "wf_ip a \<Longrightarrow> parse_ip (show_ip a) = Some a"
proof (cases a)
  case (V4 os)
  assume "wf_ip a"
  with V4 show ?thesis using parse_shown_ipv4 by simp
next
  case (V6 gs)
  assume "wf_ip a"
  with V6 have gs: "length gs = 8" "list_all (\<lambda>g. g \<le> 65535) gs" by auto
  show ?thesis
  proof (cases "take 6 gs = [0, 0, 0, 0, 0, 65535]")
    case True
    let ?os = "[gs ! 6 div 256, gs ! 6 mod 256, gs ! 7 div 256, gs ! 7 mod 256]"
    have "drop 6 gs = [gs ! 6, gs ! 7]"
      using gs(1) by (intro nth_equalityI) (auto simp: less_Suc_eq numeral_eq_Suc)
    then have e: "gs = [0, 0, 0, 0, 0, 65535, gs ! 6, gs ! 7]"
      using True append_take_drop_id [of 6 gs] by simp
    have "gs ! 6 \<le> 65535" "gs ! 7 \<le> 65535" using gs by (simp_all add: list_all_length)
    then have os: "list_all (\<lambda>x. x \<le> 255) ?os" by simp linarith
    have shown: "show_ipv6 gs = ''::ffff:'' @ join ''.'' (map show_nat ?os)"
      using True by (simp add: show_ipv6_def)
    from os have "read_ipv6 (show_ipv6 gs) = Some ([0, 0, 0, 0, 0, 65535,
        256 * ?os ! 0 + ?os ! 1, 256 * ?os ! 2 + ?os ! 3], [])"
      using read_mapped_ipv6 [of ?os] by (simp only: shown) simp
    moreover have "read_ipv4 (show_ipv6 gs) = None"
      by (simp add: shown read_ipv4_colon)
    moreover have "256 * ?os ! 0 + ?os ! 1 = gs ! 6" "256 * ?os ! 2 + ?os ! 3 = gs ! 7"
      by simp_all
    ultimately have "read_ipv4 (show_ipv6 gs) = None"
      and "read_ipv6 (show_ipv6 gs) = Some ([0, 0, 0, 0, 0, 65535, gs ! 6, gs ! 7], [])" by simp_all
    then show ?thesis unfolding e [symmetric] V6 by (simp add: parse_ip_def)
  next
    case False
    obtain s l where z: "longest_zeros 0 gs (0, 0) (0, 0) = (s, l)" by (cases "longest_zeros 0 gs (0, 0) (0, 0)")
    have run: "s + l \<le> length gs \<and> (\<forall>k. s \<le> k \<and> k < s + l \<longrightarrow> gs ! k = 0)"
      by (rule longest_zeros_run [OF z]) auto
    have "CHR ''.'' \<notin> set (show_ipv6 gs)"
      using False join_no_dot by (auto simp: show_ipv6_def z)
    moreover have "read_ipv6 (show_ipv6 gs) = Some (gs, [])"
      using False run read_plain_ipv6 [OF gs] read_short_ipv6 [OF gs, of l s] gs(1)
      by (auto simp: show_ipv6_def z)
    ultimately show ?thesis using V6 by (simp add: parse_ip_def read_ipv4_dot)
  qed
qed

end
