(* ===== verification/Signing_Facts.thy ===== *)
theory Signing_Facts
  imports Signing Ip_Roundtrip
begin

text \<open>
  What the signing operations of \<open>Signing\<close> have done when they succeed: the facts
  a plan rests on, and the rows and states the database holds afterwards.
\<close>

section \<open>Alternative names of a plan\<close>

lemma add_dns_valid:
  "add_dns dns known = Inr known' \<Longrightarrow> list_all is_valid_dns_name known \<Longrightarrow> list_all is_valid_dns_name known'"
  by (auto simp: add_dns_def bind_res_eq_Inr is_valid_dns_name_def split: if_splits)

lemma san_dns_valid: "san_dns cn names = Inr dns \<Longrightarrow> list_all is_valid_dns_name dns"
  unfolding san_dns_def
  by (erule fold_res_invariant [rotated 2]) (auto intro: add_dns_valid)

text \<open>No name occurs twice, whatever the case of its letters.\<close>

fun distinct_names :: "string list \<Rightarrow> bool" where
  "distinct_names [] = True"
| "distinct_names (n # ns) = (\<not> list_ex (\<lambda>k. eq_ignore_ascii_case n k) ns \<and> distinct_names ns)"

lemma distinct_names_snoc:
  "distinct_names (ns @ [n]) \<longleftrightarrow> distinct_names ns \<and> \<not> list_ex (\<lambda>k. eq_ignore_ascii_case k n) ns"
  by (induction ns) auto

lemma san_dns_distinct: "san_dns cn names = Inr dns \<Longrightarrow> distinct_names dns"
  unfolding san_dns_def
  by (erule fold_res_invariant [rotated 2])
    (auto simp: add_dns_def bind_res_eq_Inr distinct_names_snoc split: if_splits)

text \<open>Every requested name is among them, up to the case of its letters, and no other.\<close>

lemma add_dns_covers:
  assumes "add_dns n known = Inr known'"
  shows "set known \<subseteq> set known'" and "n = [] \<or> (\<exists>k \<in> set known'. eq_ignore_ascii_case k n)"
    and "set known' \<subseteq> insert n (set known)"
  using assms by (auto simp: add_dns_def bind_res_eq_Inr list_ex_iff split: if_splits)

lemma fold_dns_covers:
  assumes "fold_res add_dns ns known = Inr known'"
  shows "set known \<subseteq> set known' \<and> set known' \<subseteq> set known \<union> set ns \<and>
    (\<forall>n \<in> set ns. n = [] \<or> (\<exists>k \<in> set known'. eq_ignore_ascii_case k n))"
  using assms
proof (induction ns arbitrary: known)
  case (Cons n ns)
  then obtain k1 where k1: "add_dns n known = Inr k1" "fold_res add_dns ns k1 = Inr known'"
    by (auto simp: bind_res_eq_Inr)
  from Cons.IH [OF k1(2)] add_dns_covers [OF k1(1)] show ?case by auto
qed simp

lemma san_dns_covers:
  assumes "san_dns cn names = Inr dns"
  shows "set dns \<subseteq> insert cn (trim ` set names)"
    and "is_valid_dns_name cn \<longrightarrow> cn \<in> set dns"
    and "\<forall>n \<in> set names. trim n = [] \<or> (\<exists>k \<in> set dns. eq_ignore_ascii_case k (trim n))"
  using fold_dns_covers [OF assms [unfolded san_dns_def]] by (auto split: if_splits)

lemma san_ips_shown: "san_ips ips = Inr shown \<Longrightarrow> list_all (\<lambda>ip. \<exists>a. wf_ip a \<and> ip = show_ip a) shown"
  unfolding san_ips_def
  by (erule map_res_all) (auto simp: ok_or_eq dest: parse_ip_wf)

lemma dns_plain_line: "is_valid_dns_name n \<Longrightarrow> plain_line n"
proof -
  assume "is_valid_dns_name n"
  then have "\<not> has_control n" using dns_name_plain(3) by (auto simp: is_valid_dns_name_def is_ok_iff)
  then show ?thesis using no_control_newline by (fastforce simp: plain_line_def LF_def CR_def byte_def)
qed

lemma ip_plain_line: "plain_line (show_ip a)"
  using show_ip_chars [of a] ip_char_graphic
  by (fastforce simp: plain_line_def list_all_iff is_ascii_graphic_def LF_def CR_def byte_def)

lemma ip_kept: "wf_ip a \<Longrightarrow> show_ip a \<noteq> [] \<and> trim (show_ip a) = show_ip a \<and> CHR '';'' \<notin> set (show_ip a)"
proof -
  assume "wf_ip a"
  then have ne: "show_ip a \<noteq> []" by (rule show_ip_not_Nil)
  have g: "is_ascii_graphic c \<and> c \<noteq> CHR '';''" if "c \<in> set (show_ip a)" for c
    using show_ip_chars [of a] ip_char_graphic that by (auto simp: list_all_iff)
  then have "trim (show_ip a) = show_ip a" using ne by (intro trim_ends_graphic) auto
  with ne g show ?thesis by blast
qed

text \<open>A list of canonical addresses is its own canonical list.\<close>

lemma san_ips_again:
  assumes "san_ips ips = Inr shown"
  shows "san_ips shown = Inr shown"
proof -
  have each: "\<exists>a. wf_ip a \<and> ip = show_ip a" if "ip \<in> set shown" for ip
    using san_ips_shown [OF assms] that by (auto simp: list_all_iff)
  have "map trim shown = shown" using each ip_kept by (intro map_idI) metis
  moreover have "filter (\<lambda>ip. ip \<noteq> []) shown = shown"
    unfolding filter_id_conv using each ip_kept by metis
  moreover have "map_res (\<lambda>ip. ok_or (Bail (''invalid IP SAN: '' @ debug_str ip))
      (map_option show_ip (parse_ip ip))) (map (\<lambda>a. a) shown) = Inr shown"
  proof (rule map_res_map_id)
    fix ip assume "ip \<in> set shown"
    then obtain a where "wf_ip a" "ip = show_ip a" using each by blast
    then show "ok_or (Bail (''invalid IP SAN: '' @ debug_str ip))
        (map_option show_ip (parse_ip ip)) = Inr ip" by (simp add: parse_shown_ip)
  qed
  ultimately show ?thesis by (simp add: san_ips_def)
qed

text \<open>What is stored of the names reads back, and so does what openssl is given.\<close>

lemma san_lists_kept:
  assumes "san_dns cn names = Inr dns" and "san_ips addrs = Inr ips"
  shows "split_list (join '';'' dns) = dns" and "split_list (join '';'' ips) = ips"
    and "config_entries ''DNS'' (cert_config dns ips) = dns"
    and "config_entries ''IP'' (cert_config dns ips) = ips"
proof -
  have d: "\<forall>n \<in> set dns. is_valid_dns_name n" using san_dns_valid [OF assms(1)] by (simp add: list_all_iff)
  have i: "\<forall>ip \<in> set ips. \<exists>a. wf_ip a \<and> ip = show_ip a"
    using san_ips_shown [OF assms(2)] by (simp add: list_all_iff)
  show "split_list (join '';'' dns) = dns"
    using d dns_name_plain by (intro split_list_join) (auto simp: is_valid_dns_name_def is_ok_iff)
  show "split_list (join '';'' ips) = ips"
    using i ip_kept by (intro split_list_join) metis
  have "\<forall>v \<in> set dns \<union> set ips. plain_line v" using d i dns_plain_line ip_plain_line by auto
  then show "config_entries ''DNS'' (cert_config dns ips) = dns"
    "config_entries ''IP'' (cert_config dns ips) = ips" by (rule config_entries_back)+
qed

section \<open>Plans\<close>

lemma plan_cert_Inr:
  assumes "plan_cert sv ev c req d = Inr p"
  obtains ca where "san_dns (rq_common_name req) (rq_dns_list req) = Inr (pl_dns p)"
    and "san_ips (rq_ip_list req) = Inr (pl_ips p)"
    and "\<not> cert_common_name_exists c (rq_common_name req) d"
    and "get_ca c d = Inr ca"
    and "clamp_to_ca_validity sv ev (v_cert_pem ca) (rq_valid_days req) = Inr (pl_valid_days p)"
    and "create_subject (rq_common_name req) (rq_country_code req) (rq_organization req)
        (rq_state req) (rq_city req) (rq_organization_unit req) = Inr (pl_subject p)"
    and "normalize_digest (rq_digest_algorithm req) = Inr (pl_digest p)"
    and "validate_days (rq_valid_days req) = Inr ()"
    and "key_spec_of (rq_key_profile req) = Inr (pl_key p)"
    and "issuing_crl_url sv c = Inr (pl_crl_url p)"
  using assms unfolding plan_cert_def bind_res_eq_Inr ensure_unique_cert_common_name_def
  by (elim exE conjE) (rule that; force split: if_splits)

lemma clamp_to_ca_validity_Inr:
  assumes "clamp_to_ca_validity sv ev pem days = Inr k" and "1 \<le> days"
  shows "k \<le> days" and "1 \<le> k"
    and "in_workdir ev 0 (inspect_cert (sv_tools sv) pem) = Inr info \<Longrightarrow> not_after sv info = Some t \<Longrightarrow>
      in_i64 (t - ev_clock ev 0) \<Longrightarrow> ev_clock ev 0 + k * day_ms \<le> t"
proof -
  obtain i where i: "in_workdir ev 0 (inspect_cert (sv_tools sv) pem) = Inr i"
    and k: "clamp_days (ev_clock ev 0) (not_after sv i) days = Inr k"
    using assms(1) by (auto simp: clamp_to_ca_validity_def bind_res_eq_Inr)
  show "k \<le> days" "1 \<le> k"
    using k assms(2) by (auto simp: clamp_days_def Let_def split: option.splits if_splits)
  assume "in_workdir ev 0 (inspect_cert (sv_tools sv) pem) = Inr info" "not_after sv info = Some t"
    and r: "in_i64 (t - ev_clock ev 0)"
  with i k have "clamp_days (ev_clock ev 0) (Some t) days = Inr k" by simp
  then show "ev_clock ev 0 + k * day_ms \<le> t" using r by (rule clamp_days_bound)
qed

section \<open>Successes\<close>

lemma after_release:
  assumes "x = release_ca_lock c p d"
  shows "cas x = cas d" and "certs x = certs d" and "\<not> db_holds x c p"
  using assms release_holds by simp_all

lemma ca_after:
  assumes ok: "schema_ok d'" and c: "cas d' = update_where (active_ca c) f t" and r: "\<exists>r \<in> set t. active_ca c r"
    and "\<And>r. car_id (f r) = car_id r" and "\<And>r. car_deleted (f r) = car_deleted r"
    and g: "\<And>r. P (car_secrets (f r))"
  shows "\<exists>s. get_ca_secrets c d' = Inr s \<and> P s"
proof -
  obtain s where "s \<in> set t" "active_ca c s" using r by blast
  then have s: "f s \<in> set (cas d')" "active_ca c (f s)"
    using c assms(4,5) by (auto simp: set_update_where active_ca_def)
  then have "get_ca_secrets c d' = Inr (car_secrets (f s))"
    using ok by (auto simp: get_ca_secrets_Inr)
  with g show ?thesis by blast
qed

lemma create_cert_Inr:
  assumes "schema_ok d" and "create_cert sv ev c req d = (Inr v, d')"
  obtains p ca k idx ser where "plan_cert sv ev c req d = Inr p" and "get_ca_secrets c d = Inr ca"
    and "in_workdir ev 1 (create_cert_files (sv_tools sv) ca (pl_subject p) (pl_valid_days p)
         (pl_digest p) (ks_algorithm (pl_key p)) (ks_attributes (pl_key p)) (pl_dns p)
         (pl_ips p) (password_of ev (rq_password req)) (pl_crl_url p) (sv_crl_days sv)) = Inr (k, idx, ser)"
    and "certs d' = certs d @ [new_cert_row (ev_clock ev 3) 1 (planned_meta ev c req p) k]"
    and "\<exists>s. get_ca_secrets c d' = Inr s \<and> s_index_txt s = idx \<and> s_serial_txt s = ser"
    and "get_cert c (ev_id ev) d' = Inr v" and "\<not> db_holds d' c (ev_owner ev)" and "schema_ok d'"
proof -
  obtain p where p: "plan_cert sv ev c req d = Inr p" and w: "issue_cert sv ev c req p d = (Inr v, d')"
    using assms(2) unfolding create_cert_def by (rule checked_Inr)
  let ?m = "planned_meta ev c req p"
  let ?prep = "\<lambda>d. bind_res (get_ca_secrets c d) (\<lambda>ca. in_workdir ev 1
        (create_cert_files (sv_tools sv) ca (pl_subject p) (pl_valid_days p)
         (pl_digest p) (ks_algorithm (pl_key p)) (ks_attributes (pl_key p)) (pl_dns p)
         (pl_ips p) (password_of ev (rq_password req)) (pl_crl_url p) (sv_crl_days sv)))"
  have w': "with_ca_lock ev 1 (m_ca_id ?m) (\<lambda>d. commit_then (?prep d)
      (\<lambda>(secrets, idx, ser). insert_cert_with_state (ev_clock ev 3) ?m secrets (Some (idx, ser)) (ev_owner ev))
      (get_cert (m_ca_id ?m) (m_id ?m)) d) d = (Inr v, d')"
    using w by (simp add: issue_cert_def)
  obtain d1 x where a: "acquire_ca_lock (ev_clock ev 1) c (ev_owner ev) 120000 d = Inr d1"
    and x: "?prep d1 = Inr x"
    and i: "(\<lambda>(secrets, idx, ser).
        insert_cert_with_state (ev_clock ev 3) ?m secrets (Some (idx, ser)) (ev_owner ev)) x d1 = Inr d'"
    and v: "get_cert c (ev_id ev) d' = Inr v" and "\<not> db_holds d' c (ev_owner ev)"
    by (rule issuing.succeeded [OF refl TrueI w', unfolded planned_meta_simps]) (rule that; simp)
  note keep = acquire_keeps [OF a]
  obtain k idx ser where xs: "x = (k, idx, ser)" by (cases x) auto
  have ok: "schema_ok d'"
    using i xs lock_taken_ok [OF a assms(1)]
      db_exec_schema_ok [of "Insert_cert (ev_clock ev 3) ?m k (Some (idx, ser)) (ev_owner ev)"] by simp
  have "\<exists>s. get_ca_secrets c d' = Inr s \<and> s_index_txt s = idx \<and> s_serial_txt s = ser"
    using i xs by (intro ca_after [OF ok, of c "ca_state_change (Some (idx, ser)) (ev_clock ev 3)" "cas d1"])
      (auto simp: insert_cert_Inr ca_state_change_def put_ca_state_def)
  moreover have "certs d' = certs d @ [new_cert_row (ev_clock ev 3) 1 ?m k]"
    and "\<not> db_holds d' c (ev_owner ev)"
    using i xs keep by (auto simp: insert_cert_Inr release_holds)
  moreover obtain ca where "get_ca_secrets c d = Inr ca"
    and "in_workdir ev 1 (create_cert_files (sv_tools sv) ca (pl_subject p) (pl_valid_days p)
         (pl_digest p) (ks_algorithm (pl_key p)) (ks_attributes (pl_key p)) (pl_dns p)
         (pl_ips p) (password_of ev (rq_password req)) (pl_crl_url p) (sv_crl_days sv)) = Inr (k, idx, ser)"
    using x xs by (auto simp: bind_res_eq_Inr get_ca_secrets_cong [OF conjunct1 [OF keep]])
  ultimately show ?thesis using p v ok by (intro that)
qed

lemma plan_renewal_Inr:
  assumes "plan_renewal sv ev c i days d = Inr p"
  obtains cert ca where "validate_days days = Inr ()" and "get_cert c i d = Inr cert"
    and "m_revoked_at cert = None" and "get_ca c d = Inr ca"
    and "clamp_to_ca_validity sv ev (v_cert_pem ca) days = Inr (rp_days p)"
    and "expiry (m_issue_time cert) (m_valid_days cert) < expiry (ev_clock ev 1) (rp_days p)"
proof -
  obtain cert ca k url src where "validate_days days = Inr ()" "get_cert c i d = Inr cert"
    and "m_revoked_at cert = None" and "get_ca c d = Inr ca"
    and "clamp_to_ca_validity sv ev (v_cert_pem ca) days = Inr k"
    and "renewal_extends (ev_clock ev 1) (expiry (m_issue_time cert) (m_valid_days cert)) days k = Inr ()"
    and "p = \<lparr>rp_days = k, rp_digest = fallback_digest (m_digest_algorithm cert),
          rp_crl_url = url, rp_source = src\<rparr>"
    using assms unfolding plan_renewal_def bind_res_eq_Inr
    by (elim exE conjE) (auto simp: bind_res_eq_Inr split: if_splits)
  then show ?thesis by (intro that [of cert ca]) (auto simp: renewal_extends_def split: if_splits)
qed

text \<open>The rows of one id are one row, before and after it is changed.\<close>

lemma same_cert_row:
  "schema_ok d \<Longrightarrow> r \<in> set (certs d) \<Longrightarrow> s \<in> set (certs d) \<Longrightarrow> cer_id r = cer_id s \<Longrightarrow> r = s"
  by (auto simp: schema_ok_def keys_ok_def distinct_map inj_on_def)

lemma get_cert_changed:
  assumes "schema_ok d" "schema_ok d'" and "get_cert c i d' = Inr v"
    and "certs d' = update_where q f (certs d)" and "r \<in> set (certs d)" "active_cert c i r" "q r"
    and "\<And>r. cer_id (f r) = cer_id r"
  shows "v = row_to_cert (f r)" and "get_cert_secrets c i d' = Inr (cer_secrets (f r))"
proof -
  obtain r' where r': "r' \<in> set (certs d')" "active_cert c i r'" "v = row_to_cert r'" and live: "ca_live d' c"
    using assms(3) by (auto simp: get_cert_Inr [OF assms(2)])
  have "f r \<in> set (certs d')" using assms(4,5,7) by (auto simp: set_update_where)
  moreover have "cer_id (f r) = cer_id r'" using assms(6,8) r' by (auto simp: active_cert_def)
  ultimately have "r' = f r" using r'(1) same_cert_row [OF assms(2)] by auto
  with r' live show "v = row_to_cert (f r)" "get_cert_secrets c i d' = Inr (cer_secrets (f r))"
    by (auto simp: get_cert_secrets_Inr [OF assms(2)])
qed

lemma renew_cert_Inr:
  assumes "schema_ok d" and "renew_cert sv ev c i days d = (Inr v, d')"
  obtains p ca k pem p12 bun idx ser where "plan_renewal sv ev c i days d = Inr p"
    and "get_ca_secrets c d = Inr ca" and "get_cert_secrets c i d = Inr k"
    and "in_workdir ev 2 (renew_work sv p ca k) = Inr (pem, p12, bun, idx, ser)"
    and "m_issue_time v = ev_clock ev 1" and "m_valid_days v = rp_days p" and "m_revoked_at v = None"
    and "get_cert c i d' = Inr v" and "schema_ok d'" and "\<not> db_holds d' c (ev_owner ev)"
    and "get_cert_secrets c i d' = Inr (k\<lparr>k_cert_pem := pem, k_pkcs12 := p12, k_bundle_zip := bun\<rparr>)"
    and "\<exists>s. get_ca_secrets c d' = Inr s \<and> s_index_txt s = idx \<and> s_serial_txt s = ser"
proof -
  obtain p where p: "plan_renewal sv ev c i days d = Inr p"
    and w: "with_ca_lock ev 2 c (\<lambda>d. commit_then
      (bind_res (get_ca_secrets c d) (\<lambda>ca. bind_res (get_cert_secrets c i d) (\<lambda>k.
         in_workdir ev 2 (renew_work sv p ca k))))
      (\<lambda>(pem, p12, bun, idx, ser). update_cert_with_state (ev_clock ev 3) c i pem p12 bun
         (ev_clock ev 1) (rp_days p) (idx, ser) (ev_owner ev)) (get_cert c i) d) d = (Inr v, d')"
    using assms(2) unfolding renew_cert_def by (rule checked_Inr)
  obtain d1 x where a: "acquire_ca_lock (ev_clock ev 2) c (ev_owner ev) 120000 d = Inr d1"
    and x: "bind_res (get_ca_secrets c d1) (\<lambda>ca. bind_res (get_cert_secrets c i d1) (\<lambda>k.
         in_workdir ev 2 (renew_work sv p ca k))) = Inr x"
    and u: "(\<lambda>(pem, p12, bun, idx, ser). update_cert_with_state (ev_clock ev 3) c i pem p12 bun
         (ev_clock ev 1) (rp_days p) (idx, ser) (ev_owner ev)) x d1 = Inr d'"
    and v: "get_cert c i d' = Inr v" and h: "\<not> db_holds d' c (ev_owner ev)"
    by (rule renewing.succeeded [OF refl TrueI w]) (rule that; simp)
  note keep = acquire_keeps [OF a] and ok1 = lock_taken_ok [OF a assms(1)]
  obtain pem p12 bun idx ser where xs: "x = (pem, p12, bun, idx, ser)" by (cases x) auto
  have ok: "schema_ok d'"
    using u xs ok1 db_exec_schema_ok [of "Update_cert (ev_clock ev 3) c i pem p12 bun
        (ev_clock ev 1) (rp_days p) (idx, ser) (ev_owner ev)"] by simp
  obtain ca k where ca: "get_ca_secrets c d1 = Inr ca" "get_cert_secrets c i d1 = Inr k"
    "in_workdir ev 2 (renew_work sv p ca k) = Inr (pem, p12, bun, idx, ser)"
    using x xs by (auto simp: bind_res_eq_Inr)
  let ?f = "renewed_cert pem p12 bun (ev_clock ev 1) (rp_days p) (ev_clock ev 3)"
  obtain r where r: "r \<in> set (certs d1)" "renewable_cert c i r"
    and c: "certs d' = update_where (renewable_cert c i) ?f (certs d1)"
    using u xs by (auto simp: update_cert_Inr)
  have act: "active_cert c i r" and nr: "cer_revoked_at r = None" using r(2) by (auto simp: renewable_cert_def)
  have id: "cer_id (?f s) = cer_id s" for s by (simp add: renewed_cert_def cer_id_def)
  note after = get_cert_changed [OF ok1 ok v c r(1) act r(2) id]
  obtain r2 where r2: "r2 \<in> set (certs d1)" "active_cert c i r2" "k = cer_secrets r2" "ca_live d1 c"
    using ca(2) by (auto simp: get_cert_secrets_Inr [OF ok1])
  then have "r2 = r" using act r(1) by (intro same_cert_row [OF ok1]) (auto simp: active_cert_def)
  with r2 after(2) have k: "get_cert_secrets c i d' =
      Inr (k\<lparr>k_cert_pem := pem, k_pkcs12 := p12, k_bundle_zip := bun\<rparr>)"
    by (simp add: renewed_cert_def)
  have st: "\<exists>s. get_ca_secrets c d' = Inr s \<and> s_index_txt s = idx \<and> s_serial_txt s = ser"
    using u xs by (intro ca_after [OF ok, of c "put_ca_state idx ser (ev_clock ev 3)" "cas d1"])
      (auto simp: update_cert_Inr put_ca_state_def)
  have "get_ca_secrets c d = Inr ca" using ca(1) keep get_ca_secrets_cong by metis
  moreover have "get_cert_secrets c i d = Inr k"
    using r2 keep by (auto simp: get_cert_secrets_Inr [OF assms(1)] ca_live_def)
  moreover have "m_issue_time v = ev_clock ev 1" "m_valid_days v = rp_days p" "m_revoked_at v = None"
    using after(1) nr by (simp_all add: renewed_cert_def)
  ultimately show ?thesis using p ca(3) v ok h k st by (intro that)
qed

lemma revoke_cert_done:
  assumes "schema_ok d" and "revoke_cert sv ev c i reason d = (Inr v, d')"
  obtains reason' ca k x where "sv_crl_enabled sv" and "normalize_revocation_reason reason = Inr reason'"
    and "get_ca_secrets c d = Inr ca" and "get_cert_secrets c i d = Inr k"
    and "in_workdir ev 0 (revoke_cert_files (sv_tools sv) ca k reason' (sv_crl_days sv)) = Inr x"
    and "m_revoked_at v = Some (ev_clock ev 1)" and "m_revocation_reason v = Some reason'"
    and "get_cert c i d' = Inr v" and "schema_ok d'" and "\<not> db_holds d' c (ev_owner ev)"
    and "\<exists>s. get_ca_secrets c d' = Inr s \<and> s_index_txt s = cr_index_txt x \<and>
      s_serial_txt s = cr_serial_txt x \<and> s_crl_der s = cr_crl_der x"
proof -
  obtain reason' where p: "sv_crl_enabled sv" "normalize_revocation_reason reason = Inr reason'"
    and w: "with_ca_lock ev 0 c (\<lambda>d. commit_then
      (bind_res (get_cert c i d) (\<lambda>cert. if m_revoked_at cert \<noteq> None
         then Inl (Bail ''certificate is already revoked'')
         else bind_res (get_ca_secrets c d) (\<lambda>ca. bind_res (get_cert_secrets c i d) (\<lambda>k.
           in_workdir ev 0 (revoke_cert_files (sv_tools sv) ca k reason' (sv_crl_days sv))))))
      (\<lambda>refresh. revoke_cert_with_state (ev_clock ev 2) c i reason' (ev_clock ev 1)
         (cr_index_txt refresh, cr_serial_txt refresh)
         (cr_crl_der refresh, cr_crlnumber_txt refresh) (ev_owner ev)) (get_cert c i) d) d = (Inr v, d')"
    using assms(2) unfolding revoke_cert_def
    by (rule checked_Inr) (auto simp: bind_res_eq_Inr split: if_splits)
  obtain d1 x where a: "acquire_ca_lock (ev_clock ev 0) c (ev_owner ev) 120000 d = Inr d1"
    and x: "bind_res (get_cert c i d1) (\<lambda>cert. if m_revoked_at cert \<noteq> None
         then Inl (Bail ''certificate is already revoked'')
         else bind_res (get_ca_secrets c d1) (\<lambda>ca. bind_res (get_cert_secrets c i d1) (\<lambda>k.
           in_workdir ev 0 (revoke_cert_files (sv_tools sv) ca k reason' (sv_crl_days sv))))) = Inr x"
    and u: "revoke_cert_with_state (ev_clock ev 2) c i reason' (ev_clock ev 1)
         (cr_index_txt x, cr_serial_txt x) (cr_crl_der x, cr_crlnumber_txt x) (ev_owner ev) d1 = Inr d'"
    and v: "get_cert c i d' = Inr v" and h: "\<not> db_holds d' c (ev_owner ev)"
    by (rule revoking.succeeded [OF refl TrueI w]) (rule that; simp)
  note keep = acquire_keeps [OF a] and ok1 = lock_taken_ok [OF a assms(1)]
  have ok: "schema_ok d'"
    using u ok1 db_exec_schema_ok [of "Revoke_cert (ev_clock ev 2) c i reason' (ev_clock ev 1)
        (cr_index_txt x, cr_serial_txt x) (cr_crl_der x, cr_crlnumber_txt x) (ev_owner ev)"] by simp
  obtain ca k where ca: "get_ca_secrets c d1 = Inr ca" "get_cert_secrets c i d1 = Inr k"
    "in_workdir ev 0 (revoke_cert_files (sv_tools sv) ca k reason' (sv_crl_days sv)) = Inr x"
    using x by (auto simp: bind_res_eq_Inr split: if_splits)
  let ?f = "revoked_cert reason' (ev_clock ev 1) (ev_clock ev 2)"
  obtain r where r: "r \<in> set (certs d1)" "active_cert c i r"
    and c: "certs d' = update_where (active_cert c i) ?f (certs d1)"
    using u by (auto simp: revoke_cert_Inr)
  have id: "cer_id (?f s) = cer_id s" for s by (simp add: revoked_cert_def cer_id_def)
  have v': "v = row_to_cert (?f r)" by (rule get_cert_changed [OF ok1 ok v c r(1) r(2) r(2) id])
  have st: "\<exists>s. get_ca_secrets c d' = Inr s \<and> s_index_txt s = cr_index_txt x \<and>
      s_serial_txt s = cr_serial_txt x \<and> s_crl_der s = cr_crl_der x"
    using u by (intro ca_after [OF ok, of c "\<lambda>r. put_ca_crl (cr_crl_der x) (cr_crlnumber_txt x)
        (ev_clock ev 2) (put_ca_state (cr_index_txt x) (cr_serial_txt x) (ev_clock ev 2) r)" "cas d1"])
      (auto simp: revoke_cert_Inr put_ca_state_def put_ca_crl_def)
  have "get_ca_secrets c d = Inr ca" using ca(1) keep get_ca_secrets_cong by metis
  moreover have "get_cert_secrets c i d = Inr k"
    using ca(2) keep by (auto simp: get_cert_secrets_Inr [OF assms(1)] get_cert_secrets_Inr [OF ok1] ca_live_def)
  moreover have "m_revoked_at v = Some (ev_clock ev 1)" "m_revocation_reason v = Some reason'"
    using v' by (simp_all add: revoked_cert_def)
  ultimately show ?thesis using p ca(3) v ok h st by (intro that)
qed

lemma created_cert:
  assumes "schema_ok d" and "create_cert sv ev c req d = (Inr v, d')"
  obtains p ca k idx ser where "plan_cert sv ev c req d = Inr p" and "get_ca_secrets c d = Inr ca"
    and "in_workdir ev 1 (create_cert_files (sv_tools sv) ca (pl_subject p) (pl_valid_days p)
         (pl_digest p) (ks_algorithm (pl_key p)) (ks_attributes (pl_key p)) (pl_dns p)
         (pl_ips p) (password_of ev (rq_password req)) (pl_crl_url p) (sv_crl_days sv)) = Inr (k, idx, ser)"
    and "certs d' = certs d @ [new_cert_row (ev_clock ev 3) 1 (planned_meta ev c req p) k]"
    and "v = row_to_cert (new_cert_row (ev_clock ev 3) 1 (planned_meta ev c req p) k)"
    and "get_cert c (ev_id ev) d' = Inr v" and "get_cert_secrets c (ev_id ev) d' = Inr k"
    and "\<exists>s. get_ca_secrets c d' = Inr s \<and> s_index_txt s = idx \<and> s_serial_txt s = ser"
    and "\<not> db_holds d' c (ev_owner ev)"
proof (rule create_cert_Inr [OF assms])
  fix p ca k idx ser
  let ?r = "new_cert_row (ev_clock ev 3) 1 (planned_meta ev c req p) k"
  assume a: "plan_cert sv ev c req d = Inr p" "get_ca_secrets c d = Inr ca"
    "in_workdir ev 1 (create_cert_files (sv_tools sv) ca (pl_subject p) (pl_valid_days p)
         (pl_digest p) (ks_algorithm (pl_key p)) (ks_attributes (pl_key p)) (pl_dns p)
         (pl_ips p) (password_of ev (rq_password req)) (pl_crl_url p) (sv_crl_days sv)) = Inr (k, idx, ser)"
    "certs d' = certs d @ [?r]"
    "\<exists>s. get_ca_secrets c d' = Inr s \<and> s_index_txt s = idx \<and> s_serial_txt s = ser"
    and v: "get_cert c (ev_id ev) d' = Inr v" and h: "\<not> db_holds d' c (ev_owner ev)" and ok: "schema_ok d'"
  obtain r where r: "r \<in> set (certs d')" "active_cert c (ev_id ev) r" "v = row_to_cert r" "ca_live d' c"
    using v by (auto simp: get_cert_Inr [OF ok])
  have "?r \<in> set (certs d')" by (simp add: a(4))
  moreover have "cer_id ?r = cer_id r" using r(2) by (simp add: active_cert_def)
  ultimately have "r = ?r" using r(1) same_cert_row [OF ok] by metis
  then have "v = row_to_cert ?r" "get_cert_secrets c (ev_id ev) d' = Inr k"
    using r by (auto simp: get_cert_secrets_Inr [OF ok] new_cert_row_def)
  with a v h show thesis by (intro that)
qed

lemma new_row_view:
  "m_common_name (row_to_cert (new_cert_row now ver (planned_meta ev c req p) k)) = rq_common_name req"
  "m_valid_days (row_to_cert (new_cert_row now ver (planned_meta ev c req p) k)) = pl_valid_days p"
  "m_revoked_at (row_to_cert (new_cert_row now ver (planned_meta ev c req p) k)) = None"
  "m_dns_list (row_to_cert (new_cert_row now ver (planned_meta ev c req p) k)) =
     split_list (join '';'' (pl_dns p))"
  "m_ip_list (row_to_cert (new_cert_row now ver (planned_meta ev c req p) k)) =
     split_list (join '';'' (pl_ips p))"
  by (simp_all add: new_cert_row_def planned_meta_def subject_meta.defs cert_meta.defs)

lemma validate_days_pos: "validate_days n = Inr () \<Longrightarrow> 1 \<le> n"
  by (auto simp: validate_days_def split: if_splits)

end
