(* ===== verification/Openssl_Live.thy ===== *)
theory Openssl_Live
  imports Openssl_Run
begin

text \<open>
  Issuing goes through: when openssl does what each command asks, the file operations of
  issuing a certificate reach their end. \<open>goes F D m G E\<close>: from a work directory that has
  the files \<open>F\<close> and no sub-directories but \<open>D\<close>, \<open>m\<close> succeeds and leaves the files \<open>G\<close> and
  no sub-directories but \<open>E\<close>.
\<close>

definition works :: "tools \<Rightarrow> bool" where
  "works t \<longleftrightarrow>
     (\<forall>h args fs. \<exists>r. t_run t h args fs = Some r \<and> tr_exit r = 0 \<and>
        (\<forall>f. fs f \<noteq> None \<or> out_file args = Some f \<longrightarrow> tr_files r f \<noteq> None)) \<and>
     (\<forall>es. is_ok (t_zip t es))"

definition at_files :: "string set \<Rightarrow> string set \<Rightarrow> workdir \<Rightarrow> bool" where
  "at_files F D w \<longleftrightarrow> (\<forall>f \<in> F. wd_files w f \<noteq> None) \<and> set (wd_dirs w) \<subseteq> D"

definition goes ::
  "string set \<Rightarrow> string set \<Rightarrow> 'a act \<Rightarrow> string set \<Rightarrow> string set \<Rightarrow> bool"
where
  "goes F D m G E \<longleftrightarrow> (\<forall>w. at_files F D w \<longrightarrow> (\<exists>a w'. m w = (Inr a, w') \<and> at_files G E w'))"

lemma goes_and_then:
  "goes F D m G E \<Longrightarrow> (\<And>a. goes G E (f a) H K) \<Longrightarrow> goes F D (and_then m f) H K"
  by (fastforce simp: goes_def and_then_def)

lemma goes_give: "goes F D (give a) F D"
  by (simp add: goes_def give_def)

lemma goes_done: "H \<subseteq> F \<Longrightarrow> D \<subseteq> E \<Longrightarrow> goes F D (give a) H E"
  by (auto simp: goes_def give_def at_files_def)

lemma goes_lift: "is_ok r \<Longrightarrow> goes F D (lift_res r) F D"
  by (auto simp: goes_def lift_res_def is_ok_iff)

lemma goes_write: "goes F D (write_file f s) (insert f F) D"
  by (auto simp: goes_def write_file_def at_files_def)

lemma goes_read: "f \<in> F \<Longrightarrow> goes F D (read_file f) F D"
  by (auto simp: goes_def read_file_def at_files_def split: option.splits)

lemma goes_create_dir: "n \<notin> D \<Longrightarrow> goes F D (create_dir n) F (insert n D)"
  by (auto simp: goes_def create_dir_def at_files_def)

lemma goes_create_dir_all: "goes F D (create_dir_all n) F (insert n D)"
  by (auto simp: goes_def create_dir_all_def at_files_def)

lemma goes_run_in:
  assumes "works t"
  shows "goes F D (run_in t args) (F \<union> set_option (out_file args)) D"
  unfolding goes_def
proof (intro allI impI)
  fix w assume w: "at_files F D w"
  obtain r where "t_run t (wd_calls w) args (wd_files w) = Some r"
    "\<forall>f. wd_files w f \<noteq> None \<or> out_file args = Some f \<longrightarrow> tr_files r f \<noteq> None"
    using assms unfolding works_def by blast
  with w show "\<exists>a w'. run_in t args w = (Inr a, w') \<and> at_files (F \<union> set_option (out_file args)) D w'"
    by (auto simp: run_in_def at_files_def)
qed

lemma run_in_exit:
  assumes "works t" and "run_in t args w = (Inr (code, out, err), w')"
  shows "code = 0"
proof -
  obtain r where "t_run t (wd_calls w) args (wd_files w) = Some r" "tr_exit r = 0"
    using assms(1) unfolding works_def by blast
  with assms(2) show ?thesis by (simp add: run_in_def)
qed

lemma goes_run_ok:
  assumes "works t"
  shows "goes F D (run_ok t args) (F \<union> set_option (out_file args)) D"
  unfolding goes_def
proof (intro allI impI)
  fix w assume "at_files F D w"
  with goes_run_in [OF assms, of F D args] obtain a w' where
    r: "run_in t args w = (Inr a, w')" "at_files (F \<union> set_option (out_file args)) D w'"
    by (auto simp: goes_def)
  obtain code out err where a: "a = (code, out, err)" by (cases a) auto
  have "code = 0" using run_in_exit [OF assms] r(1) a by blast
  then have "run_ok t args w = (Inr out, w')" by (simp add: run_ok_def and_then_def r a give_def)
  with r show "\<exists>a w'. run_ok t args w = (Inr a, w') \<and> at_files (F \<union> set_option (out_file args)) D w'"
    by blast
qed

lemma goes_write_pass_file:
  "LF \<notin> set pw \<Longrightarrow> CR \<notin> set pw \<Longrightarrow> goes F D (write_pass_file n pw) (insert n F) D"
  unfolding write_pass_file_def by (simp add: goes_and_then [OF goes_write goes_give])

lemma goes_weaken: "goes F D m G E \<Longrightarrow> H \<subseteq> G \<Longrightarrow> goes F D m H E"
  by (fastforce simp: goes_def at_files_def)

definition ca_files :: "string set" where
  "ca_files = {''ca-cert.pem'', ''ca-key.pem'', ''index.txt'', ''serial.txt'', ''crlnumber.txt''}"

lemma goes_export: "goes F D (export_ca_state ca) (ca_files \<union> F) D"
  unfolding export_ca_state_def
  by (rule goes_weaken) (rule goes_and_then goes_write | auto simp: ca_files_def)+

lemma goes_config: "goes F D (ca_config_file n url) (insert ''openssl-ca.conf'' F) D"
  using goes_write by (fastforce simp: goes_def ca_config_file_def)

text \<open>The key generator knows the algorithms of the validated key profiles.\<close>

lemma goes_generate_key:
  assumes "works t" and "genkey_args output options algorithm = Some args"
  shows "goes F D (generate_key t output algorithm options) (F \<union> set_option (out_file args)) D"
  unfolding generate_key_def assms(2)
  by (simp add: goes_and_then [OF goes_run_ok [OF assms(1)] goes_give])


text \<open>Steps of an operation, and its last step.\<close>

lemmas goes_steps =
  goes_and_then [OF goes_write] goes_and_then [OF goes_read] goes_and_then [OF goes_export]
  goes_and_then [OF goes_create_dir_all] goes_and_then [OF goes_create_dir]
  goes_and_then [OF goes_config]

definition cert_files :: "string set" where
  "cert_files = {''cert/cert.pem'', ''cert/cert.key'', ''cert/cert.csr'', ''cert/cert.p12'', ''cert/password.txt''}"

lemma goes_read_cert_files: "cert_files \<subseteq> F \<Longrightarrow> goes F D (read_cert_files b) F D"
  unfolding read_cert_files_def by (intro goes_steps goes_give) (simp_all add: cert_files_def)

lemma goes_create_bundle:
  assumes "works t" and "insert ''ca-cert.pem'' cert_files \<subseteq> F"
  shows "goes F D (create_bundle t) F D"
proof -
  have b: "is_ok (build_bundle t k c)" for k c
    using assms(1) by (simp add: works_def build_bundle_def)
  have c: "cert_files \<subseteq> F" "''ca-cert.pem'' \<in> F" using assms(2) by simp_all
  show ?thesis
    unfolding create_bundle_def
    by (intro goes_and_then [OF goes_read_cert_files [OF c(1)]] goes_and_then [OF goes_read [OF c(2)]]
        goes_lift b)
qed

lemma goes_read_secrets:
  assumes "works t" and "insert ''ca-cert.pem'' cert_files \<subseteq> F"
  shows "goes F D (read_cert_secrets t) F D"
proof -
  have "cert_files \<subseteq> F" using assms(2) by simp
  then show ?thesis
    unfolding read_cert_secrets_def
    by (intro goes_and_then [OF goes_create_bundle [OF assms]] goes_read_cert_files)
qed

lemma set_option_out:
  "d \<in> set supported_digests \<Longrightarrow> set_option (out_file (csr_args subject d)) = {''cert/cert.csr''}"
  "d \<in> set supported_digests \<Longrightarrow> set_option (out_file (sign_args days d)) = {''cert/cert.pem''}"
  "set_option (out_file (pkcs12_args out cert key passout)) = {out}"
  by (simp_all add: out_files)

lemma goes_create_cert_files:
  assumes w: "works t" and d: "normalize_digest digest = Inr d"
    and g: "genkey_args ''cert/cert.key'' options algorithm = Some args"
      "out_file args = Some ''cert/cert.key''"
    and pw: "LF \<notin> set pw" "CR \<notin> set pw"
  shows "goes {} {} (create_cert_files t ca subject days digest algorithm options dns_list ip_list pw
     crl_url crl_days) {} {''certs'', ''cert''}"
proof -
  have sup: "d \<in> set supported_digests" by (rule normalize_digest_supported [OF d])
  have l: "and_then (lift_res (Inr a)) f = f a" for a :: 'x and f :: "'x \<Rightarrow> 'y act"
    by (rule ext) (simp add: and_then_def lift_res_def)
  show ?thesis
    unfolding create_cert_files_def d l
    by (rule goes_steps goes_and_then [OF goes_generate_key [OF w g(1)]]
          goes_and_then [OF goes_run_ok [OF w]] goes_and_then [OF goes_write_pass_file [OF pw]]
          goes_and_then [OF goes_read_secrets [OF w]] goes_done
        | simp add: ca_files_def cert_files_def g(2) set_option_out sup)+
qed

text \<open>A renewal has its signing request, rebuilt or stored.\<close>

lemma goes_renewal_csr:
  assumes w: "works t" and d: "d \<in> set supported_digests"
    and g: "\<And>a. goes (insert ''cert/cert.csr'' F) D (g a) H E"
  shows "goes F D (and_then (rebuild_csr t rn d) (\<lambda>rebuilt.
    and_then (if rebuilt then give () else write_file ''cert/cert.csr'' csr) g)) H E"
proof (cases "rn_subject rn")
  case None
  have "goes F D (and_then (write_file ''cert/cert.csr'' csr) g) H E"
    by (rule goes_and_then [OF goes_write g])
  then show ?thesis using None by (simp add: rebuild_csr_def goes_def and_then_def give_def)
next
  case (Some subject)
  show ?thesis unfolding goes_def
  proof (intro allI impI)
    fix w assume a: "at_files F D w"
    let ?w = "w\<lparr>wd_files := (wd_files w)(''openssl-cert.conf'' := Some (cert_config (rn_dns_list rn) (rn_ip_list rn)))\<rparr>"
    have "at_files F D ?w" using a by (simp add: at_files_def)
    moreover have "goes F D (run_in t (csr_args subject d)) (insert ''cert/cert.csr'' F) D"
      using goes_run_in [OF w, of F D "csr_args subject d"] by (simp add: set_option_out(1) [OF d])
    ultimately obtain o3 w' where o3: "run_in t (csr_args subject d) ?w = (Inr o3, w')"
      "at_files (insert ''cert/cert.csr'' F) D w'"
      unfolding goes_def by blast
    obtain code out err where "o3 = (code, out, err)" by (cases o3) auto
    with o3 have r: "run_in t (csr_args subject d) ?w = (Inr (code, out, err), w')"
      "at_files (insert ''cert/cert.csr'' F) D w'" by simp_all
    have "code = 0" by (rule run_in_exit [OF w r(1)])
    then have "rebuild_csr t rn d w = (Inr True, w')"
      using r Some by (simp add: rebuild_csr_def and_then_def write_file_def give_def)
    then show "\<exists>a w'. and_then (rebuild_csr t rn d) (\<lambda>rebuilt.
        and_then (if rebuilt then give () else write_file ''cert/cert.csr'' csr) g) w = (Inr a, w') \<and>
        at_files H E w'"
      using g [of "()"] r(2) by (simp add: and_then_def give_def goes_def)
  qed
qed

lemma goes_renew_cert_files:
  assumes w: "works t" and d: "normalize_digest digest = Inr d"
    and pw: "LF \<notin> set (k_password k)" "CR \<notin> set (k_password k)"
  shows "goes {} {} (renew_cert_files t ca k rn days digest crl_url crl_days) {''serial.txt''}
    {''certs'', ''cert''}"
proof -
  have sup: "d \<in> set supported_digests" by (rule normalize_digest_supported [OF d])
  have l: "and_then (lift_res (Inr a)) f = f a" for a :: 'x and f :: "'x \<Rightarrow> 'y act"
    by (rule ext) (simp add: and_then_def lift_res_def)
  show ?thesis
    unfolding renew_cert_files_def d l
    by (rule goes_steps goes_renewal_csr [OF w]
          goes_and_then [OF goes_run_ok [OF w]] goes_and_then [OF goes_write_pass_file [OF pw]]
          goes_and_then [OF goes_create_bundle [OF w]] goes_done
        | simp add: ca_files_def cert_files_def set_option_out sup)+
qed

end
