(* ===== verification/Signing_Live.thy ===== *)
theory Signing_Live
  imports Signing_Facts Openssl_Live
begin

text \<open>Issuing succeeds: a request the plan accepts, on a CA nobody holds.\<close>

lemma key_spec_generates:
  assumes "key_spec_of p = Inr k"
  shows "\<exists>args. genkey_args output (ks_attributes k) (ks_algorithm k) = Some args"
proof -
  have "trim ''rsa'' = ''rsa''" "trim ''ecdsa'' = ''ecdsa''" by code_simp+
  moreover have "to_ascii_lowercase ''rsa'' = ''rsa''" "to_ascii_lowercase ''ecdsa'' = ''ecdsa''"
    by code_simp+
  ultimately show ?thesis
    using key_spec_profile(2) [OF assms] by (auto simp: genkey_args_def Let_def)
qed

lemma verify_after_acquire: "acquire_ca_lock now c p ttl d = Inr d' \<Longrightarrow> db_holds d' c p"
  by (auto simp: acquire_Inr db_holds_def owns_lock_def)

lemma create_cert_goes:
  assumes ok: "schema_ok d" and p: "plan_cert sv ev c req d = Inr p"
    and w: "works (sv_tools sv)" and dir: "ev_workdir ev 1 = Inr path"
    and free: "\<forall>l \<in> set (ca_locks d). l_ca_id l = c \<longrightarrow> l_expires_at l < ev_clock ev 1"
    and id: "\<not> cert_exists (ev_id ev) d"
    and pw: "LF \<notin> set (password_of ev (rq_password req))" "CR \<notin> set (password_of ev (rq_password req))"
  shows "\<exists>v d'. create_cert sv ev c req d = (Inr v, d')"
proof (rule plan_cert_Inr [OF p])
  let ?m = "planned_meta ev c req p"
  fix ca
  assume ca: "get_ca c d = Inr ca" and dig: "normalize_digest (rq_digest_algorithm req) = Inr (pl_digest p)"
    and key: "key_spec_of (rq_key_profile req) = Inr (pl_key p)"
  obtain r where r: "r \<in> set (cas d)" "active_ca c r" using ca ok by (auto simp: get_ca_Inr)
  have "ca_exists c d" using r by (auto simp: ca_exists_iff active_ca_def)
  then obtain d1 where a: "acquire_ca_lock (ev_clock ev 1) c (ev_owner ev) 120000 d = Inr d1"
    using free by (auto simp: acquire_Inr)
  note keep = acquire_keeps [OF a] and ok1 = lock_taken_ok [OF a ok]
  have s: "get_ca_secrets c d1 = Inr (car_secrets r)"
    using r keep by (auto simp: get_ca_secrets_Inr [OF ok1])
  obtain args where args: "genkey_args ''cert/cert.key'' (ks_attributes (pl_key p)) (ks_algorithm (pl_key p)) = Some args"
    using key_spec_generates [OF key] by blast
  have dd: "normalize_digest (pl_digest p) = Inr (pl_digest p)"
    by (rule normalize_digest_again [OF dig])
  have "at_files {} {} (fresh_workdir path)" by (simp add: at_files_def fresh_workdir_def)
  with goes_create_cert_files [OF w dd args out_files(9) [OF args] pw]
  obtain x w' where "create_cert_files (sv_tools sv) (car_secrets r) (pl_subject p) (pl_valid_days p)
         (pl_digest p) (ks_algorithm (pl_key p)) (ks_attributes (pl_key p)) (pl_dns p)
         (pl_ips p) (password_of ev (rq_password req)) (pl_crl_url p) (sv_crl_days sv)
         (fresh_workdir path) = (Inr x, w')"
    unfolding goes_def by blast
  moreover obtain k idx ser where x: "x = (k, idx, ser)" by (cases x) auto
  ultimately have f: "in_workdir ev 1 (create_cert_files (sv_tools sv) (car_secrets r) (pl_subject p)
         (pl_valid_days p) (pl_digest p) (ks_algorithm (pl_key p)) (ks_attributes (pl_key p)) (pl_dns p)
         (pl_ips p) (password_of ev (rq_password req)) (pl_crl_url p) (sv_crl_days sv)) = Inr (k, idx, ser)"
    using dir by (auto simp: in_workdir_Inr)
  have "db_holds d1 c (ev_owner ev)" by (rule verify_after_acquire [OF a])
  moreover have "ev_id ev \<notin> cer_id ` set (certs d1)"
    using id keep by (auto simp: cert_exists_def table_simps)
  ultimately obtain d2 where i: "insert_cert_with_state (ev_clock ev 3) ?m k (Some (idx, ser)) (ev_owner ev) d1 = Inr d2"
    using r keep by (auto simp: insert_cert_Inr)
  then obtain v where "get_cert c (ev_id ev) d2 = Inr v"
    using issuing.answers [of _ "ev_clock ev 3" ?m "ev_owner ev" "(k, idx, ser)"] ok1 by auto
  with p a s f i have "create_cert sv ev c req d = (Inr v, d2)"
    by (simp add: create_cert_def checked_def issue_cert_def with_ca_lock_def commit_then_def)
  then show ?thesis by blast
qed

lemma digests_fixed: "list_all (\<lambda>d. normalize_digest d = Inr d) supported_digests"
  by code_simp

lemma renew_cert_goes:
  assumes ok: "schema_ok d" and p: "plan_renewal sv ev c i days d = Inr p"
    and w: "works (sv_tools sv)" and dir: "ev_workdir ev 2 = Inr path"
    and free: "\<forall>l \<in> set (ca_locks d). l_ca_id l = c \<longrightarrow> l_expires_at l < ev_clock ev 2"
    and k: "get_cert_secrets c i d = Inr k" "LF \<notin> set (k_password k)" "CR \<notin> set (k_password k)"
    and dig: "rp_digest p \<in> set supported_digests"
  shows "\<exists>v d'. renew_cert sv ev c i days d = (Inr v, d')"
proof (rule plan_renewal_Inr [OF p])
  fix cert ca
  assume cert: "get_cert c i d = Inr cert" "m_revoked_at cert = None" and ca: "get_ca c d = Inr ca"
  obtain r where r: "r \<in> set (cas d)" "active_ca c r" using ca ok by (auto simp: get_ca_Inr)
  obtain cr where cr: "cr \<in> set (certs d)" "renewable_cert c i cr"
    using cert by (auto simp: get_cert_Inr [OF ok] renewable_cert_def)
  have "ca_exists c d" using r by (auto simp: ca_exists_iff active_ca_def)
  then obtain d1 where a: "acquire_ca_lock (ev_clock ev 2) c (ev_owner ev) 120000 d = Inr d1"
    using free by (auto simp: acquire_Inr)
  note keep = acquire_keeps [OF a] and ok1 = lock_taken_ok [OF a ok]
  have s: "get_ca_secrets c d1 = Inr (car_secrets r)"
    using r keep by (auto simp: get_ca_secrets_Inr [OF ok1])
  have k1: "get_cert_secrets c i d1 = Inr k"
    using k(1) keep by (auto simp: get_cert_secrets_Inr [OF ok] get_cert_secrets_Inr [OF ok1] ca_live_def)
  have "normalize_digest (rp_digest p) = Inr (rp_digest p)"
    using dig digests_fixed by (simp add: list_all_iff)
  note g = goes_renew_cert_files [OF w this k(2,3)]
  have "goes {} {} (renew_work sv p (car_secrets r) k) {} {''certs'', ''cert''}"
    unfolding renew_work_def case_prod_unfold
    by (rule goes_and_then [OF g]) (rule goes_steps goes_done | simp)+
  moreover have "at_files {} {} (fresh_workdir path)" by (simp add: at_files_def fresh_workdir_def)
  ultimately obtain x w' where "renew_work sv p (car_secrets r) k (fresh_workdir path) = (Inr x, w')"
    unfolding goes_def by blast
  moreover obtain pem p12 bun idx ser where x: "x = (pem, p12, bun, idx, ser)" by (cases x) auto
  ultimately have f: "in_workdir ev 2 (renew_work sv p (car_secrets r) k) = Inr (pem, p12, bun, idx, ser)"
    using dir by (auto simp: in_workdir_Inr)
  have "db_holds d1 c (ev_owner ev)" by (rule verify_after_acquire [OF a])
  then obtain d2 where u: "update_cert_with_state (ev_clock ev 3) c i pem p12 bun (ev_clock ev 1)
      (rp_days p) (idx, ser) (ev_owner ev) d1 = Inr d2"
    using r cr keep by (auto simp: update_cert_Inr)
  then obtain v where "get_cert c i d2 = Inr v"
    using renewing.answers [of _ "ev_clock ev 3" c i "ev_clock ev 1" "rp_days p" "ev_owner ev"
        "(pem, p12, bun, idx, ser)"] ok1 by auto
  with p a s k1 f u have "renew_cert sv ev c i days d = (Inr v, d2)"
    by (simp add: renew_cert_def checked_def with_ca_lock_def commit_then_def)
  then show ?thesis by blast
qed

end
