(* ===== verification/Signing_Samples.thy ===== *)
theory Signing_Samples
  imports Signing_Live Samples
begin

text \<open>
  A small openssl on which the signing operations are evaluated: it writes the files the
  documented commands write, keeps an index of two certificates of one subject, and prints
  fixed dates, keys and serial numbers.
\<close>

definition plain_serial :: "string \<Rightarrow> string" where
  "plain_serial pem = (if pem = ''renewed'' then ''02'' else ''01'')"

definition toy_serial :: "string \<Rightarrow> string" where
  "toy_serial pem = ''serial='' @ plain_serial pem @ [LF]"

definition toy_pub :: "string \<Rightarrow> string" where
  "toy_pub pem = ''PUBLIC KEY'' @ [LF]"

definition index_line :: "string list \<Rightarrow> string" where
  "index_line fs = join [TAB] fs @ [LF]"

definition toy_index :: "string \<Rightarrow> string" where
  "toy_index serial =
     index_line [''V'', ''300101000000Z'', '''', ''0A'', ''unknown'', ''/CN=web''] @
     index_line [''R'', ''300101000000Z'', ''250101000000Z'', serial, ''unknown'', ''/CN=web'']"

definition toy_file :: "string list \<Rightarrow> (string \<Rightarrow> string option) \<Rightarrow> string \<Rightarrow> string" where
  "toy_file args fs f =
     (if f = ''index.txt''
      then (if ''-revoke'' \<in> set args then toy_index (plain_serial (or_default (fs ''revoke.pem'')))
            else index_line [''V'', ''300101000000Z'', '''', ''0A'', ''unknown'', ''/CN=web''])
      else if f = ''serial.txt'' then ''0B''
      else if f = ''ca-cert-renewed.pem'' then ''renewed''
      else f)"

definition toy_dates :: string where
  "toy_dates = ''subject=CN=Root'' @ [LF] @ ''notBefore=N'' @ [LF] @ ''notAfter=A'' @ [LF]"

definition toy_out :: "string list \<Rightarrow> (string \<Rightarrow> string option) \<Rightarrow> string" where
  "toy_out args fs =
     (let f = (if 3 \<le> length args then or_default (fs (args ! 2)) else [])
      in if args = serial_args (args ! 2) then toy_serial f
         else if args = pubkey_args (args ! 2) \<or> args = keypub_args (args ! 2) then toy_pub f
         else if ''-dates'' \<in> set args then toy_dates
         else if ''-subject_hash'' \<in> set args then ''h'' @ [LF] @ ''h'' @ [LF]
         else if ''-nameopt'' \<in> set args then ''subject=CN=web'' @ [LF]
         else [])"

definition toy_written :: "string list \<Rightarrow> string list" where
  "toy_written args =
     (case out_file args of None \<Rightarrow> [] | Some f \<Rightarrow> [f]) @
     (if first_arg args \<noteq> ''ca'' then []
      else if ''-gencrl'' \<in> set args then [''crlnumber.txt'']
      else if ''-revoke'' \<in> set args then [''index.txt''] else [''index.txt'', ''serial.txt''])"

definition toy_after :: "string list \<Rightarrow> (string \<Rightarrow> string option) \<Rightarrow> string \<Rightarrow> string option" where
  "toy_after args fs = fold (\<lambda>f m. m(f := Some (toy_file args fs f))) (toy_written args) fs"

definition toy_run :: "string list list \<Rightarrow> string list \<Rightarrow> (string \<Rightarrow> string option) \<Rightarrow> tool_result option" where
  "toy_run h args fs =
     Some \<lparr>tr_exit = 0, tr_stdout = toy_out args fs, tr_stderr = [],
       tr_files = toy_after args fs\<rparr>"

definition toy_tools :: tools where
  "toy_tools = \<lparr>t_run = toy_run, t_zip = (\<lambda>es. Inr (concat (map snd es))),
     t_store = (\<lambda>pem alias_name pw. Inr ''store'')\<rparr>"

definition toy_parse :: "string \<Rightarrow> int option" where
  "toy_parse s = (if s = ''A'' then Some 40000000000 else if s = ''N'' then Some 0 else None)"

definition toy_service :: service where
  "toy_service = \<lparr>sv_tools = toy_tools, sv_base_url = Some ''https://ca.example/'',
     sv_crl_enabled = True, sv_crl_days = 30, sv_parse_date = toy_parse\<rparr>"

definition toy_env :: "string \<Rightarrow> string \<Rightarrow> env" where
  "toy_env owner new_id = \<lparr>ev_workdir = (\<lambda>n. Inr (''/w'' @ show_nat n)), ev_clock = (\<lambda>n. 1000 + int n),
     ev_owner = owner, ev_id = new_id, ev_password = ''secret'', ev_random = replicate 16 7\<rparr>"

definition toy_request :: "string \<Rightarrow> create_cert_request" where
  "toy_request cn =
     \<lparr>rq_common_name = cn, rq_country_code = ''SG'', rq_state = '''', rq_city = '''',
      rq_organization = ''Acme'', rq_organization_unit = '''', rq_valid_days = 500,
      rq_digest_algorithm = ''sha256'', rq_key_profile = ''rsa:2048'',
      rq_password = None, rq_dns_list = ['' a.example '', ''WEB.example''], rq_ip_list = [''10.0.0.1'']\<rparr>"

lemma fold_writes: "fold (\<lambda>f m. m(f := Some (g f))) xs fs f = (if f \<in> set xs then Some (g f) else fs f)"
  by (induction xs arbitrary: fs) auto

lemma toy_written_allowed: "f \<in> set (toy_written args) \<Longrightarrow> may_write args f"
  by (auto simp: toy_written_def may_write_def database_file_def starts_with_def
      split: option.splits if_splits)

lemma toy_frame: "frame_ok toy_tools"
  using toy_written_allowed
  by (auto simp: frame_ok_def toy_tools_def toy_run_def toy_after_def fold_writes)

lemma toy_works: "works toy_tools"
  by (auto simp: works_def toy_tools_def toy_run_def toy_after_def fold_writes toy_written_def)

lemma sample_db_ok: "schema_ok sample_db"
  by code_simp

text \<open>The sample request is granted.\<close>

abbreviation toy_create :: "certificate result \<times> db" where
  "toy_create \<equiv> create_cert toy_service (toy_env ''p'' ''e9'') ''c1'' (toy_request ''web.example'') sample_db"

lemma toy_simps [simp]:
  "sv_tools toy_service = toy_tools" "ev_owner (toy_env p i) = p" "ev_id (toy_env p i) = i"
  "ev_workdir (toy_env p i) n = Inr (''/w'' @ show_nat n)" "ev_clock (toy_env p i) n = 1000 + int n"
  "ev_password (toy_env p i) = ''secret''" "sv_crl_enabled toy_service"
  "rq_common_name (toy_request cn) = cn" "rq_password (toy_request cn) = None"
  by (simp_all add: toy_service_def toy_env_def toy_request_def)

lemma toy_planned:
  "\<exists>p. plan_cert toy_service (toy_env ''p'' ''e9'') ''c1'' (toy_request ''web.example'') sample_db = Inr p"
proof -
  have "is_ok (plan_cert toy_service (toy_env ''p'' ''e9'') ''c1'' (toy_request ''web.example'') sample_db)"
    by code_simp
  then show ?thesis by (simp add: is_ok_iff)
qed

lemma no_sample_locks [simp]: "ca_locks sample_db = []"
  by (simp add: sample_db_def)

lemma toy_created: "\<exists>v d'. toy_create = (Inr v, d')"
proof -
  obtain p where "plan_cert toy_service (toy_env ''p'' ''e9'') ''c1'' (toy_request ''web.example'') sample_db = Inr p"
    using toy_planned by blast
  moreover have "\<not> cert_exists ''e9'' sample_db" by code_simp
  moreover have "LF \<notin> set ''secret''" "CR \<notin> set ''secret''" by code_simp+
  ultimately show ?thesis
    by (intro create_cert_goes [OF sample_db_ok]) (auto simp: toy_works password_of_def)
qed

definition toy_info :: "(string \<times> string) list" where
  "toy_info = key_value_lines (CHR ''='') (from_utf8_lossy toy_dates)"

lemma toy_inspected [simp]: "in_workdir (toy_env p i) n (inspect_cert toy_tools pem) = Inr toy_info"
  by (simp add: in_workdir_def inspect_cert_def and_then_def write_file_def run_ok_def run_in_def
      toy_tools_def toy_run_def give_def toy_out_def serial_args_def pubkey_args_def keypub_args_def
      toy_info_def)

end
