(* ===== verification/Claims_Signing.thy ===== *)
theory Claims_Signing
  imports Signing_Samples
begin

text \<open>
  The properties of the signing operations: what they leave behind when they fail, what
  they have done when they succeed, and what openssl is told.
\<close>

section \<open>Failure and success\<close>

text \<open>
  C19. A signing operation that fails, at whatever point (validation, the signing lock,
  any openssl command, the transaction), leaves every table as it was, and the lock of the
  CA is not left held by its owner.
\<close>

theorem failed_signing_harmless:
  assumes "schema_ok d" and "\<not> db_holds d c (ev_owner ev)"
    and "(Inl e, d') \<in> {create_cert sv ev c req d, import_cert_with sv ev c ci ireq csr d,
      renew_cert sv ev c i days d, revoke_cert sv ev c i reason d}"
  shows "same_data d d' \<and> \<not> db_holds d' c (ev_owner ev)"
proof -
  from assms(3) consider "create_cert sv ev c req d = (Inl e, d')"
    | "import_cert_with sv ev c ci ireq csr d = (Inl e, d')"
    | "renew_cert sv ev c i days d = (Inl e, d')" | "revoke_cert sv ev c i reason d = (Inl e, d')"
    by auto
  then show ?thesis
    using create_cert_failed [OF assms(1,2)] import_cert_failed [OF assms(1,2)]
      renew_cert_failed [OF assms(1,2)] revoke_cert_failed [OF assms(1,2)] by cases blast+
qed

definition broken_service :: service where
  "broken_service = toy_service\<lparr>sv_tools := toy_tools\<lparr>t_run := (\<lambda>h args fs. None)\<rparr>\<rparr>"

definition failed_revocation :: "certificate result \<times> db" where
  "failed_revocation = revoke_cert broken_service (toy_env ''p'' ''e9'') ''c1'' ''e1'' ''superseded'' sample_db"

lemma failed_signing_harmless_witness:
  "same_data sample_db (snd failed_revocation) \<and> \<not> db_holds (snd failed_revocation) ''c1'' ''p''"
proof -
  have o: "ev_owner (toy_env ''p'' ''e9'') = ''p''" by (simp add: toy_env_def)
  have "schema_ok sample_db" "\<not> db_holds sample_db ''c1'' ''p''" by code_simp+
  moreover have "\<not> is_ok (fst failed_revocation)" by code_simp
  then obtain e where "fst failed_revocation = Inl e" by (cases "fst failed_revocation") auto
  then have "(Inl e, snd failed_revocation) = failed_revocation" by (metis prod.collapse)
  ultimately show ?thesis
    using failed_signing_harmless [of sample_db "''c1''" "toy_env ''p'' ''e9''" e "snd failed_revocation"
      broken_service "toy_request ''w''" None undefined None "''e1''" 1 "''superseded''"]
    unfolding failed_revocation_def o by simp
qed

text \<open>
  C20. A certificate that was created is in the database under its new id, live and with
  the requested name; it is valid for at least a day and no longer than was asked for. Its
  DNS names are valid, no two are the same up to case, every requested one is among them up
  to case, and there is no other but the common name. Its addresses are the requested ones
  in order, in canonical form (an address that was asked for twice is there twice).
\<close>

theorem created_cert_as_requested:
  assumes "schema_ok d" and "create_cert sv ev c req d = (Inr v, d')"
  shows "get_cert c (ev_id ev) d' = Inr v \<and> m_common_name v = rq_common_name req \<and>
    m_revoked_at v = None \<and> 1 \<le> m_valid_days v \<and> m_valid_days v \<le> rq_valid_days req \<and>
    list_all is_valid_dns_name (m_dns_list v) \<and> distinct_names (m_dns_list v) \<and>
    (\<forall>n \<in> set (rq_dns_list req). trim n = [] \<or> (\<exists>k \<in> set (m_dns_list v). eq_ignore_ascii_case k (trim n))) \<and>
    set (m_dns_list v) \<subseteq> insert (rq_common_name req) (trim ` set (rq_dns_list req)) \<and>
    san_ips (rq_ip_list req) = Inr (m_ip_list v) \<and> san_ips (m_ip_list v) = Inr (m_ip_list v)"
proof (rule created_cert [OF assms])
  fix p ca k idx ser
  assume p: "plan_cert sv ev c req d = Inr p" and v: "get_cert c (ev_id ev) d' = Inr v"
    "v = row_to_cert (new_cert_row (ev_clock ev 3) 1 (planned_meta ev c req p) k)"
  show ?thesis
  proof (rule plan_cert_Inr [OF p])
    fix ca
    assume dns: "san_dns (rq_common_name req) (rq_dns_list req) = Inr (pl_dns p)"
      and ips: "san_ips (rq_ip_list req) = Inr (pl_ips p)"
      and days: "validate_days (rq_valid_days req) = Inr ()"
        "clamp_to_ca_validity sv ev (v_cert_pem ca) (rq_valid_days req) = Inr (pl_valid_days p)"
    note kept = san_lists_kept(1,2) [OF dns ips]
    have same: "m_common_name v = rq_common_name req" "m_valid_days v = pl_valid_days p" "m_revoked_at v = None"
      "m_dns_list v = pl_dns p" "m_ip_list v = pl_ips p"
      by (simp_all only: v(2) new_row_view kept)
    show ?thesis
      unfolding same
      using v(1) ips san_dns_valid [OF dns] san_dns_distinct [OF dns] san_dns_covers(1,3) [OF dns] san_ips_again [OF ips]
        clamp_to_ca_validity_Inr(1,2) [OF days(2) validate_days_pos [OF days(1)]] by blast
  qed
qed

lemma created_cert_as_requested_witness:
  "\<exists>v d'. toy_create = (Inr v, d') \<and> get_cert ''c1'' ''e9'' d' = Inr v \<and>
     m_common_name v = ''web.example'' \<and> san_ips (m_ip_list v) = Inr (m_ip_list v)"
proof -
  obtain v d' where c: "toy_create = (Inr v, d')" using toy_created by blast
  from created_cert_as_requested [OF sample_db_ok c] c show ?thesis by simp
qed

text \<open>
  C21. The bundle and the password of a created certificate are stored as they belong
  together: the stored bundle is the zip of exactly the stored files and the certificate of
  its CA, its password file the password that was asked for (or the generated one), and
  what openssl left in its index and serial files is the new signing state of the CA.
\<close>

theorem created_cert_consistent:
  assumes "schema_ok d" and "frame_ok (sv_tools sv)" and "create_cert sv ev c req d = (Inr v, d')"
  shows "\<exists>ca k s (p :: cert_plan) w w'. get_ca_secrets c d = Inr ca \<and> get_cert_secrets c (ev_id ev) d' = Inr k \<and>
    get_ca_secrets c d' = Inr s \<and> k_password k = password_of ev (rq_password req) \<and>
    build_bundle (sv_tools sv) k (s_cert_pem ca) = Inr (k_bundle_zip k) \<and>
    create_cert_files (sv_tools sv) ca (pl_subject p) (pl_valid_days p) (pl_digest p)
      (ks_algorithm (pl_key p)) (ks_attributes (pl_key p)) (pl_dns p) (pl_ips p) (k_password k)
      (pl_crl_url p) (sv_crl_days sv) w = (Inr (k, s_index_txt s, s_serial_txt s), w') \<and>
    wd_files w' ''index.txt'' = Some (s_index_txt s) \<and>
    wd_files w' ''serial.txt'' = Some (s_serial_txt s)"
proof (rule created_cert [OF assms(1,3)])
  fix p :: cert_plan and ca k idx ser
  assume ca: "get_ca_secrets c d = Inr ca" and k: "get_cert_secrets c (ev_id ev) d' = Inr k"
    and s: "\<exists>s. get_ca_secrets c d' = Inr s \<and> s_index_txt s = idx \<and> s_serial_txt s = ser"
    and f: "in_workdir ev 1 (create_cert_files (sv_tools sv) ca (pl_subject p) (pl_valid_days p)
       (pl_digest p) (ks_algorithm (pl_key p)) (ks_attributes (pl_key p)) (pl_dns p)
       (pl_ips p) (password_of ev (rq_password req)) (pl_crl_url p) (sv_crl_days sv)) = Inr (k, idx, ser)"
  from f obtain path w' where run: "create_cert_files (sv_tools sv) ca (pl_subject p) (pl_valid_days p)
       (pl_digest p) (ks_algorithm (pl_key p)) (ks_attributes (pl_key p)) (pl_dns p)
       (pl_ips p) (password_of ev (rq_password req)) (pl_crl_url p) (sv_crl_days sv)
       (fresh_workdir path) = (Inr (k, idx, ser), w')"
    unfolding in_workdir_Inr by blast
  note stored = create_cert_files_stored [OF assms(2) run]
  obtain s where s: "get_ca_secrets c d' = Inr s" and e: "idx = s_index_txt s" "ser = s_serial_txt s"
    using s by blast
  show ?thesis using ca k s stored run [folded stored(1)] unfolding e by blast
qed

lemma created_cert_consistent_witness:
  "\<exists>ca k d'. get_ca_secrets ''c1'' sample_db = Inr ca \<and> get_cert_secrets ''c1'' ''e9'' d' = Inr k \<and>
     k_password k = ''secret'' \<and> build_bundle toy_tools k (s_cert_pem ca) = Inr (k_bundle_zip k)"
proof -
  obtain v d' where c: "toy_create = (Inr v, d')" using toy_created by blast
  have "password_of (toy_env ''p'' ''e9'') None = ''secret''" by (simp add: password_of_def)
  with created_cert_consistent [OF sample_db_ok _ c] toy_frame show ?thesis by auto
qed

text \<open>
  C22. A granted request always goes through: if the checks before the lock accept a
  request, nobody holds an unexpired lock on the CA, a work directory can be made and
  openssl does what it is told, then the certificate is created.
\<close>

theorem accepted_request_granted:
  assumes "schema_ok d" and "plan_cert sv ev c req d = Inr p" and "works (sv_tools sv)"
    and "ev_workdir ev 1 = Inr path"
    and "\<forall>l \<in> set (ca_locks d). l_ca_id l = c \<longrightarrow> l_expires_at l < ev_clock ev 1"
    and "\<not> cert_exists (ev_id ev) d" and "\<not> has_control (password_of ev (rq_password req))"
  shows "\<exists>v d'. create_cert sv ev c req d = (Inr v, d')"
proof -
  have "LF \<notin> set (password_of ev (rq_password req))" "CR \<notin> set (password_of ev (rq_password req))"
    using no_control_newline [OF assms(7)] by (force simp: LF_def CR_def byte_def)+
  with assms(1-6) show ?thesis by (rule create_cert_goes)
qed

lemma accepted_request_granted_witness: "\<exists>v d'. toy_create = (Inr v, d')"
proof -
  obtain p where "plan_cert toy_service (toy_env ''p'' ''e9'') ''c1'' (toy_request ''web.example'') sample_db = Inr p"
    using toy_planned by blast
  moreover have "\<not> cert_exists ''e9'' sample_db" "\<not> has_control ''secret''" by code_simp+
  ultimately show ?thesis
    by (intro accepted_request_granted [OF sample_db_ok, where path = "''/w'' @ show_nat 1"])
      (simp_all add: toy_works password_of_def)
qed

text \<open>
  C23. No certificate outlives its CA: when openssl prints an end of validity for the CA
  certificate that can be read as a date, the days granted to a new certificate, counted
  from the moment they were computed, end no later.
\<close>

theorem created_cert_within_ca:
  assumes "schema_ok d" and "create_cert sv ev c req d = (Inr v, d')" and "get_ca c d = Inr ca"
    and "in_workdir ev 0 (inspect_cert (sv_tools sv) (v_cert_pem ca)) = Inr info"
    and "not_after sv info = Some t" and "in_i64 (t - ev_clock ev 0)"
  shows "ev_clock ev 0 + m_valid_days v * day_ms \<le> t"
proof (rule created_cert [OF assms(1,2)])
  fix p ca' k idx ser
  assume p: "plan_cert sv ev c req d = Inr p"
    and v: "v = row_to_cert (new_cert_row (ev_clock ev 3) 1 (planned_meta ev c req p) k)"
  show ?thesis
  proof (rule plan_cert_Inr [OF p])
    fix ca'
    assume "get_ca c d = Inr ca'" and days: "validate_days (rq_valid_days req) = Inr ()"
      "clamp_to_ca_validity sv ev (v_cert_pem ca') (rq_valid_days req) = Inr (pl_valid_days p)"
    with assms(3) have "ca' = ca" by simp
    with days have "ev_clock ev 0 + pl_valid_days p * day_ms \<le> t"
      using assms(4-6) clamp_to_ca_validity_Inr(3) validate_days_pos by blast
    then show ?thesis by (simp only: v new_row_view)
  qed
qed

lemma created_cert_within_ca_witness:
  "\<exists>v d'. toy_create = (Inr v, d') \<and> 1000 + m_valid_days v * day_ms \<le> 40000000000"
proof -
  obtain v d' where c: "toy_create = (Inr v, d')" using toy_created by blast
  have "is_ok (get_ca ''c1'' sample_db)" by code_simp
  then obtain ca where ca: "get_ca ''c1'' sample_db = Inr ca" by (auto simp: is_ok_iff)
  moreover have "not_after toy_service toy_info = Some 40000000000" by code_simp
  moreover have "in_i64 (40000000000 - 1000)" by code_simp
  ultimately show ?thesis
    using created_cert_within_ca [OF sample_db_ok c, of ca toy_info 40000000000] toy_inspected c by simp
qed

end
