(* ===== verification/Ca_Service.thy ===== *)
theory Ca_Service
  imports Signing Backup_File
begin

text \<open>
  The operations of \<open>src/src/service.rs\<close> on certificate authorities: creation, import,
  renewal, the truststore, downloads, and the repair of metadata that older versions made
  up. \<open>env\<close> numbers the work directories and clock readings in the order they are drawn.
\<close>

section \<open>Operations that read and write the database\<close>

type_synonym 'a db_act = "db \<Rightarrow> 'a result \<times> db"

definition db_then :: "'a db_act \<Rightarrow> ('a \<Rightarrow> 'b db_act) \<Rightarrow> 'b db_act" where
  "db_then m f d = (case m d of (Inl e, d') \<Rightarrow> (Inl e, d') | (Inr a, d') \<Rightarrow> f a d')"

definition db_read :: "(db \<Rightarrow> 'a result) \<Rightarrow> 'a db_act" where
  "db_read f d = (f d, d)"

definition db_write :: "(db \<Rightarrow> db result) \<Rightarrow> unit db_act" where
  "db_write f d = (case f d of Inl e \<Rightarrow> (Inl e, d) | Inr d' \<Rightarrow> (Inr (), d'))"

definition db_give :: "'a \<Rightarrow> 'a db_act" where
  "db_give a d = (Inr a, d)"

section \<open>Truststore\<close>

definition truststore_password :: string where "truststore_password = ''changeit''"

definition build_truststore :: "service \<Rightarrow> env \<Rightarrow> nat \<Rightarrow> string \<Rightarrow> string \<Rightarrow> string db_act" where
  "build_truststore sv ev n ca_id cert_pem =
     db_then (db_read (\<lambda>_. in_workdir ev n
       (truststore_pkcs12 (sv_tools sv) cert_pem (''minica-'' @ ca_id) truststore_password))) (\<lambda>ts.
     db_then (db_write (\<lambda>d. Inr (snd (set_ca_truststore ca_id cert_pem ts d)))) (\<lambda>_.
     db_give ts))"

definition truststore :: "service \<Rightarrow> env \<Rightarrow> string \<Rightarrow> string \<Rightarrow> string db_act" where
  "truststore sv ev ca_id cert_pem =
     db_then (db_read (get_ca_truststore ca_id)) (\<lambda>stored.
     if stored \<noteq> [] then db_give stored else build_truststore sv ev 0 ca_id cert_pem)"

text \<open>A failure is only logged.\<close>

definition prebuild_truststore :: "service \<Rightarrow> env \<Rightarrow> nat \<Rightarrow> string \<Rightarrow> string \<Rightarrow> unit db_act" where
  "prebuild_truststore sv ev n ca_id cert_pem d = (Inr (), snd (build_truststore sv ev n ca_id cert_pem d))"

section \<open>Reading CAs\<close>

definition with_ca_crl_url :: "service \<Rightarrow> certificate_authority \<Rightarrow> certificate_authority" where
  "with_ca_crl_url sv ca = ca\<lparr>v_crl_url := crl_url sv (m_id ca)\<rparr>"

definition repair_ca_metadata_if_needed ::
  "service \<Rightarrow> env \<Rightarrow> nat \<Rightarrow> certificate_authority \<Rightarrow> certificate_authority db_act"
where
  "repair_ca_metadata_if_needed sv ev n ca =
     (if is_supported_key_profile (m_key_profile ca) \<and>
         \<not> eq_ignore_ascii_case (m_digest_algorithm ca) ''imported''
      then db_give ca
      else
        db_then (db_read (\<lambda>_. in_workdir ev n
          (attempt (inspect_cert_text (sv_tools sv) (v_cert_pem ca))))) (\<lambda>t.
        let text = unwrap_or [] t;
            key_profile = parse_public_key_profile text;
            digest = (case parse_signature_digest text of Some s \<Rightarrow> s | None \<Rightarrow> m_digest_algorithm ca)
        in if key_profile \<noteq> m_key_profile ca \<or> digest \<noteq> m_digest_algorithm ca
           then db_then (db_write (update_ca_metadata (ev_clock ev n) (m_id ca) key_profile digest)) (\<lambda>_.
                db_give (ca\<lparr>m_key_profile := key_profile, m_digest_algorithm := digest\<rparr>))
           else db_give ca))"

definition service_get_ca :: "service \<Rightarrow> env \<Rightarrow> nat \<Rightarrow> string \<Rightarrow> certificate_authority db_act" where
  "service_get_ca sv ev n i =
     db_then (db_read (get_ca i)) (\<lambda>ca.
     db_then (repair_ca_metadata_if_needed sv ev n ca) (\<lambda>ca.
     db_give (with_ca_crl_url sv ca)))"

text \<open>The lazy iterator: one CA after the other, up to the first error.\<close>

fun repair_each ::
  "service \<Rightarrow> env \<Rightarrow> nat \<Rightarrow> certificate_authority list \<Rightarrow> certificate_authority list db_act"
where
  "repair_each sv ev n [] = db_give []"
| "repair_each sv ev n (ca # rest) =
     db_then (repair_ca_metadata_if_needed sv ev n ca) (\<lambda>ca.
     db_then (repair_each sv ev (Suc n) rest) (\<lambda>rest.
     db_give (with_ca_crl_url sv ca # rest)))"

definition service_list_cas :: "service \<Rightarrow> env \<Rightarrow> certificate_authority list db_act" where
  "service_list_cas sv ev = db_then (db_read (\<lambda>d. Inr (list_cas d))) (repair_each sv ev 0)"

definition ca_display_name :: "string \<Rightarrow> db \<Rightarrow> string" where
  "ca_display_name i d = (case ca_common_name i d of Some n \<Rightarrow> n | None \<Rightarrow> ''(unknown CA)'')"

definition service_list_certs :: "string \<Rightarrow> db \<Rightarrow> certificate list result" where
  "service_list_certs ca_id d = bind_res (get_ca ca_id d) (\<lambda>_. Inr (list_certs ca_id d))"

definition crl_der :: "service \<Rightarrow> string \<Rightarrow> db \<Rightarrow> string result" where
  "crl_der sv ca_id d =
     (if \<not> sv_crl_enabled sv then Inl (Bail ''CRL support is disabled'')
      else bind_res (get_ca_crl ca_id d) (\<lambda>bytes.
           if bytes = [] then Inl (Bail (''CRL is not available for CA: '' @ ca_id)) else Inr bytes))"

section \<open>Creating and importing\<close>

definition ensure_unique_ca_common_name :: "string \<Rightarrow> db \<Rightarrow> unit result" where
  "ensure_unique_ca_common_name common_name d =
     (if ca_common_name_exists common_name d
      then Inl (Bail (''common name already exists: '' @ trim common_name)) else Inr ())"

definition attach_initial_crl :: "service \<Rightarrow> env \<Rightarrow> nat \<Rightarrow> ca_secrets \<Rightarrow> ca_secrets result" where
  "attach_initial_crl sv ev n secrets =
     (if \<not> sv_crl_enabled sv then Inr secrets
      else bind_res (in_workdir ev n (generate_crl (sv_tools sv) secrets (sv_crl_days sv))) (\<lambda>r.
        Inr (secrets\<lparr>s_crl_der := cr_crl_der r, s_index_txt := cr_index_txt r,
          s_crlnumber_txt := cr_crlnumber_txt r, s_crl_updated_at := ev_clock ev n\<rparr>)))"

text \<open>What is settled before the row is inserted, and the insertion.\<close>

definition prepare_ca :: "service \<Rightarrow> env \<Rightarrow> create_ca_request \<Rightarrow> db \<Rightarrow> (ca_meta \<times> ca_secrets) result" where
  "prepare_ca sv ev req d =
     bind_res (validate_days (rq_valid_days req)) (\<lambda>_.
     bind_res (key_spec_of (rq_key_profile req)) (\<lambda>key.
     bind_res (normalize_digest (rq_digest_algorithm req)) (\<lambda>digest.
     bind_res (validate_password (rq_password req)) (\<lambda>_.
     bind_res (ensure_unique_ca_common_name (rq_common_name req) d) (\<lambda>_.
     bind_res (create_subject (rq_common_name req) (rq_country_code req) (rq_organization req)
        (rq_state req) (rq_city req) (rq_organization_unit req)) (\<lambda>subject.
     bind_res (in_workdir ev 0 (create_ca_files (sv_tools sv) (ev_random ev) subject
        (rq_valid_days req) digest (ks_algorithm key) (ks_attributes key)
        (password_of ev (rq_password req)))) (\<lambda>secrets.
     bind_res (attach_initial_crl sv ev 1 secrets) (\<lambda>secrets.
     Inr (\<lparr>m_id = ev_id ev, m_common_name = rq_common_name req,
            m_country_code = rq_country_code req, m_state = rq_state req, m_city = rq_city req,
            m_organization = rq_organization req, m_organization_unit = rq_organization_unit req,
            m_subject = subject, m_issue_time = ev_clock ev 2, m_valid_days = rq_valid_days req,
            m_key_profile = ks_profile key, m_digest_algorithm = digest\<rparr>, secrets)))))))))"

definition store_ca :: "service \<Rightarrow> env \<Rightarrow> ca_meta \<times> ca_secrets \<Rightarrow> certificate_authority db_act" where
  "store_ca sv ev x =
     db_then (db_write (insert_ca (ev_clock ev 3) (fst x) (snd x))) (\<lambda>_.
     db_then (prebuild_truststore sv ev 2 (m_id (fst x)) (s_cert_pem (snd x))) (\<lambda>_.
     db_then (db_read (get_ca (m_id (fst x)))) (\<lambda>ca.
     db_give (with_ca_crl_url sv ca))))"

definition create_ca :: "service \<Rightarrow> env \<Rightarrow> create_ca_request \<Rightarrow> certificate_authority db_act" where
  "create_ca sv ev req = db_then (db_read (prepare_ca sv ev req)) (store_ca sv ev)"

record import_ca_request =
  ia_cert_pem :: string
  ia_key_pem :: string
  ia_password :: "string option"

text \<open>The work in the directory that holds the certificate and the key.\<close>

definition import_ca_work ::
  "service \<Rightarrow> env \<Rightarrow> string \<Rightarrow> import_ca_request \<Rightarrow> db \<Rightarrow> (ca_meta \<times> ca_secrets) act"
where
  "import_ca_work sv ev i req d =
     and_then (write_file ''ca-cert.pem'' (ia_cert_pem req)) (\<lambda>_.
     and_then (write_file ''ca-key.pem'' (ia_key_pem req)) (\<lambda>_.
     and_then (inspect_cert (sv_tools sv) (ia_cert_pem req)) (\<lambda>info.
     and_then (is_ca_cert (sv_tools sv) (ia_cert_pem req)) (\<lambda>ca.
     if \<not> ca
     then lift_res (Inl (Bail ''the certificate is not a certificate authority (basicConstraints CA:TRUE is missing)''))
     else
     and_then (in_context ''the private key does not match the CA certificate''
       (check_key_matches_cert (sv_tools sv) ''ca-cert.pem'' ''ca-key.pem'')) (\<lambda>_.
     and_then (attempt (inspect_cert_text (sv_tools sv) (ia_cert_pem req))) (\<lambda>t.
     and_then (derive_subject sv (ia_cert_pem req) info) (\<lambda>derived.
     let text = unwrap_or [] t;
         common_name = (case ds_common_name derived of Some cn \<Rightarrow> cn | None \<Rightarrow> ''Imported CA'');
         validity = validity_from_info (sv_parse_date sv) (ev_clock ev 0) info
     in
     and_then (lift_res (ensure_unique_ca_common_name common_name d)) (\<lambda>_.
     and_then (finish_ca_files (sv_tools sv) (ev_random ev) (password_of ev (ia_password req))) (\<lambda>secrets.
     give (\<lparr>m_id = i, m_common_name = common_name, m_country_code = ds_country_code derived,
            m_state = ds_state derived, m_city = ds_city derived,
            m_organization = ds_organization derived,
            m_organization_unit = ds_organization_unit derived, m_subject = ds_subject derived,
            m_issue_time = fst validity, m_valid_days = snd validity,
            m_key_profile = parse_public_key_profile text,
            m_digest_algorithm = (case parse_signature_digest text of Some s \<Rightarrow> s | None \<Rightarrow> ''imported'')\<rparr>,
           secrets))))))))))"

definition prepare_import_ca ::
  "service \<Rightarrow> env \<Rightarrow> string option \<Rightarrow> import_ca_request \<Rightarrow> db \<Rightarrow> (ca_meta \<times> ca_secrets) result"
where
  "prepare_import_ca sv ev wanted req d =
     bind_res (validate_password (ia_password req)) (\<lambda>_.
     bind_res (case wanted of Some i \<Rightarrow> validate_entity_id i | None \<Rightarrow> Inr (ev_id ev)) (\<lambda>i.
     if ca_exists i d then Inl (Bail (''certificate authority id already exists: '' @ i))
     else
     bind_res (in_workdir ev 0 (import_ca_work sv ev i req d)) (\<lambda>(meta, secrets).
     bind_res (attach_initial_crl sv ev 1 secrets) (\<lambda>secrets. Inr (meta, secrets)))))"

definition import_ca_with_id ::
  "service \<Rightarrow> env \<Rightarrow> string option \<Rightarrow> import_ca_request \<Rightarrow> certificate_authority db_act"
where
  "import_ca_with_id sv ev wanted req =
     db_then (db_read (prepare_import_ca sv ev wanted req)) (store_ca sv ev)"

section \<open>Renewing\<close>

text \<open>A CA certificate is renewed only when that moves its expiry.\<close>

definition ca_renewal_extends :: "int \<Rightarrow> int \<Rightarrow> int \<Rightarrow> unit result" where
  "ca_renewal_extends now current_expiry days =
     (if expiry now days \<le> current_expiry
      then Inl (Bail (''renewal would not extend the CA certificate expiry; choose at least '' @
             show_int (min_days now current_expiry) @ '' days''))
      else Inr ())"

text \<open>The checks and commands in the first directory of a renewal.\<close>

definition renew_ca_work ::
  "service \<Rightarrow> env \<Rightarrow> certificate_authority \<Rightarrow> int \<Rightarrow> string \<Rightarrow> ca_secrets \<Rightarrow> (string \<times> string) act"
where
  "renew_ca_work sv ev ca days digest secrets =
     and_then (inspect_cert (sv_tools sv) (from_utf8_lossy (s_cert_pem secrets))) (\<lambda>info.
     and_then (lift_res (ca_renewal_extends (ev_clock ev 1)
       (case not_after sv info of Some t \<Rightarrow> t | None \<Rightarrow> expiry (m_issue_time ca) (m_valid_days ca))
       days)) (\<lambda>_.
     renew_ca_files (sv_tools sv) (ev_random ev) secrets days digest))"

text \<open>The CRL is signed anew; the certificate bundles get the new CA certificate.\<close>

definition renewed_crl :: "service \<Rightarrow> env \<Rightarrow> ca_secrets \<Rightarrow> (string \<times> string) option result" where
  "renewed_crl sv ev secrets =
     (if sv_crl_enabled sv
      then bind_res (in_workdir ev 1 (generate_crl (sv_tools sv) secrets (sv_crl_days sv)))
             (\<lambda>r. Inr (Some (cr_crl_der r, cr_crlnumber_txt r)))
      else Inr None)"

definition renewed_bundles :: "service \<Rightarrow> string \<Rightarrow> string \<Rightarrow> db \<Rightarrow> (string \<times> string) list result" where
  "renewed_bundles sv ca_id cert_pem d =
     map_res (\<lambda>(i, k). bind_res (build_bundle (sv_tools sv) k cert_pem) (\<lambda>b. Inr (i, b)))
       (list_cert_secrets_for_ca ca_id d)"

definition prepare_ca_renewal ::
  "service \<Rightarrow> env \<Rightarrow> string \<Rightarrow> certificate_authority \<Rightarrow> int \<Rightarrow> string \<Rightarrow> db \<Rightarrow>
   (string \<times> string \<times> (string \<times> string) option \<times> (string \<times> string) list) result"
where
  "prepare_ca_renewal sv ev ca_id ca days digest d =
     bind_res (get_ca_secrets ca_id d) (\<lambda>secrets.
     bind_res (in_workdir ev 0 (renew_ca_work sv ev ca days digest secrets)) (\<lambda>(cert_pem, pkcs12).
     bind_res (renewed_crl sv ev (secrets\<lparr>s_cert_pem := cert_pem, s_pkcs12 := pkcs12\<rparr>)) (\<lambda>crl.
     bind_res (renewed_bundles sv ca_id cert_pem d) (\<lambda>bundles.
     Inr (cert_pem, pkcs12, crl, bundles)))))"

text \<open>Clock readings: the lock, the new issue time, the commit.\<close>

definition renew_ca_locked ::
  "service \<Rightarrow> env \<Rightarrow> string \<Rightarrow> int \<Rightarrow> certificate_authority \<times> string \<Rightarrow> unit db_act"
where
  "renew_ca_locked sv ev ca_id days plan =
     with_ca_lock ev 0 ca_id (\<lambda>d.
       commit_then (prepare_ca_renewal sv ev ca_id (fst plan) days (snd plan) d)
         (\<lambda>(cert_pem, pkcs12, crl, bundles).
            renew_ca_with_state (ev_clock ev 2) ca_id cert_pem pkcs12 (ev_clock ev 1) days crl
              bundles (ev_owner ev))
         (\<lambda>_. Inr ()) d)"

definition plan_ca_renewal :: "string \<Rightarrow> int \<Rightarrow> db \<Rightarrow> (certificate_authority \<times> string) result" where
  "plan_ca_renewal ca_id days d =
     bind_res (validate_days days) (\<lambda>_.
     bind_res (get_ca ca_id d) (\<lambda>ca. Inr (ca, fallback_digest (m_digest_algorithm ca))))"

definition renew_ca :: "service \<Rightarrow> env \<Rightarrow> string \<Rightarrow> int \<Rightarrow> certificate_authority db_act" where
  "renew_ca sv ev ca_id days =
     db_then (db_read (plan_ca_renewal ca_id days)) (\<lambda>plan.
     db_then (renew_ca_locked sv ev ca_id days plan) (\<lambda>_.
     db_then (service_get_ca sv ev 3 ca_id) (\<lambda>ca.
     db_then (prebuild_truststore sv ev 4 ca_id (v_cert_pem ca)) (\<lambda>_.
     db_give ca))))"

section \<open>Inspecting and downloading\<close>

record inspect_response =
  in_info :: "(string \<times> string) list"
  in_dns_names :: "string list"
  in_ip_addresses :: "string list"
  in_purposes :: "(string \<times> string) list"
  in_raw_text :: string

definition ca_is_self_signed :: "service \<Rightarrow> env \<Rightarrow> string \<Rightarrow> bool result" where
  "ca_is_self_signed sv ev cert_pem = in_workdir ev 0 (is_self_issued (sv_tools sv) cert_pem)"

definition cert_purposes :: "service \<Rightarrow> env \<Rightarrow> string \<Rightarrow> (string \<times> string) list result" where
  "cert_purposes sv ev pem = in_workdir ev 0 (inspect_cert_purposes (sv_tools sv) pem)"

definition service_inspect_cert :: "service \<Rightarrow> env \<Rightarrow> string \<Rightarrow> inspect_response result" where
  "service_inspect_cert sv ev pem =
     in_workdir ev 0
       (and_then (attempt (inspect_cert_sans (sv_tools sv) pem)) (\<lambda>sans.
        and_then (inspect_cert (sv_tools sv) pem) (\<lambda>info.
        and_then (attempt (inspect_cert_purposes (sv_tools sv) pem)) (\<lambda>purposes.
        and_then (inspect_cert_text (sv_tools sv) pem) (\<lambda>raw_text.
        give \<lparr>in_info = info, in_dns_names = fst (unwrap_or ([], []) sans),
              in_ip_addresses = snd (unwrap_or ([], []) sans),
              in_purposes = unwrap_or [] purposes, in_raw_text = raw_text\<rparr>)))))"

datatype download =
  CaCert | CaKey | CaPkcs12 | CaPassword | CaTruststore | CaTruststorePassword
| CertBundle | CertPem | CertCsr | CertKey | CertPkcs12 | CertPassword

fun ca_artifact ::
  "service \<Rightarrow> env \<Rightarrow> string \<Rightarrow> string \<Rightarrow> ca_secrets \<Rightarrow> download \<Rightarrow> (string \<times> string) db_act"
where
  "ca_artifact sv ev ca_id name s CaCert = db_give (name @ ''.pem'', s_cert_pem s)"
| "ca_artifact sv ev ca_id name s CaKey = db_give (name @ ''.key'', s_key_pem s)"
| "ca_artifact sv ev ca_id name s CaPkcs12 = db_give (name @ ''.p12'', s_pkcs12 s)"
| "ca_artifact sv ev ca_id name s CaPassword = db_give (name @ ''-p12-password.txt'', s_password s)"
| "ca_artifact sv ev ca_id name s CaTruststore =
     db_then (truststore sv ev ca_id (s_cert_pem s)) (\<lambda>ts. db_give (name @ ''-truststore.p12'', ts))"
| "ca_artifact sv ev ca_id name s CaTruststorePassword =
     db_give (name @ ''-truststore-password.txt'', truststore_password)"
| "ca_artifact sv ev ca_id name s kind = db_read (\<lambda>_. Inl (Bail ''invalid CA download kind''))"

definition download_ca :: "service \<Rightarrow> env \<Rightarrow> string \<Rightarrow> download \<Rightarrow> (string \<times> string) db_act" where
  "download_ca sv ev ca_id kind =
     db_then (db_read (get_ca_secrets ca_id)) (\<lambda>secrets.
     db_then (db_read (\<lambda>d. Inr (artifact_basename (or_default (ca_common_name ca_id d)) ca_id))) (\<lambda>name.
     ca_artifact sv ev ca_id name secrets kind))"

fun cert_artifact :: "string \<Rightarrow> cert_secrets \<Rightarrow> download \<Rightarrow> (string \<times> string) result" where
  "cert_artifact name k CertBundle = Inr (name @ ''.zip'', k_bundle_zip k)"
| "cert_artifact name k CertPem = Inr (name @ ''.pem'', k_cert_pem k)"
| "cert_artifact name k CertCsr = Inr (name @ ''.csr'', k_csr_pem k)"
| "cert_artifact name k CertKey = Inr (name @ ''.key'', k_key_pem k)"
| "cert_artifact name k CertPkcs12 = Inr (name @ ''.p12'', k_pkcs12 k)"
| "cert_artifact name k CertPassword = Inr (name @ ''-p12-password.txt'', k_password k)"
| "cert_artifact name k kind = Inl (Bail ''invalid certificate download kind'')"

definition download_cert :: "string \<Rightarrow> string \<Rightarrow> download \<Rightarrow> db \<Rightarrow> (string \<times> string) result" where
  "download_cert ca_id cert_id kind d =
     bind_res (get_cert_secrets ca_id cert_id d) (\<lambda>secrets.
     bind_res (get_cert ca_id cert_id d) (\<lambda>cert.
     cert_artifact (artifact_basename (m_common_name cert) cert_id) secrets kind))"

section \<open>Repairing stale metadata\<close>

text \<open>The metadata of a CA as its certificate states it, and whether it counts as changed.\<close>

definition repaired_ca_meta :: "int \<times> int \<Rightarrow> derived_subject \<Rightarrow> ca_meta \<Rightarrow> ca_meta" where
  "repaired_ca_meta validity derived meta =
     (let m1 = (if day_ms < \<bar>sub64 (fst validity) (m_issue_time meta)\<bar> \<or>
                   snd validity \<noteq> m_valid_days meta
                then meta\<lparr>m_issue_time := fst validity, m_valid_days := snd validity\<rparr> else meta)
      in if has_fabricated_subject (m_country_code m1) (m_organization m1)
         then apply_derived_subject derived m1 else m1)"

definition ca_meta_changed :: "ca_meta \<Rightarrow> ca_meta \<Rightarrow> bool" where
  "ca_meta_changed meta before \<longleftrightarrow>
     m_subject meta \<noteq> m_subject before \<or> m_issue_time meta \<noteq> m_issue_time before \<or>
     m_valid_days meta \<noteq> m_valid_days before \<or> m_country_code meta \<noteq> m_country_code before \<or>
     m_organization meta \<noteq> m_organization before"

definition no_subject :: derived_subject where
  "no_subject = from_rfc2253 []"

text \<open>The subject is read, in the same directory, only when the stored one was made up.\<close>

definition repair_ca_work ::
  "service \<Rightarrow> env \<Rightarrow> nat \<Rightarrow> ca_meta \<Rightarrow> string \<Rightarrow> ca_meta option act"
where
  "repair_ca_work sv ev n meta pem =
     and_then (attempt (inspect_cert (sv_tools sv) pem)) (\<lambda>r.
     case r of
       Inl e \<Rightarrow> give None
     | Inr info \<Rightarrow>
         and_then (if has_fabricated_subject (m_country_code meta) (m_organization meta)
                   then derive_subject sv pem info else give no_subject) (\<lambda>derived.
         give (Some (repaired_ca_meta (validity_from_info (sv_parse_date sv) (ev_clock ev n) info)
           derived meta))))"

definition repair_ca :: "service \<Rightarrow> env \<Rightarrow> nat \<Rightarrow> ca_meta \<times> string \<Rightarrow> nat db_act" where
  "repair_ca sv ev n x =
     db_then (db_read (\<lambda>_. in_workdir ev n
       (repair_ca_work sv ev n (fst x) (from_utf8_lossy (snd x))))) (\<lambda>r.
     case r of
       None \<Rightarrow> db_then (db_write (\<lambda>d. Inr (mark_ca_meta_checked (m_id (fst x)) d))) (\<lambda>_. db_give 0)
     | Some meta \<Rightarrow>
         db_then (db_write (\<lambda>d. Inr (update_ca_meta_repaired meta d))) (\<lambda>_.
         db_give (if ca_meta_changed meta (fst x) then 1 else 0)))"

definition repair_cert_work :: "service \<Rightarrow> cert_meta \<Rightarrow> string \<Rightarrow> cert_meta act" where
  "repair_cert_work sv meta pem =
     and_then (attempt (inspect_cert (sv_tools sv) pem)) (\<lambda>info.
     and_then (derive_subject sv pem (unwrap_or [] info)) (\<lambda>derived.
     give (apply_derived_subject derived meta)))"

definition repair_cert :: "service \<Rightarrow> env \<Rightarrow> nat \<Rightarrow> cert_meta \<times> string \<Rightarrow> nat db_act" where
  "repair_cert sv ev n x =
     (if \<not> has_fabricated_subject (m_country_code (fst x)) (m_organization (fst x))
      then db_then (db_write (\<lambda>d. Inr (mark_cert_meta_checked (m_id (fst x)) d))) (\<lambda>_. db_give 0)
      else
        db_then (db_read (\<lambda>_. in_workdir ev n
          (repair_cert_work sv (fst x) (from_utf8_lossy (snd x))))) (\<lambda>meta.
        db_then (db_write (\<lambda>d. Inr (update_cert_meta_repaired meta d))) (\<lambda>_.
        db_give (if m_subject meta \<noteq> m_subject (fst x) then 1 else 0))))"

text \<open>One row after the other, up to the first error; the sum of the counts.\<close>

fun repair_rows :: "(nat \<Rightarrow> 'x \<Rightarrow> nat db_act) \<Rightarrow> nat \<Rightarrow> 'x list \<Rightarrow> nat db_act" where
  "repair_rows f n [] = db_give 0"
| "repair_rows f n (x # xs) =
     db_then (f n x) (\<lambda>a. db_then (repair_rows f (Suc n) xs) (\<lambda>b. db_give (a + b)))"

definition repair_stale_metadata :: "service \<Rightarrow> env \<Rightarrow> (nat \<times> nat) db_act" where
  "repair_stale_metadata sv ev =
     db_then (db_read (\<lambda>d. Inr (list_cas_for_repair d))) (\<lambda>ca_rows.
     db_then (repair_rows (repair_ca sv ev) 0 ca_rows) (\<lambda>repaired_cas.
     db_then (db_read (\<lambda>d. Inr (list_certs_for_repair d))) (\<lambda>cert_rows.
     db_then (repair_rows (repair_cert sv ev) (length ca_rows) cert_rows) (\<lambda>repaired_certs.
     db_give (repaired_cas, repaired_certs)))))"

text \<open>The import of a backup ends with a repair whose failure is only logged.\<close>

definition import_backup_repaired ::
  "service \<Rightarrow> env \<Rightarrow> (string \<Rightarrow> string result) \<Rightarrow> int \<Rightarrow> backup_file \<Rightarrow> unit db_act"
where
  "import_backup_repaired sv ev dec now b =
     db_then (db_write (import_backup dec now b)) (\<lambda>_ d.
     (Inr (), snd (repair_stale_metadata sv ev d)))"

end
