(* ===== verification/Service_Ops.thy ===== *)
theory Service_Ops
  imports Ca_Service Accounts
begin

text \<open>
  The public operations of \<open>AppService\<close> that write (\<open>src/src/service.rs\<close>) as one step
  function on the database, and their refinement into the transactions of \<open>Db_Ops\<close>: what
  every transaction keeps, every service operation keeps.
\<close>

section \<open>Operations\<close>

datatype service_op =
    List_cas_op
  | Get_ca_op string
  | Delete_ca_op string
  | Restore_ca_op string
  | Create_ca_op create_ca_request
  | Import_ca_op "string option" import_ca_request
  | Renew_ca_op string int
  | Download_ca_op string download
  | Create_cert_op string create_cert_request
  | Import_cert_op string "string option" import_cert_request "string option"
  | Renew_cert_op string string int
  | Revoke_cert_op string string string
  | Delete_cert_op string string
  | Restore_cert_op string string
  | Create_user_op create_user_request
  | Delete_user_op string
  | Create_template_op template_request
  | Update_template_op string template_request
  | Delete_template_op string
  | Import_backup_op backup_file
  | Repair_op
  | Nuke_op

text \<open>What the service is given besides its tools: reserved names, bcrypt, base64.\<close>

record surroundings =
  su_reserved :: "string list"
  su_hash :: "string \<Rightarrow> string result"
  su_decode :: "string \<Rightarrow> string result"

definition forget :: "'a result \<times> db \<Rightarrow> unit result \<times> db" where
  "forget x = (map_sum (\<lambda>e. e) (\<lambda>_. ()) (fst x), snd x)"

fun service_exec ::
  "service \<Rightarrow> surroundings \<Rightarrow> env \<Rightarrow> service_op \<Rightarrow> db \<Rightarrow> unit result \<times> db"
where
  "service_exec sv su ev List_cas_op d = forget (service_list_cas sv ev d)"
| "service_exec sv su ev (Get_ca_op i) d = forget (service_get_ca sv ev 0 i d)"
| "service_exec sv su ev (Delete_ca_op i) d = db_write (delete_ca (ev_clock ev 0) i) d"
| "service_exec sv su ev (Restore_ca_op i) d = db_write (restore_ca (ev_clock ev 0) i) d"
| "service_exec sv su ev (Create_ca_op req) d = forget (create_ca sv ev req d)"
| "service_exec sv su ev (Import_ca_op wanted req) d = forget (import_ca_with_id sv ev wanted req d)"
| "service_exec sv su ev (Renew_ca_op i days) d = forget (renew_ca sv ev i days d)"
| "service_exec sv su ev (Download_ca_op i kind) d = forget (download_ca sv ev i kind d)"
| "service_exec sv su ev (Create_cert_op c req) d = forget (create_cert sv ev c req d)"
| "service_exec sv su ev (Import_cert_op c wanted req csr) d =
     forget (import_cert_with sv ev c wanted req csr d)"
| "service_exec sv su ev (Renew_cert_op c i days) d = forget (renew_cert sv ev c i days d)"
| "service_exec sv su ev (Revoke_cert_op c i reason) d = forget (revoke_cert sv ev c i reason d)"
| "service_exec sv su ev (Delete_cert_op c i) d = db_write (delete_cert (ev_clock ev 0) c i) d"
| "service_exec sv su ev (Restore_cert_op c i) d = db_write (restore_cert (ev_clock ev 0) c i) d"
| "service_exec sv su ev (Create_user_op req) d =
     db_write (create_user (su_reserved su) (su_hash su) (ev_id ev) (ev_clock ev 0) req) d"
| "service_exec sv su ev (Delete_user_op i) d = db_write (db_delete_user i) d"
| "service_exec sv su ev (Create_template_op req) d =
     db_write (\<lambda>d. map_sum (\<lambda>e. e) snd (create_template (ev_id ev) (ev_clock ev 0) req d)) d"
| "service_exec sv su ev (Update_template_op i req) d =
     db_write (\<lambda>d. map_sum (\<lambda>e. e) snd (update_template i (ev_clock ev 0) req d)) d"
| "service_exec sv su ev (Delete_template_op i) d = db_write (db_delete_template i) d"
| "service_exec sv su ev (Import_backup_op b) d =
     import_backup_repaired sv ev (su_decode su) (ev_clock ev 0) b d"
| "service_exec sv su ev Repair_op d = forget (repair_stale_metadata sv ev d)"
| "service_exec sv su ev Nuke_op d = db_write (\<lambda>d. Inr (nuke_all d)) d"


section \<open>Refinement into transactions\<close>

text \<open>
  A transaction a client of the service may issue: it signs only under its own lock owner,
  and stores a truststore only for the certificate it was built from.
\<close>

definition built :: "tools \<Rightarrow> string \<Rightarrow> string \<Rightarrow> bool" where
  "built t cert ts \<longleftrightarrow>
     (\<exists>path alias_name. fst (truststore_pkcs12 t cert alias_name truststore_password (fresh_workdir path)) = Inr ts)"

fun signer :: "db_op \<Rightarrow> (string \<times> string) option" where
  "signer (Insert_cert now meta secrets st p) = Some (m_ca_id meta, p)"
| "signer (Update_cert now c i pem p12 bun it vd st p) = Some (c, p)"
| "signer (Revoke_cert now c i reason at st crl p) = Some (c, p)"
| "signer (Renew_ca now c pem p12 it vd crl bundles p) = Some (c, p)"
| "signer (Acquire now c p ttl) = Some (c, p)"
| "signer (Release c p) = Some (c, p)"
| "signer _ = None"

definition client_op :: "service \<Rightarrow> env \<Rightarrow> db_op \<Rightarrow> bool" where
  "client_op sv ev o1 \<longleftrightarrow>
     (\<forall>c p. signer o1 = Some (c, p) \<longrightarrow> p = ev_owner ev) \<and>
     (\<forall>cert ts. sets_truststore o1 cert ts \<longrightarrow> built (sv_tools sv) cert ts)"

definition writing :: "(db_op \<Rightarrow> bool) \<Rightarrow> 'a db_act \<Rightarrow> bool" where
  "writing ok m \<longleftrightarrow> (\<forall>d. \<exists>ops. list_all ok ops \<and> snd (m d) = db_run ops d)"

named_theorems writing_intros

lemma writing_none: "(\<And>d. snd (m d) = d) \<Longrightarrow> writing ok m"
  unfolding writing_def by (auto intro: exI [of _ "[]"])

lemma writing_read [writing_intros]: "writing ok (db_read f)"
  by (rule writing_none) (simp add: db_read_def)

lemma writing_give [writing_intros]: "writing ok (db_give a)"
  by (rule writing_none) (simp add: db_give_def)

lemma writing_then:
  assumes "writing ok m" and "\<And>a d d'. m d = (Inr a, d') \<Longrightarrow> writing ok (f a)"
  shows "writing ok (db_then m f)"
  unfolding writing_def
proof
  fix d
  obtain xs where xs: "list_all ok xs" "snd (m d) = db_run xs d" using assms(1) by (auto simp: writing_def)
  show "\<exists>ops. list_all ok ops \<and> snd (db_then m f d) = db_run ops d"
  proof (cases "m d")
    case (Pair r d')
    show ?thesis
    proof (cases r)
      case (Inl e)
      then show ?thesis using xs Pair by (auto simp: db_then_def)
    next
      case (Inr a)
      then have "writing ok (f a)" using assms(2) Pair by blast
      then obtain ys where "list_all ok ys" "snd (f a d') = db_run ys d'" by (auto simp: writing_def)
      then have "list_all ok (xs @ ys) \<and> snd (db_then m f d) = db_run (xs @ ys) d"
        using xs Pair Inr by (simp add: db_then_def db_run_append)
      then show ?thesis by blast
    qed
  qed
qed

lemma writing_step [writing_intros]:
  "writing ok m \<Longrightarrow> (\<And>a. writing ok (f a)) \<Longrightarrow> writing ok (db_then m f)"
  by (rule writing_then)

lemma writing_if [writing_intros]:
  "writing ok m \<Longrightarrow> writing ok n \<Longrightarrow> writing ok (if b then m else n)"
  by simp

lemma commit_one: "db_exec o1 d = Inr d' \<Longrightarrow> db_run [o1] d = d'"
  by (simp add: db_commit_def)

lemma writing_write:
  assumes "\<And>d d'. f d = Inr d' \<Longrightarrow> \<exists>o1. ok o1 \<and> db_exec o1 d = Inr d'"
  shows "writing ok (db_write f)"
  unfolding writing_def
proof
  fix d
  show "\<exists>ops. list_all ok ops \<and> snd (db_write f d) = db_run ops d"
  proof (cases "f d")
    case (Inl e)
    then show ?thesis by (intro exI [of _ "[]"]) (simp add: db_write_def)
  next
    case (Inr d')
    then obtain o1 where "ok o1" "db_exec o1 d = Inr d'" using assms by blast
    then show ?thesis using Inr
      by (intro exI [of _ "[o1]"]) (simp add: db_write_def commit_one del: db_run.simps)
  qed
qed

text \<open>One transaction, named.\<close>

lemma writing_exec: "ok o1 \<Longrightarrow> (\<And>d. f d = db_exec o1 d) \<Longrightarrow> writing ok (db_write f)"
  by (rule writing_write) auto

lemma writing_checked:
  "(\<And>x. r d = Inr x \<Longrightarrow> \<exists>ops. list_all ok ops \<and> snd (f x d) = db_run ops d) \<Longrightarrow>
   \<exists>ops. list_all ok ops \<and> snd (checked (r d) f d) = db_run ops d"
  by (cases "r d") (auto simp: checked_def intro: exI [of _ "[]"])

lemma writing_locked:
  assumes "writing ok body" and "ok (Acquire (ev_clock ev n) c (ev_owner ev) 120000)"
    and "ok (Release c (ev_owner ev))"
  shows "writing ok (with_ca_lock ev n c body)"
  unfolding writing_def
proof
  fix d
  let ?a = "Acquire (ev_clock ev n) c (ev_owner ev) 120000" and ?r = "Release c (ev_owner ev)"
  show "\<exists>ops. list_all ok ops \<and> snd (with_ca_lock ev n c body d) = db_run ops d"
  proof (cases "acquire_ca_lock (ev_clock ev n) c (ev_owner ev) 120000 d")
    case (Inl e)
    then show ?thesis by (intro exI [of _ "[]"]) (simp add: with_ca_lock_def)
  next
    case (Inr d1)
    then have a: "db_run [?a] d = d1" by (simp add: db_commit_def)
    obtain xs where xs: "list_all ok xs" "snd (body d1) = db_run xs d1"
      using assms(1) by (auto simp: writing_def)
    show ?thesis
    proof (cases "body d1")
      case (Pair r d2)
      show ?thesis
      proof (cases r)
        case (Inl e)
        then have "snd (with_ca_lock ev n c body d) = db_run ([?a] @ xs @ [?r]) d"
          using Pair Inr xs a by (simp add: with_ca_lock_def db_run_append db_commit_def)
        moreover have "list_all ok ([?a] @ xs @ [?r])" using xs assms by simp
        ultimately show ?thesis by blast
      next
        case (Inr b)
        then have "snd (with_ca_lock ev n c body d) = db_run ([?a] @ xs) d"
          using Pair \<open>acquire_ca_lock _ _ _ _ _ = Inr d1\<close> xs a
          by (simp add: with_ca_lock_def db_run_append db_commit_def)
        moreover have "list_all ok ([?a] @ xs)" using xs assms by simp
        ultimately show ?thesis by blast
      qed
    qed
  qed
qed

lemma writing_commit:
  assumes "\<And>d x d'. prep d = Inr x \<Longrightarrow> commit x d = Inr d' \<Longrightarrow> \<exists>o1. ok o1 \<and> db_exec o1 d = Inr d'"
  shows "writing ok (\<lambda>d. commit_then (prep d) commit final d)"
  unfolding writing_def
proof
  fix d
  show "\<exists>ops. list_all ok ops \<and> snd (commit_then (prep d) commit final d) = db_run ops d"
  proof (cases "prep d")
    case (Inl e)
    then show ?thesis by (intro exI [of _ "[]"]) (simp add: commit_then_def)
  next
    case (Inr x)
    show ?thesis
    proof (cases "commit x d")
      case (Inl e)
      then show ?thesis using Inr by (intro exI [of _ "[]"]) (simp add: commit_then_def)
    next
      case (Inr d')
      then obtain o1 where "ok o1" "db_exec o1 d = Inr d'" using assms \<open>prep d = Inr x\<close> by blast
      then show ?thesis using Inr \<open>prep d = Inr x\<close>
        by (intro exI [of _ "[o1]"]) (simp add: commit_then_def commit_one del: db_run.simps)
    qed
  qed
qed


lemma client_op_simps [simp]:
  "client_op sv ev (Insert_ca n m s)" "client_op sv ev (Update_ca_metadata n a b g)"
  "client_op sv ev (Repair_ca m)" "client_op sv ev (Repair_cert cm)" "client_op sv ev (Check_ca a)"
  "client_op sv ev (Check_cert a)" "client_op sv ev (Delete_ca n a)" "client_op sv ev (Restore_ca n a)"
  "client_op sv ev (Delete_cert n a b)" "client_op sv ev (Restore_cert n a b)"
  "client_op sv ev (Insert_user n a b g r)" "client_op sv ev (Delete_user a)"
  "client_op sv ev (Save_template t new)" "client_op sv ev (Delete_template a)"
  "client_op sv ev (Restore_backup n snap)" "client_op sv ev Nuke"
  "client_op sv ev (Set_truststore a cert ts) = built (sv_tools sv) cert ts"
  "client_op sv ev (Insert_cert n cm k st p) = (p = ev_owner ev)"
  "client_op sv ev (Update_cert n a b pem p12 bun it vd ust p) = (p = ev_owner ev)"
  "client_op sv ev (Revoke_cert n a b reason at ust crl p) = (p = ev_owner ev)"
  "client_op sv ev (Renew_ca n a pem p12 it vd ocrl bundles p) = (p = ev_owner ev)"
  "client_op sv ev (Acquire n a p ttl) = (p = ev_owner ev)"
  "client_op sv ev (Release a p) = (p = ev_owner ev)"
  by (simp_all add: client_op_def)

abbreviation client_writes :: "service \<Rightarrow> env \<Rightarrow> 'a db_act \<Rightarrow> bool" where
  "client_writes sv ev \<equiv> writing (client_op sv ev)"

lemma in_workdir_built:
  "in_workdir ev n (truststore_pkcs12 t cert alias_name truststore_password) = Inr ts \<Longrightarrow> built t cert ts"
  unfolding built_def in_workdir_Inr by (metis fst_conv)

text \<open>The operations on CA rows that do not sign.\<close>

definition quiet_op :: "service \<Rightarrow> env \<Rightarrow> db_op \<Rightarrow> bool" where
  "quiet_op sv ev o1 \<longleftrightarrow> client_op sv ev o1 \<and> signer o1 = None"

abbreviation quiet_writes :: "service \<Rightarrow> env \<Rightarrow> 'a db_act \<Rightarrow> bool" where
  "quiet_writes sv ev \<equiv> writing (quiet_op sv ev)"

lemma quiet_client: "quiet_writes sv ev m \<Longrightarrow> client_writes sv ev m"
  unfolding writing_def quiet_op_def by (metis (mono_tags, lifting) list.pred_mono_strong)

lemma build_truststore_quiet [writing_intros]: "quiet_writes sv ev (build_truststore sv ev n c pem)"
  unfolding build_truststore_def
proof (rule writing_then [OF writing_read])
  fix ts d d'
  assume "db_read (\<lambda>_. in_workdir ev n
      (truststore_pkcs12 (sv_tools sv) pem (''minica-'' @ c) truststore_password)) d = (Inr ts, d')"
  then have "built (sv_tools sv) pem ts" by (auto simp: db_read_def intro: in_workdir_built)
  then have "quiet_writes sv ev (db_write (\<lambda>d. Inr (snd (set_ca_truststore c pem ts d))))"
    by (intro writing_exec [where ?o1.0 = "Set_truststore c pem ts"]) (simp_all add: quiet_op_def)
  then show "quiet_writes sv ev
      (db_then (db_write (\<lambda>d. Inr (snd (set_ca_truststore c pem ts d)))) (\<lambda>_. db_give ts))"
    by (rule writing_step) (rule writing_give)
qed

lemma prebuild_truststore_quiet [writing_intros]: "quiet_writes sv ev (prebuild_truststore sv ev n c pem)"
  using build_truststore_quiet [of sv ev n c pem] by (simp add: writing_def prebuild_truststore_def)

lemma repair_ca_if_needed_quiet [writing_intros]:
  "quiet_writes sv ev (repair_ca_metadata_if_needed sv ev n ca)"
  unfolding repair_ca_metadata_if_needed_def Let_def
  by (intro writing_intros writing_exec [where ?o1.0 = "Update_ca_metadata _ _ _ _"]) (simp_all add: quiet_op_def)

lemma get_ca_quiet [writing_intros]: "quiet_writes sv ev (service_get_ca sv ev n i)"
  unfolding service_get_ca_def by (intro writing_intros)

lemmas quiet_client_writes [writing_intros] =
  build_truststore_quiet [THEN quiet_client] prebuild_truststore_quiet [THEN quiet_client]
  repair_ca_if_needed_quiet [THEN quiet_client] get_ca_quiet [THEN quiet_client]

lemma repair_each_writes [writing_intros]: "client_writes sv ev (repair_each sv ev n xs)"
  by (induction xs arbitrary: n) (auto intro!: writing_intros)

lemma list_cas_writes: "client_writes sv ev (service_list_cas sv ev)"
  unfolding service_list_cas_def by (intro writing_intros)

lemma store_ca_writes [writing_intros]: "client_writes sv ev (store_ca sv ev x)"
  unfolding store_ca_def
  by (intro writing_intros writing_exec [where ?o1.0 = "Insert_ca _ _ _"]) simp_all

lemma create_ca_writes: "client_writes sv ev (create_ca sv ev req)"
  unfolding create_ca_def by (intro writing_intros)

lemma import_ca_writes: "client_writes sv ev (import_ca_with_id sv ev wanted req)"
  unfolding import_ca_with_id_def by (intro writing_intros)

lemma renew_ca_writes: "client_writes sv ev (renew_ca sv ev i days)"
  unfolding renew_ca_def renew_ca_locked_def
  by (intro writing_intros writing_locked writing_commit)
    (auto intro!: exI [of _ "Renew_ca _ _ _ _ _ _ _ _ _"])

lemma download_ca_writes: "client_writes sv ev (download_ca sv ev c kind)"
  unfolding download_ca_def truststore_def
  by (intro writing_intros, cases kind) (auto simp: truststore_def intro!: writing_intros)


lemma checked_writes:
  assumes "\<And>x. writing ok (f x)"
  shows "writing ok (\<lambda>d. checked (r d) f d)"
  unfolding writing_def
proof
  fix d
  show "\<exists>ops. list_all ok ops \<and> snd (checked (r d) f d) = db_run ops d"
    using assms by (cases "r d") (auto simp: checked_def writing_def intro: exI [of _ "[]"])
qed

lemma create_cert_writes: "client_writes sv ev (create_cert sv ev c req)"
  unfolding create_cert_def [abs_def] issue_cert_def
  by (intro checked_writes writing_locked writing_commit)
    (auto intro!: exI [of _ "Insert_cert _ _ _ _ _"])

lemma import_cert_writes: "client_writes sv ev (import_cert_with sv ev c wanted req csr)"
  unfolding import_cert_with_def [abs_def] case_prod_unfold
  by (intro checked_writes writing_locked writing_commit)
    (auto intro!: exI [of _ "Insert_cert _ _ _ _ _"])

lemma renew_cert_writes: "client_writes sv ev (renew_cert sv ev c i days)"
  unfolding renew_cert_def [abs_def]
  by (intro checked_writes writing_locked writing_commit)
    (auto intro!: exI [of _ "Update_cert _ _ _ _ _ _ _ _ _ _"])

lemma revoke_cert_writes: "client_writes sv ev (revoke_cert sv ev c i reason)"
  unfolding revoke_cert_def [abs_def]
  by (intro checked_writes writing_locked writing_commit)
    (auto intro!: exI [of _ "Revoke_cert _ _ _ _ _ _ _ _"])

lemma repair_ca_writes: "client_writes sv ev (repair_ca sv ev n x)"
  unfolding repair_ca_def
proof (rule writing_step [OF writing_read])
  fix r
  show "client_writes sv ev (case r of
      None \<Rightarrow> db_then (db_write (\<lambda>d. Inr (mark_ca_meta_checked (m_id (fst x)) d))) (\<lambda>_. db_give 0)
    | Some meta \<Rightarrow> db_then (db_write (\<lambda>d. Inr (update_ca_meta_repaired meta d))) (\<lambda>_.
        db_give (if ca_meta_changed meta (fst x) then 1 else 0)))"
  proof (cases r)
    case None
    have "client_writes sv ev (db_write (\<lambda>d. Inr (mark_ca_meta_checked (m_id (fst x)) d)))"
      by (rule writing_exec [where ?o1.0 = "Check_ca _"]) simp_all
    then show ?thesis using None by (auto intro!: writing_intros)
  next
    case (Some meta)
    have "client_writes sv ev (db_write (\<lambda>d. Inr (update_ca_meta_repaired meta d)))"
      by (rule writing_exec [where ?o1.0 = "Repair_ca meta"]) simp_all
    then show ?thesis using Some by (auto intro!: writing_intros)
  qed
qed

lemma repair_cert_writes: "client_writes sv ev (repair_cert sv ev n x)"
proof -
  have "client_writes sv ev (db_write (\<lambda>d. Inr (mark_cert_meta_checked i d)))" for i
    by (rule writing_exec [where ?o1.0 = "Check_cert i"]) simp_all
  moreover have "client_writes sv ev (db_write (\<lambda>d. Inr (update_cert_meta_repaired m d)))" for m
    by (rule writing_exec [where ?o1.0 = "Repair_cert m"]) simp_all
  ultimately show ?thesis unfolding repair_cert_def by (intro writing_intros)
qed

lemma repair_rows_writes: "(\<And>n x. writing ok (f n x)) \<Longrightarrow> writing ok (repair_rows f n xs)"
  by (induction xs arbitrary: n) (auto intro!: writing_intros)

lemma repair_writes: "client_writes sv ev (repair_stale_metadata sv ev)"
  unfolding repair_stale_metadata_def
  by (intro writing_intros repair_rows_writes repair_ca_writes repair_cert_writes)

lemma import_backup_writes: "client_writes sv ev (import_backup_repaired sv ev dec now b)"
  unfolding import_backup_repaired_def
proof (rule writing_step)
  show "client_writes sv ev (db_write (import_backup dec now b))"
  proof (rule writing_write)
    fix d d'
    assume "import_backup dec now b d = Inr d'"
    then obtain snap where "db_exec (Restore_backup now snap) d = Inr d'"
      by (auto simp: import_backup_def bind_res_eq_Inr split: if_splits)
    then show "\<exists>o1. client_op sv ev o1 \<and> db_exec o1 d = Inr d'" by (metis client_op_simps(15))
  qed
  show "client_writes sv ev (\<lambda>d. (Inr (), snd (repair_stale_metadata sv ev d)))"
    using repair_writes by (simp add: writing_def)
qed

lemma forget_writes: "writing ok m \<Longrightarrow> writing ok (\<lambda>d. forget (m d))"
  by (simp add: writing_def forget_def)

lemma create_user_writes: "client_writes sv ev (db_write (create_user reserved hash i now req))"
proof (rule writing_write)
  fix d d'
  assume "create_user reserved hash i now req d = Inr d'"
  then obtain n h r where "db_exec (Insert_user now i n h r) d = Inr d'"
    by (auto simp: create_user_def Let_def bind_res_eq_Inr split: if_splits)
  then show "\<exists>o1. client_op sv ev o1 \<and> db_exec o1 d = Inr d'" by (metis client_op_simps(11))
qed

lemma template_writes:
  "client_writes sv ev (db_write (\<lambda>d. map_sum (\<lambda>e. e) snd (create_template i now req d)))"
  "client_writes sv ev (db_write (\<lambda>d. map_sum (\<lambda>e. e) snd (update_template i now req d)))"
proof -
  have *: "map_sum (\<lambda>e. e) snd r = Inr d' \<longleftrightarrow> (\<exists>t. r = Inr (t, d'))" for r :: "(template \<times> db) result" and d'
    by (cases r) auto
  have one: "\<exists>o1. client_op sv ev o1 \<and> db_exec o1 d = Inr d'" if "save_template t new d = Inr d'" for t new d d'
    using that by (intro exI [of _ "Save_template t new"]) simp
  show "client_writes sv ev (db_write (\<lambda>d. map_sum (\<lambda>e. e) snd (create_template i now req d)))"
    by (rule writing_write) (auto simp: * create_template_def bind_res_eq_Inr intro: one)
  show "client_writes sv ev (db_write (\<lambda>d. map_sum (\<lambda>e. e) snd (update_template i now req d)))"
    by (rule writing_write) (auto simp: * update_template_def bind_res_eq_Inr intro: one)
qed

text \<open>The step function as actions.\<close>

lemma service_exec_acts:
  "service_exec sv su ev List_cas_op = (\<lambda>d. forget (service_list_cas sv ev d))"
  "service_exec sv su ev (Get_ca_op i) = (\<lambda>d. forget (service_get_ca sv ev 0 i d))"
  "service_exec sv su ev (Create_ca_op cr) = (\<lambda>d. forget (create_ca sv ev cr d))"
  "service_exec sv su ev (Import_ca_op wanted ir) = (\<lambda>d. forget (import_ca_with_id sv ev wanted ir d))"
  "service_exec sv su ev (Renew_ca_op i days) = (\<lambda>d. forget (renew_ca sv ev i days d))"
  "service_exec sv su ev (Download_ca_op i kind) = (\<lambda>d. forget (download_ca sv ev i kind d))"
  "service_exec sv su ev (Create_cert_op c ccr) = (\<lambda>d. forget (create_cert sv ev c ccr d))"
  "service_exec sv su ev (Import_cert_op c wanted icr csr) =
     (\<lambda>d. forget (import_cert_with sv ev c wanted icr csr d))"
  "service_exec sv su ev (Renew_cert_op c i days) = (\<lambda>d. forget (renew_cert sv ev c i days d))"
  "service_exec sv su ev (Revoke_cert_op c i reason) = (\<lambda>d. forget (revoke_cert sv ev c i reason d))"
  "service_exec sv su ev Repair_op = (\<lambda>d. forget (repair_stale_metadata sv ev d))"
  "service_exec sv su ev (Import_backup_op b) =
     import_backup_repaired sv ev (su_decode su) (ev_clock ev 0) b"
  "service_exec sv su ev (Create_user_op ur) =
     db_write (create_user (su_reserved su) (su_hash su) (ev_id ev) (ev_clock ev 0) ur)"
  "service_exec sv su ev (Create_template_op tr) =
     db_write (\<lambda>d. map_sum (\<lambda>e. e) snd (create_template (ev_id ev) (ev_clock ev 0) tr d))"
  "service_exec sv su ev (Update_template_op i tr) =
     db_write (\<lambda>d. map_sum (\<lambda>e. e) snd (update_template i (ev_clock ev 0) tr d))"
  "service_exec sv su ev (Delete_ca_op i) = db_write (db_exec (Delete_ca (ev_clock ev 0) i))"
  "service_exec sv su ev (Restore_ca_op i) = db_write (db_exec (Restore_ca (ev_clock ev 0) i))"
  "service_exec sv su ev (Delete_cert_op c i) = db_write (db_exec (Delete_cert (ev_clock ev 0) c i))"
  "service_exec sv su ev (Restore_cert_op c i) = db_write (db_exec (Restore_cert (ev_clock ev 0) c i))"
  "service_exec sv su ev (Delete_user_op i) = db_write (db_exec (Delete_user i))"
  "service_exec sv su ev (Delete_template_op i) = db_write (db_exec (Delete_template i))"
  "service_exec sv su ev Nuke_op = db_write (db_exec Nuke)"
  by (rule ext; simp add: db_write_def)+

lemma one_op_writes: "ok o1 \<Longrightarrow> writing ok (db_write (db_exec o1))"
  by (rule writing_exec) simp_all

lemma service_exec_writes: "client_writes sv ev (service_exec sv su ev opn)"
  by (cases opn)
    (simp_all only: service_exec_acts forget_writes list_cas_writes quiet_client_writes(4) create_ca_writes
      import_ca_writes renew_ca_writes download_ca_writes create_cert_writes import_cert_writes
      renew_cert_writes revoke_cert_writes repair_writes import_backup_writes create_user_writes
      template_writes one_op_writes client_op_simps)

section \<open>The lock protocol\<close>

text \<open>
  What one signing operation issues: nothing; or it takes the lock of the CA, and then
  either commits one transaction that signs under it, or gives the lock back (or, when
  the answer could not be read after the commit, both).
\<close>

fun takes_lock :: "string \<Rightarrow> string \<Rightarrow> db_op \<Rightarrow> bool" where
  "takes_lock c p (Acquire now b q ttl) \<longleftrightarrow> b = c \<and> q = p \<and> ttl = 120000"
| "takes_lock c p _ \<longleftrightarrow> False"

fun lock_protocol :: "string \<Rightarrow> string \<Rightarrow> db_op list \<Rightarrow> bool" where
  "lock_protocol c p [] \<longleftrightarrow> True"
| "lock_protocol c p [a, b] \<longleftrightarrow> takes_lock c p a \<and> (b = Release c p \<or> signs c p b)"
| "lock_protocol c p [a, b, e] \<longleftrightarrow> takes_lock c p a \<and> signs c p b \<and> e = Release c p"
| "lock_protocol c p _ \<longleftrightarrow> False"

fun signing_target :: "service_op \<Rightarrow> string option" where
  "signing_target (Create_cert_op c req) = Some c"
| "signing_target (Import_cert_op c wanted req csr) = Some c"
| "signing_target (Renew_cert_op c i days) = Some c"
| "signing_target (Revoke_cert_op c i reason) = Some c"
| "signing_target (Renew_ca_op c days) = Some c"
| "signing_target _ = None"

definition by_protocol :: "string \<Rightarrow> string \<Rightarrow> 'a db_act \<Rightarrow> bool" where
  "by_protocol c p m \<longleftrightarrow> (\<forall>d. \<exists>ops. lock_protocol c p ops \<and> snd (m d) = db_run ops d)"

lemma protocol_locked:
  assumes "\<And>d x d'. prep d = Inr x \<Longrightarrow> commit x d = Inr d' \<Longrightarrow>
      \<exists>w. signs c (ev_owner ev) w \<and> db_exec w d = Inr d'"
  shows "by_protocol c (ev_owner ev) (with_ca_lock ev n c (\<lambda>d. commit_then (prep d) commit final d))"
  unfolding by_protocol_def
proof
  fix d
  let ?p = "ev_owner ev" and ?m = "with_ca_lock ev n c (\<lambda>d. commit_then (prep d) commit final d)"
  let ?a = "Acquire (ev_clock ev n) c ?p 120000"
  consider (busy) e where "acquire_ca_lock (ev_clock ev n) c ?p 120000 d = Inl e"
    | (failed) d1 e where "acquire_ca_lock (ev_clock ev n) c ?p 120000 d = Inr d1"
        "commit_then (prep d1) commit final d1 = (Inl e, d1)"
    | (committed) d1 x d2 where "acquire_ca_lock (ev_clock ev n) c ?p 120000 d = Inr d1"
        "prep d1 = Inr x" "commit x d1 = Inr d2"
  proof (cases "acquire_ca_lock (ev_clock ev n) c ?p 120000 d")
    case (Inr d1)
    then show thesis
    proof (cases "prep d1")
      case (Inl e)
      then show thesis using Inr failed by (simp add: commit_then_def)
    next
      case (Inr x)
      then show thesis
        using \<open>acquire_ca_lock _ _ _ _ _ = Inr d1\<close> failed committed by (cases "commit x d1") (auto simp: commit_then_def)
    qed
  qed (rule busy)
  then show "\<exists>ops. lock_protocol c ?p ops \<and> snd (?m d) = db_run ops d"
  proof cases
    case busy
    then show ?thesis by (intro exI [of _ "[]"]) (simp add: with_ca_lock_def)
  next
    case failed
    then show ?thesis
      by (intro exI [of _ "[?a, Release c ?p]"]) (simp add: with_ca_lock_def db_commit_def)
  next
    case (committed d1 x d2)
    then obtain w where w: "signs c ?p w" "db_exec w d1 = Inr d2" using assms by blast
    show ?thesis
    proof (cases "final d2")
      case (Inl e)
      then show ?thesis using committed w
        by (intro exI [of _ "[?a, w, Release c ?p]"])
          (simp add: with_ca_lock_def commit_then_def db_commit_def)
    next
      case (Inr b)
      then show ?thesis using committed w
        by (intro exI [of _ "[?a, w]"]) (simp add: with_ca_lock_def commit_then_def db_commit_def)
    qed
  qed
qed

lemma protocol_checked: "(\<And>x. by_protocol c p (f x)) \<Longrightarrow> by_protocol c p (\<lambda>d. checked (r d) f d)"
  unfolding by_protocol_def checked_def
  by (auto split: sum.splits intro: exI [of _ "[]"])

lemma create_cert_protocol: "by_protocol c (ev_owner ev) (create_cert sv ev c req)"
  unfolding create_cert_def [abs_def] issue_cert_def
  by (intro protocol_checked protocol_locked) (auto intro!: exI [of _ "Insert_cert _ _ _ _ _"])

lemma import_cert_protocol: "by_protocol c (ev_owner ev) (import_cert_with sv ev c wanted req csr)"
  unfolding import_cert_with_def [abs_def] case_prod_unfold
  by (intro protocol_checked protocol_locked)
    (auto simp: bind_res_eq_Inr dest!: import_work_ids intro!: exI [of _ "Insert_cert _ _ _ _ _"])

lemma renew_cert_protocol: "by_protocol c (ev_owner ev) (renew_cert sv ev c i days)"
  unfolding renew_cert_def [abs_def]
  by (intro protocol_checked protocol_locked) (auto intro!: exI [of _ "Update_cert _ _ _ _ _ _ _ _ _ _"])

lemma revoke_cert_protocol: "by_protocol c (ev_owner ev) (revoke_cert sv ev c i reason)"
  unfolding revoke_cert_def [abs_def]
  by (intro protocol_checked protocol_locked) (auto intro!: exI [of _ "Revoke_cert _ _ _ _ _ _ _ _"])

lemma renew_ca_locked_protocol: "by_protocol c (ev_owner ev) (renew_ca_locked sv ev c days plan)"
  unfolding renew_ca_locked_def
  by (intro protocol_locked) (auto intro!: exI [of _ "Renew_ca _ _ _ _ _ _ _ _ _"])

text \<open>A signing operation, then operations that do not sign.\<close>

lemma protocol_only:
  assumes "by_protocol c p m"
  shows "\<exists>ops rest. lock_protocol c p ops \<and> list_all (\<lambda>o1. signer o1 = None) rest \<and>
    snd (forget (m d)) = db_run (ops @ rest) d"
proof -
  obtain ops where "lock_protocol c p ops" "snd (m d) = db_run ops d"
    using assms unfolding by_protocol_def by blast
  then show ?thesis by (intro exI [of _ ops] exI [of _ "[]"]) (simp add: forget_def)
qed

lemma renew_ca_protocol:
  "\<exists>ops rest. lock_protocol c (ev_owner ev) ops \<and> list_all (\<lambda>o1. signer o1 = None) rest \<and>
    snd (forget (renew_ca sv ev c days d)) = db_run (ops @ rest) d"
proof (cases "plan_ca_renewal c days d")
  case (Inl e)
  then have "snd (forget (renew_ca sv ev c days d)) = db_run ([] @ []) d"
    by (simp add: renew_ca_def db_then_def db_read_def forget_def)
  then show ?thesis by (intro exI [of _ "[]"]) simp
next
  case (Inr plan)
  let ?rest = "\<lambda>_. db_then (service_get_ca sv ev 3 c) (\<lambda>ca.
     db_then (prebuild_truststore sv ev 4 c (v_cert_pem ca)) (\<lambda>_. db_give ca))"
  obtain ops where ops: "lock_protocol c (ev_owner ev) ops"
    "snd (renew_ca_locked sv ev c days plan d) = db_run ops d"
    using renew_ca_locked_protocol unfolding by_protocol_def by blast
  have q: "quiet_writes sv ev (?rest u)" for u by (intro writing_intros)
  have "\<exists>rest. list_all (\<lambda>o1. signer o1 = None) rest \<and>
      snd (db_then (renew_ca_locked sv ev c days plan) ?rest d) = db_run rest (db_run ops d)"
  proof (cases "renew_ca_locked sv ev c days plan d")
    case (Pair r d1)
    then show ?thesis
    proof (cases r)
      case (Inl e)
      with Pair ops(2) show ?thesis by (intro exI [of _ "[]"]) (simp add: db_then_def)
    next
      case (Inr u)
      obtain rest where "list_all (quiet_op sv ev) rest" "snd (?rest u d1) = db_run rest d1"
        using q unfolding writing_def by blast
      with Pair Inr ops(2) show ?thesis
        by (intro exI [of _ rest]) (auto simp: db_then_def quiet_op_def list_all_iff)
    qed
  qed
  moreover have "snd (forget (renew_ca sv ev c days d)) =
      snd (db_then (renew_ca_locked sv ev c days plan) ?rest d)"
    using Inr by (simp add: renew_ca_def db_then_def [of "db_read _"] db_read_def forget_def)
  ultimately show ?thesis using ops(1) by (auto simp: db_run_append)
qed

lemma signing_protocol:
  assumes "signing_target opn = Some c"
  shows "\<exists>ops rest. lock_protocol c (ev_owner ev) ops \<and> list_all (\<lambda>o1. signer o1 = None) rest \<and>
    snd (service_exec sv su ev opn d) = db_run (ops @ rest) d"
proof -
  note protocols = protocol_only [OF create_cert_protocol] protocol_only [OF import_cert_protocol]
    protocol_only [OF renew_cert_protocol] protocol_only [OF revoke_cert_protocol] renew_ca_protocol
  show ?thesis
    using assms
    by (cases opn) (simp_all only: service_exec.simps signing_target.simps option.inject protocols
        option.distinct)
qed


section \<open>States the clients can reach\<close>

text \<open>
  Any number of clients, their transactions in any order: each step is one transaction
  that some operation of the service may issue. A service operation is a run of steps.
\<close>

inductive client_reachable :: "tools \<Rightarrow> db \<Rightarrow> bool" for t :: tools where
  start: "client_reachable t empty_db"
| step: "client_reachable t d \<Longrightarrow> sv_tools sv = t \<Longrightarrow> client_op sv ev o1 \<Longrightarrow> db_exec o1 d = Inr d' \<Longrightarrow>
    client_reachable t d'"

lemma client_reachable_run:
  "client_reachable (sv_tools sv) d \<Longrightarrow> list_all (client_op sv ev) ops \<Longrightarrow>
   client_reachable (sv_tools sv) (db_run ops d)"
proof (induction ops arbitrary: d)
  case Nil
  then show ?case by simp
next
  case (Cons o1 ops)
  have "client_reachable (sv_tools sv) (db_commit o1 d)"
    using Cons.prems client_reachable.step [OF _ refl]
    by (cases rule: db_commit_cases [of o1 d]) auto
  then show ?case using Cons by simp
qed

lemma service_exec_reachable:
  "client_reachable (sv_tools sv) d \<Longrightarrow> client_reachable (sv_tools sv) (snd (service_exec sv su ev opn d))"
  using service_exec_writes client_reachable_run unfolding writing_def by metis

lemma client_reachable_inv:
  assumes "client_reachable t d"
  shows "schema_ok d \<and> truststores_ok (built t) d"
  using assms
proof induction
  case start
  have "cas empty_db = []" by (simp add: empty_db_def)
  then show ?case by (simp add: schema_ok_empty truststores_ok_def)
next
  case (step d sv ev o1 d')
  have "\<And>c ts. sets_truststore o1 c ts \<Longrightarrow> built t c ts"
    using step.hyps(2,3) by (auto simp: client_op_def)
  then show ?case
    using step exec_truststores_ok [of o1 d d' "built t"] db_exec_schema_ok by blast
qed

end
