(* ===== verification/Ca_Facts.thy ===== *)
theory Ca_Facts
  imports Service_Ops Signing_Facts
begin

text \<open>
  What the operations on certificate authorities have done when they succeed: the rows
  they leave, the keys they keep, and the bundles rebuilt by a renewal.
\<close>

section \<open>Inversion\<close>

named_theorems db_act_simps

lemma db_then_Inr [db_act_simps]:
  "db_then m f d = (Inr b, d') \<longleftrightarrow> (\<exists>a d1. m d = (Inr a, d1) \<and> f a d1 = (Inr b, d'))"
  by (auto simp: db_then_def split: prod.splits sum.splits)

lemma db_read_Inr [db_act_simps]: "db_read f d = (Inr a, d') \<longleftrightarrow> f d = Inr a \<and> d' = d"
  by (auto simp: db_read_def)

lemma db_write_Inr [db_act_simps]: "db_write f d = (Inr u, d') \<longleftrightarrow> f d = Inr d'"
  by (auto simp: db_write_def split: sum.splits)

lemma db_give_Inr [db_act_simps]: "db_give a d = (Inr b, d') \<longleftrightarrow> b = a \<and> d' = d"
  by (auto simp: db_give_def)

section \<open>The renewal of a CA under its lock\<close>

interpretation ca_renewing: signing_commit c p "\<lambda>_. True"
  "\<lambda>(pem, p12, crl, bundles). renew_ca_with_state now c pem p12 it vd crl bundles p"
  "\<lambda>_. Inr ()" for c p now it vd
  by unfold_locales (auto simp: renew_ca_Inr release_holds split: prod.splits)

lemma renew_ca_locked_failed:
  assumes "schema_ok d" and "\<not> db_holds d c (ev_owner ev)"
    and "renew_ca_locked sv ev c days plan d = (Inl e, d')"
  shows "same_data d d' \<and> \<not> db_holds d' c (ev_owner ev)"
  using ca_renewing.failed [OF assms(1) refl assms(2) TrueI assms(3) [unfolded renew_ca_locked_def]]
  by simp

lemma list_res_keys:
  assumes "map_res (\<lambda>(i, k). bind_res (f k) (\<lambda>b. Inr (i, b))) xs = Inr ys"
  shows "map fst ys = map fst xs" and "(i, k) \<in> set xs \<Longrightarrow> \<exists>b. (i, b) \<in> set ys \<and> f k = Inr b"
proof -
  have "map fst ys = map fst xs \<and> (\<forall>x \<in> set xs. \<exists>b. (fst x, b) \<in> set ys \<and> f (snd x) = Inr b)"
    using assms by (induction xs arbitrary: ys) (fastforce simp: bind_res_eq_Inr)+
  then show "map fst ys = map fst xs" "(i, k) \<in> set xs \<Longrightarrow> \<exists>b. (i, b) \<in> set ys \<and> f k = Inr b"
    by force+
qed

text \<open>Bundles put one after the other: each row gets the one with its id.\<close>

lemma put_bundles_other:
  "i \<notin> fst ` set bs \<Longrightarrow> r \<in> set (fold (put_bundle now c) bs t) \<Longrightarrow> cer_id r = i \<Longrightarrow> r \<in> set t"
  by (induction bs arbitrary: t) (fastforce simp: put_bundle_def set_update_where cer_id_def)+

lemma put_bundle_row:
  assumes "r \<in> set (put_bundle now c b t)" and "cer_id r = fst b" and "cer_ca_id r = c"
  shows "k_bundle_zip (cer_secrets r) = snd b"
proof -
  let ?f = "\<lambda>s. s\<lparr>cer_secrets := (cer_secrets s)\<lparr>k_bundle_zip := snd b\<rparr>, cer_updated_at := now\<rparr>"
  let ?p = "\<lambda>s. cer_id s = fst b \<and> cer_ca_id s = c"
  obtain s where s: "r = (if ?p s then ?f s else s)"
    using assms(1) unfolding put_bundle_def set_update_where by (rule imageE)
  have "?p s"
  proof (rule ccontr)
    assume n: "\<not> ?p s"
    then have "r = s" unfolding s by (rule if_not_P)
    with n assms(2,3) show False by blast
  qed
  with s show ?thesis by simp
qed

lemma put_bundles_row:
  assumes "distinct (map fst bs)" and "(i, z) \<in> set bs" and "r \<in> set (fold (put_bundle now c) bs t)"
    and "cer_id r = i" and "cer_ca_id r = c"
  shows "k_bundle_zip (cer_secrets r) = z"
  using assms
proof (induction bs arbitrary: t)
  case Nil
  then show ?case by simp
next
  case (Cons b bs)
  show ?case
  proof (cases "b = (i, z)")
    case False
    have d: "distinct (map fst bs)" using Cons.prems(1) by simp
    have m: "(i, z) \<in> set bs" using Cons.prems(2) False by (metis set_ConsD)
    have "r \<in> set (fold (put_bundle now c) bs (put_bundle now c b t))" using Cons.prems(3) by simp
    with d m show ?thesis using Cons.prems(4,5) by (rule Cons.IH)
  next
    case True
    then have "i \<notin> fst ` set bs" using Cons.prems(1) by auto
    then have "r \<in> set (put_bundle now c b t)"
      using Cons.prems(3,4) by (auto intro: put_bundles_other)
    then have "cer_id r = fst b \<Longrightarrow> cer_ca_id r = c \<Longrightarrow> k_bundle_zip (cer_secrets r) = snd b"
      by (rule put_bundle_row)
    then show ?thesis unfolding True fst_conv snd_conv using Cons.prems(4,5) by blast
  qed
qed

text \<open>Nothing of a certificate but its bundle is touched.\<close>

definition rebundled :: "cert_row \<Rightarrow> cert_row \<Rightarrow> bool" where
  "rebundled s r \<longleftrightarrow> cer_id r = cer_id s \<and> cer_ca_id r = cer_ca_id s \<and>
     cer_deleted r = cer_deleted s \<and> cer_revoked_at r = cer_revoked_at s \<and>
     (cer_secrets r)\<lparr>k_bundle_zip := []\<rparr> = (cer_secrets s)\<lparr>k_bundle_zip := []\<rparr>"

lemma put_bundle_rebundled: "r \<in> set (put_bundle now c b t) \<Longrightarrow> \<exists>s \<in> set t. rebundled s r"
proof -
  let ?f = "\<lambda>s. s\<lparr>cer_secrets := (cer_secrets s)\<lparr>k_bundle_zip := snd b\<rparr>, cer_updated_at := now\<rparr>"
  have "rebundled s s" "rebundled s (?f s)" for s by (simp_all add: rebundled_def cer_id_def)
  moreover assume "r \<in> set (put_bundle now c b t)"
  then obtain s where "s \<in> set t" "r = s \<or> r = ?f s" by (auto simp: put_bundle_def set_update_where)
  ultimately show ?thesis by metis
qed

lemma put_bundles_kept:
  "r \<in> set (fold (put_bundle now c) bs t) \<Longrightarrow> \<exists>s \<in> set t. rebundled s r"
proof (induction bs arbitrary: t)
  case Nil
  then show ?case by (auto simp: rebundled_def)
next
  case (Cons b bs)
  then have "r \<in> set (fold (put_bundle now c) bs (put_bundle now c b t))" by simp
  then obtain s where s: "s \<in> set (put_bundle now c b t)" "rebundled s r" using Cons.IH by blast
  then obtain s' where "s' \<in> set t" "rebundled s' s" using put_bundle_rebundled by blast
  with s(2) show ?case unfolding rebundled_def by metis
qed

section \<open>What follows a renewal\<close>

text \<open>Reading a CA and building its truststore leave its secrets and validity alone.\<close>

definition ca_settled :: "ca_row \<Rightarrow> ca_row \<Rightarrow> bool" where
  "ca_settled r r' \<longleftrightarrow> car_secrets r' = car_secrets r \<and> car_id r' = car_id r \<and>
     car_deleted r' = car_deleted r \<and> m_common_name (car_meta r') = m_common_name (car_meta r) \<and>
     m_issue_time (car_meta r') = m_issue_time (car_meta r) \<and>
     m_valid_days (car_meta r') = m_valid_days (car_meta r)"

definition settled :: "db \<Rightarrow> db \<Rightarrow> bool" where
  "settled d d' \<longleftrightarrow> certs d' = certs d \<and> ca_locks d' = ca_locks d \<and> users d' = users d \<and>
     templates d' = templates d \<and> list_all2 ca_settled (cas d) (cas d')"

lemma settled_refl [simp]: "settled d d"
  by (simp add: settled_def ca_settled_def list_all2_refl)

lemma settled_trans: "settled a b \<Longrightarrow> settled b c \<Longrightarrow> settled a c"
  unfolding settled_def by (auto elim: list_all2_trans [rotated -2] simp: ca_settled_def)

lemma settled_update:
  "(\<And>r. p r \<Longrightarrow> ca_settled r (f r)) \<Longrightarrow> settled d (d\<lparr>cas := update_where p f (cas d)\<rparr>)"
  by (auto simp: settled_def update_where_def list_all2_map2 ca_settled_def intro: list_all2_refl)

lemma settled_then:
  assumes "settled d (snd (m d))" and "\<And>a d1. m d = (Inr a, d1) \<Longrightarrow> settled d1 (snd (f a d1))"
  shows "settled d (snd (db_then m f d))"
  using assms by (cases "m d") (auto simp: db_then_def intro: settled_trans split: sum.splits)

lemma settled_read [simp]: "settled d (snd (db_read f d))" "settled d (snd (db_give a d))"
  by (simp_all add: db_read_def db_give_def)

lemma build_truststore_settled: "settled d (snd (build_truststore sv ev n c pem d))"
  unfolding build_truststore_def
  by (intro settled_then settled_read)
    (auto simp: db_write_def set_ca_truststore_def ca_settled_def intro!: settled_update)

lemma repair_if_needed_settled: "settled d (snd (repair_ca_metadata_if_needed sv ev n ca d))"
proof -
  have "settled d (snd (db_write (update_ca_metadata now i kp g) d))" for now i kp g d
    by (auto simp: db_write_def update_ca_metadata_def ca_settled_def car_id_def intro!: settled_update)
  then show ?thesis
    unfolding repair_ca_metadata_if_needed_def Let_def
    by (auto intro!: settled_then)
qed

lemma service_get_ca_settled: "settled d (snd (service_get_ca sv ev n i d))"
  unfolding service_get_ca_def by (intro settled_then settled_read repair_if_needed_settled)

text \<open>Only the key profile and the digest of the CA shown may differ from the stored ones.\<close>

definition same_ca_view :: "certificate_authority \<Rightarrow> certificate_authority \<Rightarrow> bool" where
  "same_ca_view ca v \<longleftrightarrow> m_id v = m_id ca \<and> m_common_name v = m_common_name ca \<and>
     m_issue_time v = m_issue_time ca \<and> m_valid_days v = m_valid_days ca \<and>
     v_cert_pem v = v_cert_pem ca"

lemma same_ca_view_simps [simp]:
  "same_ca_view ca ca" "same_ca_view ca (with_ca_crl_url sv v) = same_ca_view ca v"
  "same_ca_view ca (ca\<lparr>m_key_profile := k, m_digest_algorithm := g\<rparr>)"
  by (simp_all add: same_ca_view_def with_ca_crl_url_def)

lemma repair_if_needed_view:
  assumes "repair_ca_metadata_if_needed sv ev n ca d = (Inr v, d')"
  shows "same_ca_view ca v"
proof (cases "is_supported_key_profile (m_key_profile ca) \<and>
    \<not> eq_ignore_ascii_case (m_digest_algorithm ca) ''imported''")
  case True
  with assms have "v = ca" unfolding repair_ca_metadata_if_needed_def if_P [OF True] by (simp add: db_give_Inr)
  then show ?thesis by simp
next
  case False
  from assms show ?thesis
    unfolding repair_ca_metadata_if_needed_def if_not_P [OF False] db_then_Inr Let_def
    by (elim exE conjE, split if_split_asm) (auto simp only: db_act_simps same_ca_view_simps)
qed

lemma service_get_ca_view:
  assumes "service_get_ca sv ev n i d = (Inr v, d')"
  obtains ca where "get_ca i d = Inr ca" and "same_ca_view ca v"
  using assms unfolding service_get_ca_def db_act_simps
  by (elim exE conjE) (use repair_if_needed_view in force)

lemma settled_row:
  "settled d d' \<Longrightarrow> r \<in> set (cas d) \<Longrightarrow> \<exists>r' \<in> set (cas d'). ca_settled r r'"
  unfolding settled_def by (metis in_set_conv_nth list_all2_conv_all_nth)

lemma settled_schema_ok: "schema_ok d \<Longrightarrow> settled d d' \<Longrightarrow> schema_ok d'"
proof -
  assume ok: "schema_ok d" and s: "settled d d'"
  have "map car_id xs = map car_id ys" if "list_all2 ca_settled xs ys" for xs ys
    using that by (induction rule: list_all2_induct) (simp_all add: ca_settled_def)
  then have "map car_id (cas d') = map car_id (cas d)" using s by (metis settled_def)
  with ok s show ?thesis using schema_ok_cong [of d' d] by (simp add: settled_def)
qed

lemma settled_get_ca:
  assumes "schema_ok d" and s: "settled d d'" and "get_ca c d' = Inr v'"
  shows "\<exists>v. get_ca c d = Inr v \<and> m_common_name v' = m_common_name v \<and>
    m_issue_time v' = m_issue_time v \<and> m_valid_days v' = m_valid_days v"
proof -
  obtain r' where r': "r' \<in> set (cas d')" "active_ca c r'" "v' = ca_view d' r'"
    using assms(3) unfolding get_ca_Inr [OF settled_schema_ok [OF assms(1,2)]] by blast
  obtain r where "r \<in> set (cas d)" and sr: "ca_settled r r'"
    using s r'(1) unfolding settled_def by (metis in_set_conv_nth list_all2_conv_all_nth)
  moreover have "active_ca c r" using sr r'(2) by (simp add: ca_settled_def active_ca_def)
  ultimately have "get_ca c d = Inr (ca_view d r)" using get_ca_Inr [OF assms(1)] by blast
  then show ?thesis using sr r'(3) by (simp add: ca_settled_def ca_view_def subject_meta.defs)
qed

section \<open>Renewed CAs\<close>

lemma renew_ca_locked_Inr:
  assumes "schema_ok d" and "renew_ca_locked sv ev c days plan d = (Inr u, d')"
  obtains s pem p12 bundles r where "get_ca_secrets c d = Inr s"
    and "in_workdir ev 0 (renew_ca_work sv ev (fst plan) days (snd plan) s) = Inr (pem, p12)"
    and "renewed_bundles sv c pem d = Inr bundles" and "schema_ok d'"
    and "certs d' = fold (put_bundle (ev_clock ev 2) c) bundles (certs d)"
    and "r \<in> set (cas d')" and "active_ca c r" and "s_cert_pem (car_secrets r) = pem"
    and "s_key_pem (car_secrets r) = s_key_pem s" and "s_password (car_secrets r) = s_password s"
    and "m_issue_time (car_meta r) = ev_clock ev 1" and "m_valid_days (car_meta r) = days"
    and "\<not> db_holds d' c (ev_owner ev)"
proof -
  obtain d1 x where a: "acquire_ca_lock (ev_clock ev 0) c (ev_owner ev) 120000 d = Inr d1"
    and x: "prepare_ca_renewal sv ev c (fst plan) days (snd plan) d1 = Inr x"
    and w: "(\<lambda>(pem, p12, crl, bundles). renew_ca_with_state (ev_clock ev 2) c pem p12 (ev_clock ev 1)
        days crl bundles (ev_owner ev)) x d1 = Inr d'"
    and h: "\<not> db_holds d' c (ev_owner ev)"
    by (rule ca_renewing.succeeded [OF refl TrueI assms(2) [unfolded renew_ca_locked_def]]) (rule that; simp)
  obtain pem p12 crl bundles where xs: "x = (pem, p12, crl, bundles)" by (cases x) auto
  note keep = acquire_keeps [OF a] and ok1 = lock_taken_ok [OF a assms(1)]
  have ok: "schema_ok d'"
    using w xs ok1 db_exec_schema_ok [of "Renew_ca (ev_clock ev 2) c pem p12 (ev_clock ev 1) days crl
        bundles (ev_owner ev)"] by simp
  obtain s where s: "get_ca_secrets c d1 = Inr s"
    "in_workdir ev 0 (renew_ca_work sv ev (fst plan) days (snd plan) s) = Inr (pem, p12)"
    "renewed_bundles sv c pem d1 = Inr bundles"
    using x xs by (auto simp: prepare_ca_renewal_def bind_res_eq_Inr split: prod.splits)
  have "get_ca_secrets c d = Inr s" using s(1) keep get_ca_secrets_cong by metis
  moreover have "renewed_bundles sv c pem d = Inr bundles"
    using s(3) keep by (simp add: renewed_bundles_def list_cert_secrets_for_ca_def)
  moreover have "certs d' = fold (put_bundle (ev_clock ev 2) c) bundles (certs d)"
    using w xs keep by (auto simp: renew_ca_Inr)
  moreover obtain r where "r \<in> set (cas d')" "active_ca c r" "s_cert_pem (car_secrets r) = pem"
    "s_key_pem (car_secrets r) = s_key_pem s" "s_password (car_secrets r) = s_password s"
    "m_issue_time (car_meta r) = ev_clock ev 1" "m_valid_days (car_meta r) = days"
  proof -
    obtain r0 where r0: "r0 \<in> set (cas d1)" "active_ca c r0" "s = car_secrets r0"
      using s(1) by (auto simp: get_ca_secrets_Inr [OF ok1])
    let ?f = "renewed_ca pem p12 (ev_clock ev 1) days (ev_clock ev 2)"
    let ?g = "\<lambda>r. case crl of None \<Rightarrow> r | Some (der, num) \<Rightarrow> put_ca_crl der num (ev_clock ev 2) r"
    have "cas d' = crl_change c crl (ev_clock ev 2) (update_where (active_ca c) ?f (cas d1))"
      using w xs by (auto simp: renew_ca_Inr)
    moreover have "?f r0 \<in> set (update_where (active_ca c) ?f (cas d1))"
      using r0 by (auto simp: set_update_where)
    ultimately have "?g (?f r0) \<in> set (cas d')"
      using r0(2) by (force simp: crl_change_def set_update_where active_ca_def split: option.splits)
    moreover have "active_ca c (?g (?f r0))"
      using r0(2) by (auto simp: active_ca_def renewed_ca_def put_ca_crl_def car_id_def split: option.splits)
    ultimately show thesis
      using r0(3) by (intro that [of "?g (?f r0)"])
        (auto simp: renewed_ca_def put_ca_crl_def split: option.splits)
  qed
  ultimately show ?thesis using s(2) ok h by (intro that)
qed

lemma renew_ca_Inr_parts:
  assumes "renew_ca sv ev c days d = (Inr v, d')"
  obtains plan d1 where "plan_ca_renewal c days d = Inr plan"
    and "renew_ca_locked sv ev c days plan d = (Inr (), d1)" and "settled d1 d'"
    and "\<exists>ca. get_ca c d1 = Inr ca \<and> same_ca_view ca v"
proof -
  obtain plan u d1 d2 w where "plan_ca_renewal c days d = Inr plan"
    and "renew_ca_locked sv ev c days plan d = (Inr u, d1)"
    and g: "service_get_ca sv ev 3 c d1 = (Inr v, d2)"
    and p: "prebuild_truststore sv ev 4 c (v_cert_pem v) d2 = (Inr w, d')"
    using assms unfolding renew_ca_def db_act_simps by (elim exE conjE) auto
  moreover have "settled d1 d2" using service_get_ca_settled [of d1 sv ev 3 c] g by simp
  moreover have "settled d2 d'"
    using p build_truststore_settled [of d2 sv ev 4 c "v_cert_pem v"] by (auto simp: prebuild_truststore_def)
  ultimately show ?thesis using g settled_trans
    by (intro that [of plan d1]) (auto elim: service_get_ca_view)
qed


lemma settled_secrets: "settled d d' \<Longrightarrow> get_ca_secrets c d' = get_ca_secrets c d"
proof -
  assume "settled d d'"
  then have "list_all2 ca_settled (cas d) (cas d')" by (simp add: settled_def)
  then have "map_option car_secrets (find (active_ca c) (cas d')) =
      map_option car_secrets (find (active_ca c) (cas d))"
    by (induction rule: list_all2_induct) (auto simp: ca_settled_def active_ca_def)
  then show ?thesis by (simp add: get_ca_secrets_def)
qed

lemma rebundled_trans: "rebundled a b \<Longrightarrow> rebundled b c \<Longrightarrow> rebundled a c"
  by (simp add: rebundled_def)

lemma put_bundles_keeps: "s \<in> set t \<Longrightarrow> \<exists>r \<in> set (fold (put_bundle now c) bs t). rebundled s r"
proof (induction bs arbitrary: s t)
  case Nil
  then show ?case by (auto simp: rebundled_def)
next
  case (Cons b bs)
  let ?f = "\<lambda>s. s\<lparr>cer_secrets := (cer_secrets s)\<lparr>k_bundle_zip := snd b\<rparr>, cer_updated_at := now\<rparr>"
  have "rebundled s s" "rebundled s (?f s)" by (simp_all add: rebundled_def cer_id_def)
  moreover have "s \<in> set (put_bundle now c b t) \<or> ?f s \<in> set (put_bundle now c b t)"
    using Cons.prems by (auto simp: put_bundle_def set_update_where)
  ultimately obtain s1 where "s1 \<in> set (put_bundle now c b t)" "rebundled s s1" by blast
  moreover from Cons.IH [OF this(1)] obtain r where
    "r \<in> set (fold (put_bundle now c) bs (put_bundle now c b t))" "rebundled s1 r" by blast
  ultimately show ?case using rebundled_trans by auto
qed

lemma renewed_bundles_row:
  assumes "schema_ok d" and "renewed_bundles sv c pem d = Inr bundles"
    and r0: "r0 \<in> set (certs d)" and "cer_ca_id r0 = c"
  obtains r where "r \<in> set (fold (put_bundle now c) bundles (certs d))" and "rebundled r0 r"
    and "build_bundle (sv_tools sv) (cer_secrets r) pem = Inr (k_bundle_zip (cer_secrets r))"
proof -
  obtain r where r: "r \<in> set (fold (put_bundle now c) bundles (certs d))" and rb: "rebundled r0 r"
    using put_bundles_keeps [OF r0] by blast
  let ?l = "order_by cer_id (filter (\<lambda>r. cer_ca_id r = c) (certs d))"
  note keys = list_res_keys [OF assms(2) [unfolded renewed_bundles_def list_cert_secrets_for_ca_def]]
  have ids: "cer_id r = cer_id r0" "cer_ca_id r = c" using rb assms(4) by (simp_all add: rebundled_def)
  then have "(cer_id r0, cer_secrets r0) \<in> set (map (\<lambda>r. (cer_id r, cer_secrets r)) ?l)"
    using r0 assms(4) by (auto simp: order_by_def)
  from keys(2) [OF this] obtain b where b: "(cer_id r0, b) \<in> set bundles"
    "build_bundle (sv_tools sv) (cer_secrets r0) pem = Inr b" by blast
  have "distinct (map cer_id (certs d))" using assms(1) by (simp add: schema_ok_def keys_ok_def)
  then have "distinct (map cer_id ?l)" by (simp add: order_by_def distinct_map inj_on_def)
  then have "distinct (map fst bundles)" unfolding keys(1) by (simp add: comp_def)
  from put_bundles_row [OF this b(1) r ids]
  have z: "k_bundle_zip (cer_secrets r) = b" .
  have "(cer_secrets r)\<lparr>k_bundle_zip := []\<rparr> = (cer_secrets r0)\<lparr>k_bundle_zip := []\<rparr>"
    using rb by (simp add: rebundled_def)
  then have "build_bundle (sv_tools sv) (cer_secrets r) pem = Inr b"
    using b(2) build_bundle_any by metis
  then show ?thesis using that [OF r rb] unfolding z by blast
qed

lemma renew_ca_done:
  assumes "schema_ok d" and "renew_ca sv ev c days d = (Inr v, d')"
  obtains ca s s' p12 bundles where "get_ca c d = Inr ca" and "get_ca_secrets c d = Inr s"
    and "in_workdir ev 0 (renew_ca_work sv ev ca days (fallback_digest (m_digest_algorithm ca)) s) =
      Inr (s_cert_pem s', p12)"
    and "renewed_bundles sv c (s_cert_pem s') d = Inr bundles"
    and "certs d' = fold (put_bundle (ev_clock ev 2) c) bundles (certs d)"
    and "get_ca_secrets c d' = Inr s'" and "s_key_pem s' = s_key_pem s" and "s_password s' = s_password s"
    and "m_issue_time v = ev_clock ev 1" and "m_valid_days v = days"
    and "\<not> db_holds d' c (ev_owner ev)" and "schema_ok d'"
proof (rule renew_ca_Inr_parts [OF assms(2)])
  fix plan d1
  assume p: "plan_ca_renewal c days d = Inr plan"
    and l: "renew_ca_locked sv ev c days plan d = (Inr (), d1)" and st: "settled d1 d'"
    and "\<exists>ca. get_ca c d1 = Inr ca \<and> same_ca_view ca v"
  then obtain ca1 where ca1: "get_ca c d1 = Inr ca1" "same_ca_view ca1 v" by blast
  obtain ca where ca: "get_ca c d = Inr ca" and plan: "plan = (ca, fallback_digest (m_digest_algorithm ca))"
    using p by (auto simp: plan_ca_renewal_def bind_res_eq_Inr)
  show ?thesis
  proof (rule renew_ca_locked_Inr [OF assms(1) l])
    fix s pem p12 bundles and r :: ca_row
    assume s: "get_ca_secrets c d = Inr s"
      and w: "in_workdir ev 0 (renew_ca_work sv ev (fst plan) days (snd plan) s) = Inr (pem, p12)"
      and b: "renewed_bundles sv c pem d = Inr bundles" and ok1: "schema_ok d1"
      and c1: "certs d1 = fold (put_bundle (ev_clock ev 2) c) bundles (certs d)"
      and r: "r \<in> set (cas d1)" "active_ca c r" "s_cert_pem (car_secrets r) = pem"
        "s_key_pem (car_secrets r) = s_key_pem s" "s_password (car_secrets r) = s_password s"
        "m_issue_time (car_meta r) = ev_clock ev 1" "m_valid_days (car_meta r) = days"
      and h: "\<not> db_holds d1 c (ev_owner ev)"
    have "get_ca_secrets c d1 = Inr (car_secrets r)" using r(1,2) get_ca_secrets_Inr [OF ok1] by blast
    then have s': "get_ca_secrets c d' = Inr (car_secrets r)" by (simp add: settled_secrets [OF st])
    have "get_ca c d1 = Inr (ca_view d1 r)" using r(1,2) get_ca_Inr [OF ok1] by blast
    then have "same_ca_view (ca_view d1 r) v" using ca1 by simp
    then have "m_issue_time v = ev_clock ev 1" "m_valid_days v = days"
      using r(6,7) by (simp_all add: same_ca_view_def ca_view_def subject_meta.defs)
    moreover have "\<not> db_holds d' c (ev_owner ev)" "certs d' = certs d1"
      using h st by (simp_all add: db_holds_def settled_def)
    ultimately show ?thesis
      using ca s w b c1 r(3-5) s' settled_schema_ok [OF ok1 st] unfolding plan fst_conv snd_conv r(3) [symmetric]
      by (intro that [of ca s "car_secrets r" p12 bundles]) simp_all
  qed
qed

section \<open>Created CAs\<close>

lemma finish_ca_files_password:
  "finish_ca_files t random pw w = (Inr s, w') \<Longrightarrow> s_password s = pw"
  unfolding finish_ca_files_def by (auto simp: act_simps)

lemma create_ca_files_password:
  "in_workdir ev n (create_ca_files t random subject days g alg opts pw) = Inr s \<Longrightarrow> s_password s = pw"
  by (auto simp: in_workdir_Inr create_ca_files_def act_simps dest: finish_ca_files_password)

lemma attach_initial_crl_password: "attach_initial_crl sv ev n s = Inr s' \<Longrightarrow> s_password s' = s_password s"
  by (auto simp: attach_initial_crl_def bind_res_eq_Inr split: if_splits)

lemma prepare_ca_Inr:
  assumes "prepare_ca sv ev req d = Inr (meta, s)"
  shows "\<not> ca_common_name_exists (rq_common_name req) d" and "m_id meta = ev_id ev"
    and "m_common_name meta = rq_common_name req" and "m_valid_days meta = rq_valid_days req"
    and "s_password s = password_of ev (rq_password req)"
proof -
  show "\<not> ca_common_name_exists (rq_common_name req) d" "m_id meta = ev_id ev"
    "m_common_name meta = rq_common_name req" "m_valid_days meta = rq_valid_days req"
    using assms
    by (auto simp: prepare_ca_def bind_res_eq_Inr ensure_unique_ca_common_name_def split: if_splits)
  show "s_password s = password_of ev (rq_password req)"
    using assms by (auto simp: prepare_ca_def bind_res_eq_Inr
        dest!: create_ca_files_password attach_initial_crl_password)
qed

text \<open>A new CA is one new row, with or without a truststore, and nothing else is changed.\<close>

lemma build_truststore_effect:
  "\<exists>ts. snd (build_truststore sv ev n c pem d) = d \<or>
     snd (build_truststore sv ev n c pem d) = snd (set_ca_truststore c pem ts d)"
  by (auto simp: build_truststore_def db_then_def db_read_def db_write_def db_give_def split: sum.splits)

lemma store_ca_row:
  assumes "store_ca sv ev (meta, s) d = (Inr v, d')"
  obtains ts where "d' = d\<lparr>cas := cas d @ [\<lparr>car_meta = meta, car_secrets = s, car_truststore = ts,
    car_deleted = False, car_created_at = ev_clock ev 3, car_updated_at = ev_clock ev 3, car_meta_version = 1\<rparr>]\<rparr>"
proof -
  let ?row = "\<lambda>ts. \<lparr>car_meta = meta, car_secrets = s, car_truststore = ts, car_deleted = False,
    car_created_at = ev_clock ev 3, car_updated_at = ev_clock ev 3, car_meta_version = 1\<rparr>"
  obtain d1 where i: "insert_ca (ev_clock ev 3) meta s d = Inr d1"
    and p: "d' = snd (build_truststore sv ev 2 (m_id meta) (s_cert_pem s) d1)"
    using assms unfolding store_ca_def db_act_simps fst_conv snd_conv by (auto simp: prebuild_truststore_def)
  then have d1: "d1 = d\<lparr>cas := cas d @ [?row []]\<rparr>" and new: "\<forall>r \<in> set (cas d). car_id r \<noteq> m_id meta"
    unfolding insert_ca_Inr by (auto simp: car_id_def image_iff)
  have other: "\<not> truststore_target (m_id meta) (s_cert_pem s) r" if "r \<in> set (cas d)" for r
    using new that by (auto simp: truststore_target_def active_ca_def)
  have "snd (set_ca_truststore (m_id meta) (s_cert_pem s) ts d1) = d\<lparr>cas := cas d @ [?row ts]\<rparr>" for ts
  proof -
    have "update_where (truststore_target (m_id meta) (s_cert_pem s)) (\<lambda>r. r\<lparr>car_truststore := ts\<rparr>) (cas d) = cas d"
      unfolding update_where_def using other by (intro map_idI) simp
    moreover have "truststore_target (m_id meta) (s_cert_pem s) (?row [])"
      by (simp add: truststore_target_def active_ca_def car_id_def)
    ultimately show ?thesis by (simp add: d1 set_ca_truststore_def update_where_def)
  qed
  then show thesis
    using build_truststore_effect [of sv ev 2 "m_id meta" "s_cert_pem s" d1] that d1 unfolding p by metis
qed

lemma store_ca_Inr:
  assumes "schema_ok d" and "store_ca sv ev (meta, s) d = (Inr v, d')"
  obtains d1 where "insert_ca (ev_clock ev 3) meta s d = Inr d1" and "settled d1 d'" and "schema_ok d'"
    and "get_ca (m_id meta) d' = Inr (v\<lparr>v_crl_url := None\<rparr>)"
    and "get_ca_secrets (m_id meta) d' = Inr s"
    and "m_common_name v = m_common_name meta" and "m_valid_days v = m_valid_days meta"
proof -
  obtain d1 u ca where i: "insert_ca (ev_clock ev 3) meta s d = Inr d1"
    and p: "prebuild_truststore sv ev 2 (m_id meta) (s_cert_pem s) d1 = (Inr u, d')"
    and g: "get_ca (m_id meta) d' = Inr ca" and v: "v = with_ca_crl_url sv ca"
    using assms(2) unfolding store_ca_def db_act_simps fst_conv snd_conv by auto
  have st: "settled d1 d'" using p build_truststore_settled by (auto simp: prebuild_truststore_def)
  have ok1: "schema_ok d1" by (rule insert_ca_schema_ok [OF i assms(1)])
  have ok: "schema_ok d'" by (rule settled_schema_ok [OF ok1 st])
  have "v_crl_url ca = None"
    using g by (auto simp: get_ca_Inr [OF ok] ca_view_def subject_meta.defs certificate_authority.defs)
  then have "ca = v\<lparr>v_crl_url := None\<rparr>" by (simp add: v with_ca_crl_url_def)
  moreover have "get_ca_secrets (m_id meta) d1 = Inr s"
    using i unfolding get_ca_secrets_Inr [OF ok1] insert_ca_Inr by (auto simp: active_ca_def car_id_def)
  moreover have "m_common_name v = m_common_name meta \<and> m_valid_days v = m_valid_days meta"
  proof -
    have "cas d1 = cas d @ [\<lparr>car_meta = meta, car_secrets = s, car_truststore = [], car_deleted = False,
        car_created_at = ev_clock ev 3, car_updated_at = ev_clock ev 3, car_meta_version = 1\<rparr>]"
      using i unfolding insert_ca_Inr by simp
    then have "\<exists>r \<in> set (cas d1). car_meta r = meta \<and> \<not> car_deleted r" by simp
    then obtain r where r: "r \<in> set (cas d1)" "car_meta r = meta" "\<not> car_deleted r" by blast
    then have "get_ca (m_id meta) d1 = Inr (ca_view d1 r)"
      unfolding get_ca_Inr [OF ok1] by (metis active_ca_def car_id_def)
    then obtain x where "ca_view d1 r = x" "m_common_name ca = m_common_name x" "m_valid_days ca = m_valid_days x"
      using settled_get_ca [OF ok1 st g] by auto
    then show ?thesis using r(2) v by (auto simp: ca_view_def with_ca_crl_url_def subject_meta.defs)
  qed
  ultimately show ?thesis
    by (intro that [OF i st ok]) (simp_all add: g settled_secrets [OF st])
qed

end
