(* ===== verification/Service_Live.thy ===== *)
theory Service_Live
  imports Ca_Facts Signing_Live
begin

text \<open>
  The operations of the service succeed when their commands do: revocation, the renewal
  of a CA, the creation of a CA and the download of its truststore.
\<close>

section \<open>Revocation\<close>

lemma lock_free_acquire:
  assumes "ca_exists c d" and "\<forall>l \<in> set (ca_locks d). l_ca_id l = c \<longrightarrow> l_expires_at l < now"
  obtains d1 where "acquire_ca_lock now c p ttl d = Inr d1"
  using assms by (auto simp: acquire_Inr)

lemma get_cert_cong:
  "schema_ok d \<Longrightarrow> schema_ok d' \<Longrightarrow> cas d' = cas d \<Longrightarrow> certs d' = certs d \<Longrightarrow>
   get_cert c i d = Inr v \<Longrightarrow> get_cert c i d' = Inr v"
  by (auto simp: get_cert_Inr ca_live_def)

lemma revoke_cert_goes:
  assumes ok: "schema_ok d" and crl: "sv_crl_enabled sv" "normalize_revocation_reason reason = Inr reason'"
    and cert: "get_cert c i d = Inr cert" "m_revoked_at cert = None"
    and s: "get_ca_secrets c d = Inr ca" "get_cert_secrets c i d = Inr k"
    and f: "in_workdir ev 0 (revoke_cert_files (sv_tools sv) ca k reason' (sv_crl_days sv)) = Inr x"
    and free: "\<forall>l \<in> set (ca_locks d). l_ca_id l = c \<longrightarrow> l_expires_at l < ev_clock ev 0"
  shows "\<exists>v d'. revoke_cert sv ev c i reason d = (Inr v, d')"
proof -
  obtain r where r: "r \<in> set (cas d)" "active_ca c r" using s(1) ok by (auto simp: get_ca_secrets_Inr)
  obtain cr where cr: "cr \<in> set (certs d)" "active_cert c i cr"
    using cert by (auto simp: get_cert_Inr [OF ok])
  have "ca_exists c d" using r by (auto simp: ca_exists_iff active_ca_def)
  then obtain d1 where a: "acquire_ca_lock (ev_clock ev 0) c (ev_owner ev) 120000 d = Inr d1"
    using free by (rule lock_free_acquire)
  note keep = acquire_keeps [OF a] and ok1 = lock_taken_ok [OF a ok]
  have c1: "get_cert c i d1 = Inr cert" using keep cert(1) by (intro get_cert_cong [OF ok ok1]) simp_all
  have s1: "get_ca_secrets c d1 = Inr ca" using s(1) keep get_ca_secrets_cong by metis
  have k1: "get_cert_secrets c i d1 = Inr k"
    using s(2) keep by (auto simp: get_cert_secrets_Inr [OF ok] get_cert_secrets_Inr [OF ok1] ca_live_def)
  have "db_holds d1 c (ev_owner ev)" by (rule verify_after_acquire [OF a])
  then obtain d2 where u: "revoke_cert_with_state (ev_clock ev 2) c i reason' (ev_clock ev 1)
      (cr_index_txt x, cr_serial_txt x) (cr_crl_der x, cr_crlnumber_txt x) (ev_owner ev) d1 = Inr d2"
    using r cr keep by (auto simp: revoke_cert_Inr)
  then obtain v where "get_cert c i d2 = Inr v"
    using revoking.answers [OF TrueI ok1 u] by auto
  with crl cert a c1 s1 k1 f u have "revoke_cert sv ev c i reason d = (Inr v, d2)"
    by (simp add: revoke_cert_def checked_def with_ca_lock_def commit_then_def)
  then show ?thesis by blast
qed

section \<open>Certificate authorities\<close>

lemma repair_if_needed_goes:
  assumes "ev_workdir ev n = Inr path" and "\<exists>r \<in> set (cas d). active_ca (m_id ca) r"
  shows "\<exists>v d'. repair_ca_metadata_if_needed sv ev n ca d = (Inr v, d')"
proof -
  obtain t where t: "in_workdir ev n (attempt (inspect_cert_text (sv_tools sv) (v_cert_pem ca))) = Inr t"
    using assms(1)
    by (cases "inspect_cert_text (sv_tools sv) (v_cert_pem ca) (fresh_workdir path)")
      (simp add: in_workdir_def attempt_def)
  have "update_ca_metadata now (m_id ca) kp g d \<noteq> Inl e" for now kp g e
    using assms(2) by (auto simp: update_ca_metadata_def table_simps)
  then show ?thesis
    unfolding repair_ca_metadata_if_needed_def
    by (auto simp: db_then_def db_read_def db_write_def db_give_def t Let_def split: sum.splits)
qed

lemma service_get_ca_goes:
  assumes "schema_ok d" and "ca_live d c" and "ev_workdir ev n = Inr path"
  shows "\<exists>v d'. service_get_ca sv ev n c d = (Inr v, d')"
proof -
  obtain ca where ca: "get_ca c d = Inr ca" using assms(1,2) get_ca_live by blast
  moreover have "\<exists>r \<in> set (cas d). active_ca (m_id ca) r"
    using ca by (auto simp: get_ca_Inr [OF assms(1)] active_ca_def)
  ultimately obtain v d' where "repair_ca_metadata_if_needed sv ev n ca d = (Inr v, d')"
    using repair_if_needed_goes [where ca = ca and sv = sv, OF assms(3)] by blast
  with ca show ?thesis by (simp add: service_get_ca_def db_then_def db_read_def db_give_def)
qed

lemma renew_ca_goes:
  assumes ok: "schema_ok d" and plan: "plan_ca_renewal c days d = Inr plan"
    and s: "get_ca_secrets c d = Inr s"
    and f: "in_workdir ev 0 (renew_ca_work sv ev (fst plan) days (snd plan) s) = Inr (pem, p12)"
    and crl: "renewed_crl sv ev (s\<lparr>s_cert_pem := pem, s_pkcs12 := p12\<rparr>) = Inr crl"
    and b: "renewed_bundles sv c pem d = Inr bundles" and dir: "ev_workdir ev 3 = Inr path"
    and free: "\<forall>l \<in> set (ca_locks d). l_ca_id l = c \<longrightarrow> l_expires_at l < ev_clock ev 0"
  shows "\<exists>v d'. renew_ca sv ev c days d = (Inr v, d')"
proof -
  obtain r where r: "r \<in> set (cas d)" "active_ca c r" using s ok by (auto simp: get_ca_secrets_Inr)
  have "ca_exists c d" using r by (auto simp: ca_exists_iff active_ca_def)
  then obtain d1 where a: "acquire_ca_lock (ev_clock ev 0) c (ev_owner ev) 120000 d = Inr d1"
    using free by (rule lock_free_acquire)
  note keep = acquire_keeps [OF a] and ok1 = lock_taken_ok [OF a ok]
  have s1: "get_ca_secrets c d1 = Inr s" using s keep get_ca_secrets_cong by metis
  have b1: "renewed_bundles sv c pem d1 = Inr bundles"
    using b keep by (simp add: renewed_bundles_def list_cert_secrets_for_ca_def)
  have "db_holds d1 c (ev_owner ev)" by (rule verify_after_acquire [OF a])
  then obtain d2 where u: "renew_ca_with_state (ev_clock ev 2) c pem p12 (ev_clock ev 1) days crl
      bundles (ev_owner ev) d1 = Inr d2"
    using r keep by (auto simp: renew_ca_Inr)
  have l: "renew_ca_locked sv ev c days plan d = (Inr (), d2)"
    using a s1 f crl b1 u
    by (simp add: renew_ca_locked_def with_ca_lock_def commit_then_def prepare_ca_renewal_def)
  have ok2: "schema_ok d2" by (rule renew_ca_schema_ok [OF u ok1])
  obtain r2 where "r2 \<in> set (cas d2)" "active_ca c r2" by (rule renew_ca_locked_Inr [OF ok l])
  then have "ca_live d2 c" by (rule active_ca_live [OF ok2])
  then obtain v d3 where "service_get_ca sv ev 3 c d2 = (Inr v, d3)"
    using service_get_ca_goes [OF ok2 _ dir] by blast
  with plan l show ?thesis
    by (simp add: renew_ca_def db_then_def db_read_def db_give_def prebuild_truststore_def)
qed

section \<open>Creating a CA and its truststore\<close>

lemma goes_finish_ca_files:
  assumes "works t" and "LF \<notin> set pw" "CR \<notin> set pw" and "{''ca-cert.pem'', ''ca-key.pem''} \<subseteq> F"
  shows "goes F D (finish_ca_files t random pw) {} D"
  unfolding finish_ca_files_def
  by (rule goes_steps goes_and_then [OF goes_run_ok [OF assms(1)]]
        goes_and_then [OF goes_write_pass_file [OF assms(2,3)]] goes_done
      | use assms(4) in \<open>simp add: set_option_out\<close>)+

lemma goes_create_ca_files:
  assumes w: "works t" and d: "normalize_digest digest = Inr d"
    and g: "genkey_args ''ca-key.pem'' options algorithm = Some args"
    and pw: "LF \<notin> set pw" "CR \<notin> set pw"
  shows "goes {} {} (create_ca_files t random subject days digest algorithm options pw) {} {}"
proof -
  have sup: "d \<in> set supported_digests" by (rule normalize_digest_supported [OF d])
  have l: "and_then (lift_res (Inr a)) f = f a" for a :: 'x and f :: "'x \<Rightarrow> 'y act"
    by (rule ext) (simp add: and_then_def lift_res_def)
  have "out_file args = Some ''ca-key.pem''" using g by (rule out_files)
  moreover have "out_file (self_sign_args subject days d) = Some ''ca-cert.pem''"
    using digest_flag [OF sup] show_int_flag by (simp add: self_sign_args_def)
  ultimately show ?thesis
    unfolding create_ca_files_def d l
    by (intro goes_and_then [OF goes_generate_key [OF w g]] goes_and_then [OF goes_run_ok [OF w]]
        goes_finish_ca_files [OF w pw]) simp
qed

lemma goes_generate_crl: "works t \<Longrightarrow> goes {} {} (generate_crl t ca days) {} {''certs''}"
  unfolding generate_crl_def read_crl_refresh_def
  by (rule goes_steps goes_and_then [OF goes_run_ok] goes_done
      | simp add: ca_files_def gencrl_args_def crl_der_args_def)+

lemma goes_truststore:
  assumes w: "works t" and a: "alias_name \<noteq> ''-out''"
  shows "\<exists>ts w'. truststore_pkcs12 t pem alias_name truststore_password (fresh_workdir path) = (Inr ts, w')"
proof -
  have nl: "LF \<notin> set truststore_password" "CR \<notin> set truststore_password" by code_simp+
  let ?args = "\<lambda>passout. [''pkcs12'', ''-export'', ''-nokeys'', ''-in'', ''truststore-cert.pem'',
       ''-jdktrust'', ''anyExtendedKeyUsage'', ''-caname'', alias_name, ''-out'', ''truststore.p12'',
       ''-passout'', passout]"
  obtain w1 where w1: "write_file ''truststore-cert.pem'' pem (fresh_workdir path) = (Inr (), w1)"
    by (simp add: write_file_def)
  obtain p w2 where w2: "write_pass_file ''truststore.pass'' truststore_password w1 = (Inr p, w2)"
    using nl by (simp add: write_pass_file_def and_then_def write_file_def give_def)
  obtain code out err w3 where w3: "run_in t (?args p) w2 = (Inr (code, out, err), w3)"
    and f: "at_files (set_option (out_file (?args p))) (set (wd_dirs w2)) w3"
    using goes_run_in [OF w, of "{}" "set (wd_dirs w2)" "?args p"] by (auto simp: goes_def at_files_def)
  have "code = 0" by (rule run_in_exit [OF w w3])
  moreover have "wd_files w3 ''truststore.p12'' \<noteq> None"
    using f a by (auto simp: at_files_def)
  ultimately show ?thesis
    using w1 w2 w3 by (auto simp: truststore_pkcs12_def and_then_def read_file_def)
qed


lemma goes_in_workdir:
  assumes "goes {} {} m G E" and "ev_workdir ev n = Inr path"
  shows "\<exists>a. in_workdir ev n m = Inr a"
proof -
  have "at_files {} {} (fresh_workdir path)" by (simp add: at_files_def fresh_workdir_def)
  with assms(1) obtain a w' where "m (fresh_workdir path) = (Inr a, w')" unfolding goes_def by blast
  with assms(2) show ?thesis by (simp add: in_workdir_def)
qed

text \<open>A CA whose request is valid, and whose name is free, is created.\<close>

lemma store_ca_goes:
  assumes ok: "schema_ok d" and new: "\<not> ca_exists (m_id meta) d"
  shows "\<exists>v d'. store_ca sv ev (meta, s') d = (Inr v, d')"
proof -
  obtain d1 where i: "insert_ca (ev_clock ev 3) meta s' d = Inr d1"
    using new by (auto simp: insert_ca_Inr ca_exists_iff)
  have ok1: "schema_ok d1" by (rule insert_ca_schema_ok [OF i ok])
  obtain d2 where d2: "prebuild_truststore sv ev 2 (m_id meta) (s_cert_pem s') d1 = (Inr (), d2)"
    and st: "settled d1 d2"
    using build_truststore_settled by (simp add: prebuild_truststore_def)
  obtain r where r: "r \<in> set (cas d1)" "active_ca (m_id meta) r"
  proof -
    let ?r = "\<lparr>car_meta = meta, car_secrets = s', car_truststore = [], car_deleted = False,
      car_created_at = ev_clock ev 3, car_updated_at = ev_clock ev 3, car_meta_version = 1\<rparr>"
    have "cas d1 = cas d @ [?r]" using i unfolding insert_ca_Inr by simp
    then show thesis by (intro that [of ?r]) (simp_all add: active_ca_def car_id_def)
  qed
  obtain r' where r': "r' \<in> set (cas d2)" "active_ca (m_id meta) r'"
    using settled_row [OF st r(1)] r(2) by (auto simp: ca_settled_def active_ca_def)
  have "schema_ok d2"
    by (rule settled_schema_ok [OF ok1 st])
  then obtain v where "get_ca (m_id meta) d2 = Inr v" using r' by (auto simp: get_ca_Inr)
  with i d2 show ?thesis
    by (simp add: store_ca_def db_then_def db_read_def db_write_def db_give_def)
qed

lemma create_ca_goes:
  assumes ok: "schema_ok d" and w: "works (sv_tools sv)"
    and dirs: "ev_workdir ev 0 = Inr path0" "ev_workdir ev 1 = Inr path1"
    and days: "validate_days (rq_valid_days req) = Inr ()" and key: "key_spec_of (rq_key_profile req) = Inr k"
    and dig: "normalize_digest (rq_digest_algorithm req) = Inr g"
    and pw: "validate_password (rq_password req) = Inr ()"
      "LF \<notin> set (password_of ev (rq_password req))" "CR \<notin> set (password_of ev (rq_password req))"
    and name: "\<not> ca_common_name_exists (rq_common_name req) d"
    and subj: "create_subject (rq_common_name req) (rq_country_code req) (rq_organization req)
        (rq_state req) (rq_city req) (rq_organization_unit req) = Inr subject"
    and new: "\<not> ca_exists (ev_id ev) d"
  shows "\<exists>v d'. create_ca sv ev req d = (Inr v, d')"
proof -
  obtain args where args: "genkey_args ''ca-key.pem'' (ks_attributes k) (ks_algorithm k) = Some args"
    using key_spec_generates [OF key] by blast
  obtain s where s: "in_workdir ev 0 (create_ca_files (sv_tools sv) (ev_random ev) subject
        (rq_valid_days req) g (ks_algorithm k) (ks_attributes k) (password_of ev (rq_password req))) = Inr s"
    using goes_in_workdir [OF goes_create_ca_files [OF w normalize_digest_again [OF dig] args pw(2,3)] dirs(1)]
    by blast
  obtain s' where s': "attach_initial_crl sv ev 1 s = Inr s'"
  proof (cases "sv_crl_enabled sv")
    case True
    obtain r where "in_workdir ev 1 (generate_crl (sv_tools sv) s (sv_crl_days sv)) = Inr r"
      using goes_in_workdir [OF goes_generate_crl [OF w] dirs(2)] by blast
    with True that show ?thesis by (simp add: attach_initial_crl_def)
  qed (use that in \<open>simp add: attach_initial_crl_def\<close>)
  obtain meta where p: "prepare_ca sv ev req d = Inr (meta, s')" and m: "m_id meta = ev_id ev"
    using days key dig pw name subj s s'
    by (simp add: prepare_ca_def ensure_unique_ca_common_name_def)
  with store_ca_goes [OF ok, of meta sv ev s'] new show ?thesis
    by (simp add: create_ca_def db_then_def db_read_def)
qed


lemma download_truststore_goes:
  assumes "get_ca_secrets c d = Inr s" and "works (sv_tools sv)" and "ev_workdir ev 0 = Inr path"
    and "schema_ok d"
  shows "\<exists>x d'. download_ca sv ev c CaTruststore d = (Inr x, d')"
proof -
  obtain r where "find (active_ca c) (cas d) = Some r"
    using assms(1) by (auto simp: get_ca_secrets_def res_simps)
  then have "\<exists>x. get_ca_truststore c d = Inr x" by (simp add: get_ca_truststore_def)
  then obtain stored where st: "get_ca_truststore c d = Inr stored" by blast
  have "''minica-'' @ c \<noteq> ''-out''" by simp
  from goes_truststore [OF assms(2) this, of "s_cert_pem s" path] obtain ts w' where
    "truststore_pkcs12 (sv_tools sv) (s_cert_pem s) (''minica-'' @ c) truststore_password
      (fresh_workdir path) = (Inr ts, w')"
    by blast
  with assms(3) have "in_workdir ev 0 (truststore_pkcs12 (sv_tools sv) (s_cert_pem s)
      (''minica-'' @ c) truststore_password) = Inr ts"
    by (simp add: in_workdir_def)
  with assms(1) st show ?thesis
    by (simp add: download_ca_def truststore_def build_truststore_def db_then_def db_read_def
        db_give_def db_write_def)
qed

end
