(* ===== verification/Service_Samples.thy ===== *)
theory Service_Samples
  imports Service_Live Signing_Samples
begin

text \<open>
  The operations of the service run on the small openssl of \<open>Signing_Samples\<close>: a revocation,
  a certificate and a CA renewal, and the creation of a CA in an empty database.
\<close>

section \<open>Running commands\<close>

definition toy_next :: "string list \<Rightarrow> workdir \<Rightarrow> workdir" where
  "toy_next args w = w\<lparr>wd_files := toy_after args (wd_files w), wd_calls := wd_calls w @ [args]\<rparr>"

lemma and_then_assoc: "and_then (and_then m g) f = and_then m (\<lambda>a. and_then (g a) f)"
  by (rule ext) (auto simp: and_then_def split: prod.splits sum.splits)

lemma toy_steps:
  "and_then (run_ok toy_tools args) f w = f (toy_out args (wd_files w)) (toy_next args w)"
  "and_then (write_file g s) f1 w = f1 () (w\<lparr>wd_files := (wd_files w)(g := Some s)\<rparr>)"
  "and_then (give a2) f2 w = f2 a2 w"
  "and_then (lift_res (Inr a3)) f3 w = f3 a3 w"
  "and_then (create_dir_all dn) f4 w = f4 () (w\<lparr>wd_dirs := List.insert dn (wd_dirs w)\<rparr>)"
  "and_then (in_context c (run_ok toy_tools args)) f w = f (toy_out args (wd_files w)) (toy_next args w)"
  "and_then (ca_config_file n u) f4 w =
     f4 () (w\<lparr>wd_files := (wd_files w)(''openssl-ca.conf'' := Some (ca_config (wd_path w) n u))\<rparr>)"
  by (simp_all add: ca_config_file_def and_then_def run_ok_def run_in_def toy_tools_def toy_run_def
      toy_next_def give_def write_file_def lift_res_def create_dir_all_def in_context_def with_context_def)

lemma toy_reads: "wd_files w g = Some s \<Longrightarrow> and_then (read_file g) f w = f s w"
  by (simp add: and_then_def read_file_def)

lemma toy_next_simps [simp]:
  "wd_path (toy_next args w) = wd_path w" "wd_dirs (toy_next args w) = wd_dirs w"
  "wd_files (toy_next args w) f =
     (if f \<in> set (toy_written args) then Some (toy_file args (wd_files w) f) else wd_files w f)"
  by (simp_all add: toy_next_def toy_after_def fold_writes)

lemma toy_written_args [simp]:
  "reason \<in> set revocation_reasons \<Longrightarrow> toy_written (revoke_args reason) = [''index.txt'']"
  "f \<noteq> ''-out'' \<Longrightarrow> toy_written (serial_args f) = []"
  "f \<noteq> ''-out'' \<Longrightarrow> toy_written (pubkey_args f) = []"
  "f \<noteq> ''-out'' \<Longrightarrow> toy_written (keypub_args f) = []"
  "toy_written gencrl_args = [''ca.crl.pem'', ''crlnumber.txt'']" "toy_written crl_der_args = [''ca.crl'']"
  "toy_written (pkcs12_args out cert key passout) = [out]"
  by (auto simp: toy_written_def revoke_args_def serial_args_def gencrl_args_def crl_der_args_def
      pubkey_args_def keypub_args_def pkcs12_args_def first_arg_def revocation_reasons_def)

lemma toy_prints:
  "toy_out (serial_args f) fs = toy_serial (or_default (fs f))"
  "toy_out (pubkey_args f) fs = toy_pub (or_default (fs f))"
  "toy_out (keypub_args f) fs = toy_pub (or_default (fs f))"
  by (simp_all add: toy_out_def serial_args_def pubkey_args_def keypub_args_def)

lemma toy_reads_ok: "reads_ok toy_tools toy_serial toy_pub toy_pub"
  by (auto simp: reads_ok_def toy_tools_def toy_run_def toy_prints or_default_def)

lemma toy_index_facts:
  assumes "s \<in> {''01'', ''02''}"
  shows "valid_utf8 (toy_index s)" and "CR \<notin> set (toy_index s)"
    and "\<exists>l \<in> set (str_lines (toy_index s)). revoked_entry (printed_serial (''serial='' @ s @ [LF])) l \<noteq> None"
  using assms by (elim insertE emptyE; simp only:; code_simp)+

lemma plain_serial_cases: "plain_serial pem \<in> {''01'', ''02''}"
  by (simp add: plain_serial_def)

lemma toy_revoke_ok: "revoke_ok toy_tools"
  unfolding revoke_ok_def
proof (intro allI ballI impI)
  fix h fs r h' r' idx reason
  assume re: "reason \<in> set revocation_reasons"
    and run: "t_run toy_tools h (revoke_args reason) fs = Some r"
      "t_run toy_tools h' (serial_args ''revoke.pem'') (tr_files r) = Some r'"
      "tr_files r ''index.txt'' = Some idx"
  let ?s = "plain_serial (or_default (fs ''revoke.pem''))"
  have "''-revoke'' \<in> set (revoke_args reason)" by (simp add: revoke_args_def)
  then have "idx = toy_index ?s" and "tr_stdout r' = ''serial='' @ ?s @ [LF]"
    using run re by (auto simp: toy_tools_def toy_run_def toy_after_def fold_writes toy_file_def
        toy_prints toy_serial_def)
  then show "CR \<notin> set idx \<and>
      (\<exists>l \<in> set (str_lines idx). revoked_entry (printed_serial (tr_stdout r')) l \<noteq> None)"
    using toy_index_facts [OF plain_serial_cases] by simp
qed

section \<open>A revocation\<close>

lemma toy_revoked:
  assumes "reason \<in> set revocation_reasons"
  shows "\<exists>x w'. revoke_cert_files toy_tools ca k reason days w = (Inr x, w')"
proof -
  have "''-revoke'' \<in> set (revoke_args reason)" by (simp add: revoke_args_def)
  then have "valid_utf8 (toy_file (revoke_args reason) fs ''index.txt'')" for fs
    using toy_index_facts(1) [OF plain_serial_cases] by (simp add: toy_file_def)
  with assms show ?thesis
    unfolding revoke_cert_files_def export_ca_state_def read_crl_refresh_def read_index_text_def and_then_assoc
    by (simp add: toy_steps toy_reads Let_def split_def give_def)
qed

abbreviation toy_revoke :: "certificate result \<times> db" where
  "toy_revoke \<equiv> revoke_cert toy_service (toy_env ''p'' ''e9'') ''c1'' ''e1'' ''superseded'' sample_db"

lemma toy_revoke_done: "\<exists>v d'. toy_revoke = (Inr v, d')"
proof -
  have "is_ok (get_cert ''c1'' ''e1'' sample_db)" "is_ok (get_ca_secrets ''c1'' sample_db)"
    "is_ok (get_cert_secrets ''c1'' ''e1'' sample_db)"
    "map_sum (\<lambda>e. e) m_revoked_at (get_cert ''c1'' ''e1'' sample_db) = Inr None"
    by code_simp+
  then obtain cert ca k where get: "get_cert ''c1'' ''e1'' sample_db = Inr cert" "m_revoked_at cert = None"
    "get_ca_secrets ''c1'' sample_db = Inr ca" "get_cert_secrets ''c1'' ''e1'' sample_db = Inr k"
    by (auto simp: is_ok_iff)
  have n: "normalize_revocation_reason ''superseded'' = Inr ''superseded''" by code_simp
  have "''superseded'' \<in> set revocation_reasons" by (simp add: revocation_reasons_def)
  from toy_revoked [OF this] obtain x w' where "revoke_cert_files toy_tools ca k ''superseded''
      (sv_crl_days toy_service) (fresh_workdir (''/w'' @ show_nat 0)) = (Inr x, w')"
    by blast
  then have "in_workdir (toy_env ''p'' ''e9'') 0
      (revoke_cert_files toy_tools ca k ''superseded'' (sv_crl_days toy_service)) = Inr x"
    by (simp add: in_workdir_def)
  then show ?thesis
    using get n by (intro revoke_cert_goes [OF sample_db_ok]) simp_all
qed


section \<open>Renewals\<close>

text \<open>Of the sample certificate: its plan, and the run.\<close>

abbreviation toy_renew :: "certificate result \<times> db" where
  "toy_renew \<equiv> renew_cert toy_service (toy_env ''p'' ''e9'') ''c1'' ''e1'' 400 sample_db"

lemma attempt_goes: "\<exists>a w'. attempt m w = (Inr a, w')"
  by (cases "m w") (simp add: attempt_def)

lemma renewal_source_goes: "\<exists>src w'. renewal_source sv cert w = (Inr src, w')"
proof -
  obtain a w1 where "attempt (inspect_cert_subject_rfc2253 (sv_tools sv) (w_cert_pem cert)) w = (Inr a, w1)"
    using attempt_goes by blast
  moreover obtain b w2 where "attempt (inspect_cert_sans (sv_tools sv) (w_cert_pem cert)) w1 = (Inr b, w2)"
    using attempt_goes by blast
  ultimately show ?thesis
    by (simp add: renewal_source_def and_then_def give_def Let_def split: prod.splits)
qed

lemma toy_clock_clamp: "clamp_to_ca_validity toy_service (toy_env p i) pem 400 = Inr 400"
proof -
  have "clamp_days 1000 (not_after toy_service toy_info) 400 = Inr 400" by code_simp
  then show ?thesis by (simp add: clamp_to_ca_validity_def)
qed

lemma toy_renewal_planned:
  "\<exists>p. plan_renewal toy_service (toy_env ''p'' ''e9'') ''c1'' ''e1'' 400 sample_db = Inr p \<and>
     rp_digest p = ''sha256''"
proof -
  have "map_sum (\<lambda>e. ()) (\<lambda>c. (m_revoked_at c, m_issue_time c, m_valid_days c, fallback_digest (m_digest_algorithm c)))
      (get_cert ''c1'' ''e1'' sample_db) = Inr (None, 1000, 365, ''sha256'')"
    by code_simp
  then obtain cert where c: "get_cert ''c1'' ''e1'' sample_db = Inr cert" "m_revoked_at cert = None"
    "m_issue_time cert = 1000" "m_valid_days cert = 365" "fallback_digest (m_digest_algorithm cert) = ''sha256''"
    by (cases "get_cert ''c1'' ''e1'' sample_db") auto
  have "is_ok (get_ca ''c1'' sample_db)" by code_simp
  then obtain ca where ca: "get_ca ''c1'' sample_db = Inr ca" by (auto simp: is_ok_iff)
  have x: "renewal_extends 1001 (expiry 1000 365) 400 400 = Inr ()" "validate_days 400 = Inr ()" by code_simp+
  have "is_ok (issuing_crl_url toy_service ''c1'')" by code_simp
  then obtain url where u: "issuing_crl_url toy_service ''c1'' = Inr url" by (auto simp: is_ok_iff)
  obtain src w' where "renewal_source toy_service cert (fresh_workdir (''/w'' @ show_nat 1)) = (Inr src, w')"
    using renewal_source_goes by blast
  then have "in_workdir (toy_env ''p'' ''e9'') 1 (renewal_source toy_service cert) = Inr src"
    by (simp add: in_workdir_def)
  with c ca x u show ?thesis by (simp add: plan_renewal_def toy_clock_clamp)
qed

lemma toy_renew_done: "\<exists>v d'. toy_renew = (Inr v, d')"
proof -
  obtain p where p: "plan_renewal toy_service (toy_env ''p'' ''e9'') ''c1'' ''e1'' 400 sample_db = Inr p"
    "rp_digest p = ''sha256''" using toy_renewal_planned by blast
  have "map_sum (\<lambda>e. ()) k_password (get_cert_secrets ''c1'' ''e1'' sample_db) = Inr ''changeit''"
    by code_simp
  then obtain k where k: "get_cert_secrets ''c1'' ''e1'' sample_db = Inr k" "k_password k = ''changeit''"
    by (cases "get_cert_secrets ''c1'' ''e1'' sample_db") auto
  have "LF \<notin> set ''changeit''" "CR \<notin> set ''changeit''" by code_simp+
  with k(2) have "LF \<notin> set (k_password k)" "CR \<notin> set (k_password k)" by (simp_all only: not_False_eq_True)
  moreover have "''sha256'' \<in> set supported_digests" by code_simp
  with p(2) have "rp_digest p \<in> set supported_digests" by (simp only:)
  ultimately show ?thesis
    by (intro renew_cert_goes [OF sample_db_ok p(1) _ _ _ k(1), where path = "''/w'' @ show_nat 2"])
      (simp_all add: toy_works)
qed

text \<open>Of the sample CA.\<close>

abbreviation toy_renew_ca :: "certificate_authority result \<times> db" where
  "toy_renew_ca \<equiv> renew_ca toy_service (toy_env ''p'' ''e9'') ''c1'' 900 sample_db"

lemma toy_root_args:
  "toy_written [''x509'', ''-in'', ''inspect-issuer.pem'', ''-noout'', ''-subject_hash'', ''-issuer_hash''] = []"
  "toy_written [''verify'', ''-CAfile'', ''ca-cert-renewed.pem'', ''ca-cert-renewed.pem''] = []"
  by (simp_all add: toy_written_def first_arg_def)

lemma toy_hashes:
  "hashes_equal (map trim (str_lines (from_utf8_lossy
     (toy_out [''x509'', ''-in'', ''inspect-issuer.pem'', ''-noout'', ''-subject_hash'', ''-issuer_hash''] fs))))"
proof -
  have "toy_out [''x509'', ''-in'', ''inspect-issuer.pem'', ''-noout'', ''-subject_hash'', ''-issuer_hash''] fs =
      ''h'' @ [LF] @ ''h'' @ [LF]"
    by (simp add: toy_out_def Let_def serial_args_def pubkey_args_def keypub_args_def)
  moreover have "hashes_equal (map trim (str_lines (from_utf8_lossy (''h'' @ [LF] @ ''h'' @ [LF]))))"
    by code_simp
  ultimately show ?thesis by (simp only:)
qed

lemma toy_serial_new: "pem \<noteq> ''renewed'' \<Longrightarrow> toy_serial ''renewed'' \<noteq> toy_serial pem"
  by (simp add: toy_serial_def plain_serial_def)

lemma toy_resigned: "toy_file args fs ''ca-cert-renewed.pem'' = ''renewed''"
  by (simp add: toy_file_def)

lemma and_then_cong: "m = m' \<Longrightarrow> and_then m f = and_then m' f"
  by simp

lemma toy_ca_renewed:
  assumes "s_cert_pem ca \<noteq> ''renewed''" and "LF \<notin> set (s_password ca)" and "CR \<notin> set (s_password ca)"
  shows "\<exists>x w'. renew_ca_files toy_tools random ca days ''sha256'' w = (Inr x, w')"
proof -
  have d: "normalize_digest ''sha256'' = Inr ''sha256''" by code_simp
  have "''sha256'' \<in> set supported_digests" by code_simp
  then have o: "out_file (resign_args days (''0x'' @ random_serial_hex random) ''sha256'') =
      Some ''ca-cert-renewed.pem''"
    by (rule out_file_resign) simp
  then have rs: "toy_written (resign_args days (''0x'' @ random_serial_hex random) ''sha256'') =
      [''ca-cert-renewed.pem'']"
    by (simp add: toy_written_def resign_args_def first_arg_def)
  show ?thesis
    unfolding renew_ca_files_def d is_self_issued_def same_pubkey_def write_pass_file_def and_then_assoc
    by (simp add: toy_steps toy_reads toy_prints toy_root_args toy_hashes toy_serial_new toy_resigned rs [simplified] toy_pub_def and_then_assoc
        assms or_default_def give_def cong: and_then_cong)
qed


lemma toy_inspects: "inspect_cert toy_tools pem w = (Inr toy_info, snd (inspect_cert toy_tools pem w))"
  by (simp add: inspect_cert_def and_then_def write_file_def run_ok_def run_in_def
      toy_tools_def toy_run_def give_def toy_out_def serial_args_def pubkey_args_def keypub_args_def
      toy_info_def)

lemma toy_renew_ca_done: "\<exists>v d'. toy_renew_ca = (Inr v, d')"
proof -
  let ?ev = "toy_env ''p'' ''e9''"
  have plan: "\<exists>ca. plan_ca_renewal ''c1'' 900 sample_db = Inr (ca, ''sha256'')"
  proof -
    have "map_sum (\<lambda>e. ()) snd (plan_ca_renewal ''c1'' 900 sample_db) = Inr ''sha256''" by code_simp
    then show ?thesis by (cases "plan_ca_renewal ''c1'' 900 sample_db") auto
  qed
  then obtain ca where plan: "plan_ca_renewal ''c1'' 900 sample_db = Inr (ca, ''sha256'')" by blast
  have s: "get_ca_secrets ''c1'' sample_db = Inr sample_ca_secrets" by code_simp
  have pw: "s_cert_pem sample_ca_secrets \<noteq> ''renewed''" "LF \<notin> set (s_password sample_ca_secrets)"
    "CR \<notin> set (s_password sample_ca_secrets)"
    by code_simp+
  have "not_after toy_service toy_info = Some 40000000000" by code_simp
  moreover have "ca_renewal_extends 1001 40000000000 900 = Inr ()" by code_simp
  ultimately have ext: "ca_renewal_extends (ev_clock ?ev 1)
      (case not_after toy_service toy_info of Some t \<Rightarrow> t | None \<Rightarrow> expiry (m_issue_time ca) (m_valid_days ca))
      900 = Inr ()"
    by simp
  obtain w1 where w1: "inspect_cert toy_tools (from_utf8_lossy (s_cert_pem sample_ca_secrets))
      (fresh_workdir (''/w'' @ show_nat 0)) = (Inr toy_info, w1)"
    using toy_inspects by blast
  obtain x w2 where "renew_ca_files toy_tools (ev_random ?ev) sample_ca_secrets 900 ''sha256'' w1 = (Inr x, w2)"
    using toy_ca_renewed [OF pw] by blast
  then have f: "in_workdir ?ev 0 (renew_ca_work toy_service ?ev ca 900 ''sha256'' sample_ca_secrets) = Inr (fst x, snd x)"
    using w1 ext by (simp add: in_workdir_def renew_ca_work_def and_then_def lift_res_def)
  obtain r where "in_workdir ?ev 1 (generate_crl toy_tools
      (sample_ca_secrets\<lparr>s_cert_pem := fst x, s_pkcs12 := snd x\<rparr>) (sv_crl_days toy_service)) = Inr r"
    using goes_in_workdir [OF goes_generate_crl [OF toy_works]] by (metis toy_simps(4))
  then have crl: "renewed_crl toy_service ?ev (sample_ca_secrets\<lparr>s_cert_pem := fst x, s_pkcs12 := snd x\<rparr>) =
      Inr (Some (cr_crl_der r, cr_crlnumber_txt r))"
    by (simp add: renewed_crl_def)
  have "build_bundle toy_tools k c = Inr (concat (map snd
      [(''cert.csr'', k_csr_pem k), (''cert.key'', k_key_pem k), (''cert.p12'', k_pkcs12 k),
       (''cert.pem'', k_cert_pem k), (''cert-p12-password.txt'', k_password k), (''ca.pem'', c)]))" for k c
    by (simp add: build_bundle_def toy_tools_def)
  then have "\<exists>bs. map_res (\<lambda>(i, k). bind_res (build_bundle toy_tools k c) (\<lambda>b. Inr (i, b))) xs = Inr bs" for c xs
    by (induction xs) (auto simp: split_def)
  then obtain bs where b: "renewed_bundles toy_service ''c1'' (fst x) sample_db = Inr bs"
    unfolding renewed_bundles_def toy_simps by blast
  show ?thesis
    by (rule renew_ca_goes [OF sample_db_ok plan s _ crl b, where path = "''/w'' @ show_nat 3"])
      (use f in simp_all)
qed

section \<open>A new CA\<close>

definition toy_ca_request :: create_ca_request where
  "toy_ca_request =
     \<lparr>rq_common_name = ''Root CA'', rq_country_code = ''SG'', rq_state = '''', rq_city = '''',
      rq_organization = ''Acme'', rq_organization_unit = '''', rq_valid_days = 3650,
      rq_digest_algorithm = ''sha256'', rq_key_profile = ''rsa:2048'', rq_password = None\<rparr>"

abbreviation toy_new_ca :: "certificate_authority result \<times> db" where
  "toy_new_ca \<equiv> create_ca toy_service (toy_env ''p'' ''e9'') toy_ca_request empty_db"

lemma toy_new_ca_done: "\<exists>v d'. toy_new_ca = (Inr v, d')"
proof -
  let ?r = toy_ca_request
  have "validate_days (rq_valid_days ?r) = Inr ()" "is_ok (key_spec_of (rq_key_profile ?r))"
    "is_ok (normalize_digest (rq_digest_algorithm ?r))" "validate_password (rq_password ?r) = Inr ()"
    "\<not> ca_common_name_exists (rq_common_name ?r) empty_db" "\<not> ca_exists ''e9'' empty_db"
    "is_ok (create_subject (rq_common_name ?r) (rq_country_code ?r) (rq_organization ?r)
        (rq_state ?r) (rq_city ?r) (rq_organization_unit ?r))"
    by code_simp+
  moreover have "password_of (toy_env ''p'' ''e9'') (rq_password ?r) = ''secret''"
    by (simp add: password_of_def toy_ca_request_def)
  moreover have "LF \<notin> set ''secret''" "CR \<notin> set ''secret''" by code_simp+
  ultimately show ?thesis
    unfolding is_ok_iff
    by (elim exE) (rule create_ca_goes [OF schema_ok_empty, where ?path0.0 = "''/w'' @ show_nat 0"
        and ?path1.0 = "''/w'' @ show_nat 1"]; simp add: toy_works)
qed


section \<open>A repair\<close>

text \<open>The sample database before its metadata was checked.\<close>

definition stale_db :: db where
  "stale_db =
     sample_db\<lparr>cas := map (\<lambda>r. r\<lparr>car_meta_version := 0\<rparr>) (cas sample_db),
       certs := map (\<lambda>r. r\<lparr>cer_meta_version := 0\<rparr>) (certs sample_db)\<rparr>"

lemma db_then_goes: "m d = (Inr a, d1) \<Longrightarrow> db_then m f d = f a d1"
  by (simp add: db_then_def)

lemma repair_rows_goes:
  "(\<And>n x d. x \<in> set xs \<Longrightarrow> \<exists>k d'. f n x d = (Inr k, d')) \<Longrightarrow> \<exists>k d'. repair_rows f n xs d = (Inr k, d')"
proof (induction xs arbitrary: n d)
  case Nil
  then show ?case by (simp add: db_give_def)
next
  case (Cons x xs)
  then obtain k d1 where "f n x d = (Inr k, d1)" by (metis list.set_intros(1))
  moreover obtain k' d2 where "repair_rows f (Suc n) xs d1 = (Inr k', d2)"
    using Cons.IH [of "Suc n" d1] Cons.prems by (metis list.set_intros(2))
  ultimately show ?case by (simp add: db_then_def db_give_def)
qed

lemma toy_repair_ca:
  assumes "\<not> has_fabricated_subject (m_country_code m) (m_organization m)"
  shows "\<exists>k d'. repair_ca toy_service (toy_env p i) n (m, pem) d = (Inr k, d')"
proof -
  obtain w where "inspect_cert toy_tools (from_utf8_lossy pem) (fresh_workdir (''/w'' @ show_nat n)) = (Inr toy_info, w)"
    using toy_inspects by blast
  with assms show ?thesis
    by (simp add: repair_ca_def repair_ca_work_def db_then_def db_read_def db_write_def db_give_def
        in_workdir_def and_then_def attempt_def give_def)
qed

lemma toy_repair_cert:
  assumes "\<not> has_fabricated_subject (m_country_code m) (m_organization m)"
  shows "\<exists>k d'. repair_cert toy_service (toy_env p i) n (m, pem) d = (Inr k, d')"
  using assms by (simp add: repair_cert_def db_then_def db_write_def db_give_def)

lemma repair_rows_keep:
  "(\<And>n x d. g (snd (f n x d)) = g d) \<Longrightarrow> g (snd (repair_rows f n xs d)) = g d"
  by (induction xs arbitrary: n d)
    (force simp: db_then_def db_give_def split: sum.splits prod.splits dest: arg_cong [of _ _ "\<lambda>p. g (snd p)"])+

lemma repair_ca_certs: "certs (snd (repair_ca sv ev n x d)) = certs d"
  by (auto simp: repair_ca_def db_then_def db_read_def db_write_def db_give_def
      mark_ca_meta_checked_def update_ca_meta_repaired_def split: sum.splits option.splits)

lemma toy_repair_done:
  "\<exists>k d'. repair_stale_metadata toy_service (toy_env ''p'' ''e9'') stale_db = (Inr k, d')"
proof -
  let ?ev = "toy_env ''p'' ''e9''" and ?fab = "\<lambda>m. has_fabricated_subject (m_country_code m) (m_organization m)"
  have ca: "\<forall>x \<in> set (list_cas_for_repair stale_db). \<not> ?fab (fst x)"
    and ce: "\<forall>x \<in> set (list_certs_for_repair stale_db). \<not> ?fab (fst x)"
    by code_simp+
  have "\<exists>k d'. repair_ca toy_service ?ev n x d = (Inr k, d')" if "x \<in> set (list_cas_for_repair stale_db)" for n x d
    using that ca toy_repair_ca by (metis prod.collapse)
  then obtain a d1 where r1: "repair_rows (repair_ca toy_service ?ev) 0 (list_cas_for_repair stale_db) stale_db = (Inr a, d1)"
    using repair_rows_goes by metis
  have "certs d1 = certs stale_db"
    using repair_rows_keep [of certs "repair_ca toy_service ?ev" 0 "list_cas_for_repair stale_db" stale_db,
        OF repair_ca_certs] r1 by simp
  then have same: "list_certs_for_repair d1 = list_certs_for_repair stale_db" by (simp add: list_certs_for_repair_def)
  have "\<exists>k d'. repair_cert toy_service ?ev n x d = (Inr k, d')" if "x \<in> set (list_certs_for_repair d1)" for n x d
    using that ce toy_repair_cert unfolding same by (metis prod.collapse)
  then obtain b d2 where "repair_rows (repair_cert toy_service ?ev) (length (list_cas_for_repair stale_db))
      (list_certs_for_repair d1) d1 = (Inr b, d2)"
    using repair_rows_goes by metis
  with r1 show ?thesis by (simp add: repair_stale_metadata_def db_then_def db_read_def db_give_def)
qed

end
