(* ===== verification/Repair_Facts.thy ===== *)
theory Repair_Facts
  imports Ca_Facts
begin

text \<open>
  The repair of metadata looks at each row once: what it leaves has no unchecked row.
\<close>

text \<open>The ids of the rows of version 0.\<close>

definition pending :: "('r \<Rightarrow> string) \<Rightarrow> ('r \<Rightarrow> int) \<Rightarrow> 'r list \<Rightarrow> string set" where
  "pending g v t = g ` {r \<in> set t. v r = 0}"

lemma pending_update:
  assumes "\<And>r. g (f r) = g r" and "\<And>r. v (f r) = 1"
  shows "pending g v (update_where (\<lambda>r. g r = i) f t) = pending g v t - {i}"
proof (intro equalityI subsetI)
  fix x assume "x \<in> pending g v (update_where (\<lambda>r. g r = i) f t)"
  then obtain s where s: "s \<in> set t" "v (if g s = i then f s else s) = 0" "x = g (if g s = i then f s else s)"
    unfolding pending_def set_update_where by blast
  then have "g s \<noteq> i" using assms(2) by (metis zero_neq_one)
  with s show "x \<in> pending g v t - {i}" unfolding pending_def by auto
next
  fix x assume "x \<in> pending g v t - {i}"
  then obtain s where s: "s \<in> set t" "v s = 0" "x = g s" "g s \<noteq> i" unfolding pending_def by blast
  then have "s \<in> set (update_where (\<lambda>r. g r = i) f t)" by (force simp: set_update_where)
  with s show "x \<in> pending g v (update_where (\<lambda>r. g r = i) f t)" unfolding pending_def by blast
qed

definition pending_cas :: "db \<Rightarrow> string set" where
  "pending_cas d = pending car_id car_meta_version (cas d)"

definition pending_certs :: "db \<Rightarrow> string set" where
  "pending_certs d = pending cer_id cer_meta_version (certs d)"

lemma pending_steps:
  "pending_cas (mark_ca_meta_checked i d) = pending_cas d - {i}"
  "pending_certs (mark_ca_meta_checked i d) = pending_certs d"
  "pending_cas (update_ca_meta_repaired meta d) = pending_cas d - {m_id meta}"
  "pending_certs (update_ca_meta_repaired meta d) = pending_certs d"
  "pending_certs (mark_cert_meta_checked i d) = pending_certs d - {i}"
  "pending_cas (mark_cert_meta_checked i d) = pending_cas d"
  "pending_certs (update_cert_meta_repaired cmeta d) = pending_certs d - {m_id cmeta}"
  "pending_cas (update_cert_meta_repaired cmeta d) = pending_cas d"
  unfolding pending_cas_def pending_certs_def mark_ca_meta_checked_def update_ca_meta_repaired_def
    mark_cert_meta_checked_def update_cert_meta_repaired_def
  by (simp_all, (subst pending_update; simp add: car_id_def cer_id_def)+)

lemma repaired_ca_meta_id: "m_id (repaired_ca_meta v ds meta) = m_id meta"
  by (simp add: repaired_ca_meta_def apply_derived_subject_def Let_def)

lemma repair_ca_work_id:
  assumes "repair_ca_work sv ev n meta pem w = (Inr (Some m), w')"
  shows "m_id m = m_id meta"
proof -
  obtain r :: "(string \<times> string) list result" and w1 where rest: "(case r of Inl e \<Rightarrow> give None | Inr info \<Rightarrow>
         and_then (if has_fabricated_subject (m_country_code meta) (m_organization meta)
                   then derive_subject sv pem info else give no_subject) (\<lambda>derived.
         give (Some (repaired_ca_meta (validity_from_info (sv_parse_date sv) (ev_clock ev n) info)
           derived meta)))) w1 = (Inr (Some m), w')"
    using iffD1 [OF and_then_Inr assms [unfolded repair_ca_work_def]] by (elim exE conjE) (rule that)
  then show ?thesis
    by (cases r) (auto simp: give_Inr and_then_Inr repaired_ca_meta_id)
qed

lemma repair_ca_checks:
  assumes "repair_ca sv ev n x d = (Inr k, d')"
  shows "pending_cas d' = pending_cas d - {m_id (fst x)} \<and> pending_certs d' = pending_certs d"
proof -
  obtain r where r: "in_workdir ev n (repair_ca_work sv ev n (fst x) (from_utf8_lossy (snd x))) = Inr r"
    and rest: "(case r of
        None \<Rightarrow> db_then (db_write (\<lambda>d. Inr (mark_ca_meta_checked (m_id (fst x)) d))) (\<lambda>_. db_give 0)
      | Some meta \<Rightarrow> db_then (db_write (\<lambda>d. Inr (update_ca_meta_repaired meta d))) (\<lambda>_.
          db_give (if ca_meta_changed meta (fst x) then 1 else 0))) d = (Inr k, d')"
    using assms unfolding repair_ca_def db_act_simps by blast
  show ?thesis
  proof (cases r)
    case None
    then have "d' = mark_ca_meta_checked (m_id (fst x)) d" using rest by (auto simp: db_act_simps)
    then show ?thesis by (simp only: pending_steps)
  next
    case (Some meta)
    then have m: "m_id meta = m_id (fst x)"
      using r repair_ca_work_id unfolding in_workdir_Inr by blast
    have "d' = update_ca_meta_repaired meta d" using rest Some by (auto simp: db_act_simps)
    then show ?thesis by (simp only: pending_steps m)
  qed
qed

lemma repair_cert_work_id:
  assumes "repair_cert_work sv meta pem w = (Inr m, w')"
  shows "m_id m = m_id meta"
  using assms unfolding repair_cert_work_def
  by (auto simp: act_simps apply_derived_subject_def)

lemma repair_cert_checks:
  assumes "repair_cert sv ev n x d = (Inr k, d')"
  shows "pending_certs d' = pending_certs d - {m_id (fst x)} \<and> pending_cas d' = pending_cas d"
proof (cases "has_fabricated_subject (m_country_code (fst x)) (m_organization (fst x))")
  case False
  then have "d' = mark_cert_meta_checked (m_id (fst x)) d"
    using assms by (auto simp: repair_cert_def db_act_simps)
  then show ?thesis by (simp only: pending_steps)
next
  case True
  then obtain meta where w: "in_workdir ev n (repair_cert_work sv (fst x) (from_utf8_lossy (snd x))) = Inr meta"
    and d': "d' = update_cert_meta_repaired meta d"
    using assms by (auto simp: repair_cert_def db_act_simps)
  from w have m: "m_id meta = m_id (fst x)" using repair_cert_work_id unfolding in_workdir_Inr by blast
  show ?thesis by (simp only: d' pending_steps m)
qed

lemma repair_rows_checks:
  assumes "\<And>n x k d d'. f n x d = (Inr k, d') \<Longrightarrow> u d' = u d - {g x} \<and> v d' = v d"
    and "repair_rows f n xs d = (Inr k, d')"
  shows "u d' = u d - g ` set xs \<and> v d' = v d"
  using assms(2)
proof (induction xs arbitrary: n k d)
  case Nil
  then show ?case by (simp add: db_act_simps)
next
  case (Cons x xs)
  then obtain a b d1 where "f n x d = (Inr a, d1)" "repair_rows f (Suc n) xs d1 = (Inr b, d')"
    by (auto simp: db_act_simps)
  with Cons.IH [of "Suc n" d1 b] assms(1) [of n x d a d1] show ?case by auto
qed

lemma pending_lists:
  "(\<lambda>x. m_id (fst x)) ` set (list_cas_for_repair d) = pending_cas d"
  "(\<lambda>x. m_id (fst x)) ` set (list_certs_for_repair d) = pending_certs d"
proof -
  show "(\<lambda>x. m_id (fst x)) ` set (list_cas_for_repair d) = pending_cas d"
    by (simp add: list_cas_for_repair_def pending_cas_def pending_def image_image car_id_def)
  have "m_id (row_to_meta r) = cer_id r" for r
    by (simp add: row_to_meta_def cer_id_def subject_meta.defs cert_meta.defs)
  then show "(\<lambda>x. m_id (fst x)) ` set (list_certs_for_repair d) = pending_certs d"
    by (simp add: list_certs_for_repair_def pending_certs_def pending_def image_image)
qed

lemma all_checked:
  "pending_cas d = {} \<Longrightarrow> list_cas_for_repair d = []"
  "pending_certs d = {} \<Longrightarrow> list_certs_for_repair d = []"
  using pending_lists [of d] by (simp_all only: image_is_empty set_empty)

lemma repair_leaves_none:
  assumes "repair_stale_metadata sv ev d = (Inr k, d')"
  shows "list_cas_for_repair d' = [] \<and> list_certs_for_repair d' = []"
proof -
  obtain a d1 b where r1: "repair_rows (repair_ca sv ev) 0 (list_cas_for_repair d) d = (Inr a, d1)"
    and r2: "repair_rows (repair_cert sv ev) (length (list_cas_for_repair d)) (list_certs_for_repair d1) d1 =
      (Inr b, d')"
    using assms unfolding repair_stale_metadata_def by (auto simp: db_act_simps)
  have c1: "pending_cas d1 = {}"
    using repair_rows_checks [where f = "repair_ca sv ev" and u = pending_cas and v = pending_certs and
        g = "\<lambda>x. m_id (fst x)", OF _ r1] repair_ca_checks
    by (simp add: pending_lists)
  have "pending_certs d' = {} \<and> pending_cas d' = pending_cas d1"
    using repair_rows_checks [where f = "repair_cert sv ev" and u = pending_certs and v = pending_cas and
        g = "\<lambda>x. m_id (fst x)", OF _ r2] repair_cert_checks
    by (simp add: pending_lists)
  with c1 show ?thesis using all_checked by blast
qed

lemma repair_settles:
  "repair_stale_metadata sv ev d = (Inr k, d') \<Longrightarrow> repair_stale_metadata sv ev' d' = (Inr (0, 0), d')"
  by (drule repair_leaves_none) (simp add: repair_stale_metadata_def db_then_def db_read_def db_give_def)

end
