(* ===== verification/Claims_Service.thy ===== *)
theory Claims_Service
  imports Service_Samples Repair_Facts
begin

text \<open>
  The properties of the service as a whole: how its operations refine transactions, what
  renewals, revocations and new CAs leave behind, and that repairs are done once.
\<close>

section \<open>Service operations and transactions\<close>

text \<open>
  C24. Every operation of the service is a run of transactions, whatever its outcome: the
  database it leaves is the one a sequence of the transactions of \<open>Db_Ops\<close> leaves, each
  signing under the lock owner drawn for this request, and each stored truststore built
  from the CA certificate it is stored for. So what holds of all runs of transactions, in
  any interleaving, holds of the service.
\<close>

theorem service_refines_transactions:
  "\<exists>ops. list_all (client_op sv ev) ops \<and> snd (service_exec sv su ev opn d) = db_run ops d"
  using service_exec_writes [of sv ev su opn] unfolding writing_def by blast

text \<open>
  C25. Signing follows the lock protocol: an operation that issues, imports, renews or
  revokes under a CA writes nothing, or takes the lock of that CA for two minutes and then
  either commits one transaction that is checked against the lock, or gives it back; what
  it writes after that is neither signed nor locked.
\<close>

theorem signing_follows_protocol:
  assumes "signing_target opn = Some c"
  shows "\<exists>ops rest. lock_protocol c (ev_owner ev) ops \<and> list_all (\<lambda>o1. signer o1 = None) rest \<and>
    snd (service_exec sv su ev opn d) = db_run (ops @ rest) d"
  by (rule signing_protocol [OF assms])

lemma signing_follows_protocol_witness:
  "\<exists>ops rest. lock_protocol ''c1'' ''p'' ops \<and> list_all (\<lambda>o1. signer o1 = None) rest \<and>
     snd (forget toy_revoke) = db_run (ops @ rest) sample_db"
  using signing_follows_protocol [of "Revoke_cert_op ''c1'' ''e1'' ''superseded''" "''c1''"
      "toy_env ''p'' ''e9''" toy_service undefined sample_db]
  by simp

text \<open>
  C26. The truststore a client downloads is built from the certificate the CA has at that
  moment, never from one it had before a renewal, in every state clients can reach from an
  empty database, whatever the interleaving of their transactions.
\<close>

theorem served_truststore_current:
  assumes "client_reachable (sv_tools sv) d"
    and "download_ca sv ev c CaTruststore d = (Inr (name, ts), d')"
  shows "\<exists>s. get_ca_secrets c d = Inr s \<and> built (sv_tools sv) (s_cert_pem s) ts"
proof -
  have ok: "schema_ok d" and tr: "truststores_ok (built (sv_tools sv)) d"
    using client_reachable_inv [OF assms(1)] by simp_all
  obtain s where s: "get_ca_secrets c d = Inr s"
    and t: "truststore sv ev c (s_cert_pem s) d = (Inr ts, d')"
    using assms(2) unfolding download_ca_def by (auto simp: db_act_simps)
  obtain stored where st: "get_ca_truststore c d = Inr stored"
    and r: "(if stored \<noteq> [] then db_give stored else build_truststore sv ev 0 c (s_cert_pem s)) d = (Inr ts, d')"
    using t unfolding truststore_def by (auto simp: db_act_simps)
  show ?thesis
  proof (cases "stored = []")
    case True
    then have "in_workdir ev 0 (truststore_pkcs12 (sv_tools sv) (s_cert_pem s) (''minica-'' @ c)
        truststore_password) = Inr ts"
      using r by (auto simp: build_truststore_def db_act_simps)
    then show ?thesis using s in_workdir_built by blast
  next
    case False
    then have "stored = ts" using r by (simp add: db_give_Inr)
    obtain row where row: "find (active_ca c) (cas d) = Some row" "s = car_secrets row"
      using s by (auto simp: get_ca_secrets_def res_simps)
    then have "row \<in> set (cas d)" "car_truststore row = ts"
      using st \<open>stored = ts\<close> by (auto simp: get_ca_truststore_def dest: find_Some_iff_D)
    then have "built (sv_tools sv) (s_cert_pem s) ts"
      using tr row False \<open>stored = ts\<close> unfolding truststores_ok_def by auto
    then show ?thesis using s by blast
  qed
qed

lemma served_truststore_current_witness:
  "\<exists>v d name ts d'. toy_new_ca = (Inr v, d) \<and>
     download_ca toy_service (toy_env ''p'' ''e9'') ''e9'' CaTruststore d = (Inr (name, ts), d') \<and>
     (\<exists>s. get_ca_secrets ''e9'' d = Inr s \<and> built toy_tools (s_cert_pem s) ts)"
proof -
  obtain v d where n: "toy_new_ca = (Inr v, d)" using toy_new_ca_done by blast
  obtain x where p: "prepare_ca toy_service (toy_env ''p'' ''e9'') toy_ca_request empty_db = Inr x"
    and st: "store_ca toy_service (toy_env ''p'' ''e9'') x empty_db = (Inr v, d)"
    using n unfolding create_ca_def by (auto simp: db_act_simps)
  obtain meta s where x: "x = (meta, s)" by (cases x)
  have m: "m_id meta = ''e9''" using prepare_ca_Inr(2) p x by simp
  have s: "get_ca_secrets ''e9'' d = Inr s" and ok: "schema_ok d"
    using store_ca_Inr [OF schema_ok_empty st [unfolded x]] m by metis+
  have "client_reachable (sv_tools toy_service)
      (snd (service_exec toy_service undefined (toy_env ''p'' ''e9'') (Create_ca_op toy_ca_request) empty_db))"
    by (rule service_exec_reachable) (rule client_reachable.start)
  then have r: "client_reachable toy_tools d" by (simp add: forget_def n)
  obtain y d' where y: "download_ca toy_service (toy_env ''p'' ''e9'') ''e9'' CaTruststore d = (Inr y, d')"
    using download_truststore_goes [OF s _ _ ok, of toy_service "toy_env ''p'' ''e9''"] toy_works by auto
  obtain name ts where "y = (name, ts)" by (cases y)
  with y served_truststore_current [of toy_service d "toy_env ''p'' ''e9''" "''e9''" name ts d'] r n
  show ?thesis by auto
qed

section \<open>Certificate authorities\<close>

text \<open>
  C27. A CA that was created is live under its new id, with the requested name, validity
  and password; the name was free; and the database has grown by its row and is otherwise as
  it was: no other CA, no certificate, lock, user or template is touched.
\<close>

theorem created_ca_as_requested:
  assumes "schema_ok d" and "create_ca sv ev req d = (Inr v, d')"
  shows "\<not> ca_common_name_exists (rq_common_name req) d \<and>
    get_ca (ev_id ev) d' = Inr (v\<lparr>v_crl_url := None\<rparr>) \<and> m_common_name v = rq_common_name req \<and>
    m_valid_days v = rq_valid_days req \<and>
    (\<exists>meta s ts. d' = d\<lparr>cas := cas d @ [\<lparr>car_meta = meta, car_secrets = s, car_truststore = ts,
        car_deleted = False, car_created_at = ev_clock ev 3, car_updated_at = ev_clock ev 3, car_meta_version = 1\<rparr>]\<rparr> \<and>
      m_id meta = ev_id ev \<and> m_common_name meta = rq_common_name req \<and> m_valid_days meta = rq_valid_days req \<and>
      get_ca_secrets (ev_id ev) d' = Inr s \<and> s_password s = password_of ev (rq_password req)) \<and>
    (\<forall>c. c \<noteq> ev_id ev \<longrightarrow> get_ca_secrets c d' = get_ca_secrets c d)"
proof -
  obtain meta s where p: "prepare_ca sv ev req d = Inr (meta, s)"
    and st: "store_ca sv ev (meta, s) d = (Inr v, d')"
    using assms(2) unfolding create_ca_def by (auto simp: db_act_simps)
  note facts = prepare_ca_Inr [OF p]
  obtain ts where d': "d' = d\<lparr>cas := cas d @ [\<lparr>car_meta = meta, car_secrets = s, car_truststore = ts,
      car_deleted = False, car_created_at = ev_clock ev 3, car_updated_at = ev_clock ev 3, car_meta_version = 1\<rparr>]\<rparr>"
    using st by (rule store_ca_row)
  have "get_ca_secrets c d' = get_ca_secrets c d" if "c \<noteq> ev_id ev" for c
    using that facts(2)
    by (simp add: d' get_ca_secrets_def find_append active_ca_def car_id_def split: option.splits)
  then show ?thesis using store_ca_Inr [OF assms(1) st] facts d' by metis
qed

lemma created_ca_as_requested_witness:
  "\<exists>v d. toy_new_ca = (Inr v, d) \<and> m_common_name v = ''Root CA'' \<and>
     get_ca ''e9'' d = Inr (v\<lparr>v_crl_url := None\<rparr>)"
proof -
  obtain v d where n: "toy_new_ca = (Inr v, d)" using toy_new_ca_done by blast
  then show ?thesis
    using created_ca_as_requested [OF schema_ok_empty, of toy_service "toy_env ''p'' ''e9''" toy_ca_request v d]
    by (simp add: toy_ca_request_def)
qed


text \<open>
  C28. A renewed CA keeps its key and its password and gets a certificate with a new serial
  number; its key belongs to the certificate that was renewed; the new validity, counted
  from the new issue time, ends after the certificate that was renewed does, as openssl
  prints it or else as the row has it; and the lock is given back.
\<close>

theorem renewed_ca_extends:
  assumes "schema_ok d" and "frame_ok (sv_tools sv)" and "reads_ok (sv_tools sv) serial_of pub_of keypub_of"
    and "renew_ca sv ev c days d = (Inr v, d')"
  shows "\<exists>ca s s' info w w'. get_ca c d = Inr ca \<and> get_ca_secrets c d = Inr s \<and>
    get_ca_secrets c d' = Inr s' \<and> s_key_pem s' = s_key_pem s \<and> s_password s' = s_password s \<and>
    serial_of (s_cert_pem s') \<noteq> serial_of (s_cert_pem s) \<and>
    trim (from_utf8_lossy (keypub_of (s_key_pem s))) = trim (from_utf8_lossy (pub_of (s_cert_pem s))) \<and>
    m_issue_time v = ev_clock ev 1 \<and> m_valid_days v = days \<and>
    inspect_cert (sv_tools sv) (from_utf8_lossy (s_cert_pem s)) w = (Inr info, w') \<and>
    (case not_after sv info of Some t \<Rightarrow> t | None \<Rightarrow> expiry (m_issue_time ca) (m_valid_days ca)) <
      expiry (m_issue_time v) (m_valid_days v) \<and> \<not> db_holds d' c (ev_owner ev)"
proof (rule renew_ca_done [OF assms(1,4)])
  fix ca s s' p12 and bundles :: "(string \<times> string) list"
  assume facts: "get_ca c d = Inr ca" "get_ca_secrets c d = Inr s" "get_ca_secrets c d' = Inr s'"
      "s_key_pem s' = s_key_pem s" "s_password s' = s_password s" "m_issue_time v = ev_clock ev 1"
      "m_valid_days v = days" "\<not> db_holds d' c (ev_owner ev)"
    and work: "in_workdir ev 0 (renew_ca_work sv ev ca days (fallback_digest (m_digest_algorithm ca)) s) =
      Inr (s_cert_pem s', p12)"
  obtain path w where "renew_ca_work sv ev ca days (fallback_digest (m_digest_algorithm ca)) s
      (fresh_workdir path) = (Inr (s_cert_pem s', p12), w)"
    using work unfolding in_workdir_Inr by blast
  then obtain info w1 where i: "inspect_cert (sv_tools sv) (from_utf8_lossy (s_cert_pem s)) (fresh_workdir path) = (Inr info, w1)"
    and e: "ca_renewal_extends (ev_clock ev 1) (case not_after sv info of Some t \<Rightarrow> t
        | None \<Rightarrow> expiry (m_issue_time ca) (m_valid_days ca)) days = Inr ()"
    and f: "renew_ca_files (sv_tools sv) (ev_random ev) s days (fallback_digest (m_digest_algorithm ca)) w1 =
        (Inr (s_cert_pem s', p12), w)"
    unfolding renew_ca_work_def and_then_Inr lift_res_Inr by (elim exE conjE) (rule that; simp)
  note checked = renew_ca_files_checked [OF assms(2,3) f]
  have "(case not_after sv info of Some t \<Rightarrow> t | None \<Rightarrow> expiry (m_issue_time ca) (m_valid_days ca)) <
      expiry (ev_clock ev 1) days"
    using e by (simp add: ca_renewal_extends_def not_le split: if_split_asm)
  then show ?thesis using facts i checked(1,2) by metis
qed

lemma renewed_ca_extends_witness:
  "\<exists>v d s s'. toy_renew_ca = (Inr v, d) \<and> get_ca_secrets ''c1'' sample_db = Inr s \<and>
     get_ca_secrets ''c1'' d = Inr s' \<and> s_key_pem s' = s_key_pem s \<and>
     toy_serial (s_cert_pem s') \<noteq> toy_serial (s_cert_pem s) \<and> m_valid_days v = 900"
proof -
  obtain v d where r: "toy_renew_ca = (Inr v, d)" using toy_renew_ca_done by blast
  have "frame_ok (sv_tools toy_service)" "reads_ok (sv_tools toy_service) toy_serial toy_pub toy_pub"
    by (simp_all add: toy_frame toy_reads_ok)
  from renewed_ca_extends [OF sample_db_ok this r] r show ?thesis by auto
qed

text \<open>
  C29. Renewing a CA rebuilds the download bundles: afterwards the bundle of every
  certificate of the CA is the zip of that certificate's files and the new certificate of
  the CA, and those files themselves are the ones it had.
\<close>

theorem ca_renewal_rebuilds_bundles:
  assumes "schema_ok d" and "renew_ca sv ev c days d = (Inr v, d')" and "get_cert_secrets c i d = Inr k0"
  shows "\<exists>k s. get_cert_secrets c i d' = Inr k \<and> get_ca_secrets c d' = Inr s \<and>
    build_bundle (sv_tools sv) k (s_cert_pem s) = Inr (k_bundle_zip k) \<and>
    k\<lparr>k_bundle_zip := []\<rparr> = k0\<lparr>k_bundle_zip := []\<rparr>"
proof (rule renew_ca_done [OF assms(1,2)])
  fix s0 s' p12 bundles and ca :: certificate_authority
  assume b: "renewed_bundles sv c (s_cert_pem s') d = Inr bundles"
    and c: "certs d' = fold (put_bundle (ev_clock ev 2) c) bundles (certs d)"
    and s': "get_ca_secrets c d' = Inr s'" and ok: "schema_ok d'"
  have live: "ca_live d' c" using s' get_ca_secrets_Inr [OF ok] ca_live_iff [OF ok] by blast
  obtain r0 where r0: "r0 \<in> set (certs d)" "active_cert c i r0" "k0 = cer_secrets r0"
    using assms(3) unfolding get_cert_secrets_Inr [OF assms(1)] by blast
  then have "cer_ca_id r0 = c" by (simp add: active_cert_def)
  from renewed_bundles_row [OF assms(1) b r0(1) this]
  obtain r where r: "r \<in> set (certs d')" "rebundled r0 r"
    and z: "build_bundle (sv_tools sv) (cer_secrets r) (s_cert_pem s') = Inr (k_bundle_zip (cer_secrets r))"
    unfolding c by blast
  have "active_cert c i r" using r(2) r0(2) by (simp add: active_cert_def rebundled_def)
  then have "get_cert_secrets c i d' = Inr (cer_secrets r)"
    using r(1) live get_cert_secrets_Inr [OF ok] by blast
  moreover have "(cer_secrets r)\<lparr>k_bundle_zip := []\<rparr> = k0\<lparr>k_bundle_zip := []\<rparr>"
    using r(2) r0(3) by (simp add: rebundled_def)
  ultimately show ?thesis using z s' by blast
qed

lemma ca_renewal_rebuilds_bundles_witness:
  "\<exists>v d k s. toy_renew_ca = (Inr v, d) \<and> get_cert_secrets ''c1'' ''e1'' d = Inr k \<and>
     get_ca_secrets ''c1'' d = Inr s \<and> build_bundle toy_tools k (s_cert_pem s) = Inr (k_bundle_zip k)"
proof -
  obtain v d where r: "toy_renew_ca = (Inr v, d)" using toy_renew_ca_done by blast
  have "is_ok (get_cert_secrets ''c1'' ''e1'' sample_db)" by code_simp
  then obtain k0 where "get_cert_secrets ''c1'' ''e1'' sample_db = Inr k0" by (auto simp: is_ok_iff)
  from ca_renewal_rebuilds_bundles [OF sample_db_ok r this] r show ?thesis by auto
qed

section \<open>Certificates\<close>

text \<open>
  C30. Renewing a certificate moves its expiry: only a live certificate that is not revoked
  is renewed; afterwards it is still not revoked, its new validity, counted from the new
  issue time, ends later than the old one did, and its key, its request and its password
  are the ones it had; and the lock is given back.
\<close>

theorem renewed_cert_extends:
  assumes "schema_ok d" and "renew_cert sv ev c i days d = (Inr v, d')"
  shows "\<exists>cert k k'. get_cert c i d = Inr cert \<and> m_revoked_at cert = None \<and>
    get_cert c i d' = Inr v \<and> m_revoked_at v = None \<and> m_issue_time v = ev_clock ev 1 \<and>
    expiry (m_issue_time cert) (m_valid_days cert) < expiry (m_issue_time v) (m_valid_days v) \<and>
    get_cert_secrets c i d = Inr k \<and> get_cert_secrets c i d' = Inr k' \<and>
    k_key_pem k' = k_key_pem k \<and> k_csr_pem k' = k_csr_pem k \<and> k_password k' = k_password k \<and>
    \<not> db_holds d' c (ev_owner ev)"
proof (rule renew_cert_Inr [OF assms])
  fix p ca k pem p12 bun
  assume p: "plan_renewal sv ev c i days d = Inr p"
    and v: "m_issue_time v = ev_clock ev 1" "m_valid_days v = rp_days p" "m_revoked_at v = None"
    and rest: "get_cert_secrets c i d = Inr k" "get_cert c i d' = Inr v" "\<not> db_holds d' c (ev_owner ev)"
    and k': "get_cert_secrets c i d' = Inr (k\<lparr>k_cert_pem := pem, k_pkcs12 := p12, k_bundle_zip := bun\<rparr>)"
  show ?thesis
    by (rule plan_renewal_Inr [OF p]) (use v rest k' in auto)
qed

lemma renewed_cert_extends_witness:
  "\<exists>v d cert. toy_renew = (Inr v, d) \<and> get_cert ''c1'' ''e1'' sample_db = Inr cert \<and>
     expiry (m_issue_time cert) (m_valid_days cert) < expiry (m_issue_time v) (m_valid_days v)"
proof -
  obtain v d where r: "toy_renew = (Inr v, d)" using toy_renew_done by blast
  from renewed_cert_extends [OF sample_db_ok r] r show ?thesis by auto
qed

text \<open>
  C31. A revoked certificate is out of use: its row carries the reason and the time; the CA
  keeps the index that openssl wrote and the CRL made from it; in that index the serial
  number of the certificate is revoked, and no entry of the same subject, so none of the
  earlier certificates it replaced, is valid any more.
\<close>

theorem revoked_cert_withdrawn:
  assumes "schema_ok d" and "frame_ok (sv_tools sv)" and "revoke_ok (sv_tools sv)"
    and "reads_ok (sv_tools sv) serial_of pub_of keypub_of"
    and "revoke_cert sv ev c i reason d = (Inr v, d')"
  shows "\<exists>reason' k s subject revocation. normalize_revocation_reason reason = Inr reason' \<and>
    get_cert c i d' = Inr v \<and> m_revoked_at v = Some (ev_clock ev 1) \<and>
    m_revocation_reason v = Some reason' \<and>
    get_cert_secrets c i d = Inr k \<and> get_ca_secrets c d' = Inr s \<and>
    (\<exists>l \<in> set (str_lines (s_index_txt s)).
       revoked_entry (printed_serial (serial_of (k_cert_pem k))) l = Some (revocation, subject)) \<and>
    (\<forall>l \<in> set (str_lines (s_index_txt s)). \<not> is_superseded subject l)"
proof (rule revoke_cert_done [OF assms(1,5)])
  fix reason' ca k x
  assume n: "normalize_revocation_reason reason = Inr reason'" and k: "get_cert_secrets c i d = Inr k"
    and f: "in_workdir ev 0 (revoke_cert_files (sv_tools sv) ca k reason' (sv_crl_days sv)) = Inr x"
    and v: "m_revoked_at v = Some (ev_clock ev 1)" "m_revocation_reason v = Some reason'" "get_cert c i d' = Inr v"
    and s: "\<exists>s. get_ca_secrets c d' = Inr s \<and> s_index_txt s = cr_index_txt x \<and>
      s_serial_txt s = cr_serial_txt x \<and> s_crl_der s = cr_crl_der x"
  obtain path w' where run: "revoke_cert_files (sv_tools sv) ca k reason' (sv_crl_days sv) (fresh_workdir path) = (Inr x, w')"
    using f unfolding in_workdir_Inr by blast
  have "reason' \<in> set revocation_reasons" using n unfolding normalize_reason_Inr by (rule conjunct1)
  from revoke_cert_files_withdrawn [OF assms(2-4) this run]
  obtain subject revocation where
    "\<exists>l \<in> set (str_lines (cr_index_txt x)).
       revoked_entry (printed_serial (serial_of (k_cert_pem k))) l = Some (revocation, subject)"
    "\<forall>l \<in> set (str_lines (cr_index_txt x)). \<not> is_superseded subject l"
    by blast
  moreover obtain s where "get_ca_secrets c d' = Inr s" "s_index_txt s = cr_index_txt x" using s by blast
  ultimately show ?thesis using n k v by metis
qed

lemma revoked_cert_withdrawn_witness:
  "\<exists>v d s subject. toy_revoke = (Inr v, d) \<and> m_revoked_at v = Some 1001 \<and>
     get_ca_secrets ''c1'' d = Inr s \<and> (\<forall>l \<in> set (str_lines (s_index_txt s)). \<not> is_superseded subject l)"
proof -
  obtain v d where r: "toy_revoke = (Inr v, d)" using toy_revoke_done by blast
  have t: "frame_ok (sv_tools toy_service)" "revoke_ok (sv_tools toy_service)"
    "reads_ok (sv_tools toy_service) toy_serial toy_pub toy_pub"
    by (simp_all add: toy_frame toy_revoke_ok toy_reads_ok)
  from revoked_cert_withdrawn [OF sample_db_ok t r] r show ?thesis by auto
qed

text \<open>
  C32. The repair of stale metadata is done once: after a repair that succeeds no row is
  marked for repair any more, and another one, at any time, finds nothing to do and leaves
  the database alone.
\<close>

theorem repair_done_once:
  assumes "repair_stale_metadata sv ev d = (Inr k, d')"
  shows "list_cas_for_repair d' = [] \<and> list_certs_for_repair d' = [] \<and>
    repair_stale_metadata sv ev' d' = (Inr (0, 0), d')"
  using repair_leaves_none [OF assms] repair_settles [OF assms] by simp

lemma repair_done_once_witness:
  "\<exists>k d'. repair_stale_metadata toy_service (toy_env ''p'' ''e9'') stale_db = (Inr k, d') \<and>
     list_cas_for_repair stale_db \<noteq> [] \<and> list_cas_for_repair d' = []"
proof -
  obtain k d' where r: "repair_stale_metadata toy_service (toy_env ''p'' ''e9'') stale_db = (Inr k, d')"
    using toy_repair_done by blast
  have "length (list_cas_for_repair stale_db) = 2" by code_simp
  with r repair_done_once [OF r] show ?thesis by auto
qed

text \<open>
  C33. Revoking superseded index entries, which the code does field by field on the text,
  is the update of the parsed index: where the index has a revoked entry for the serial
  number, exactly the valid entries of that entry's subject become revoked, at the same
  time and with the same reason, and every other line reads as before; done again it
  changes nothing.
\<close>

theorem superseded_entries_revoked:
  assumes "first_some (revoked_entry serial) (str_lines index) = Some (revocation, subject)"
    and "CR \<notin> set index" and "revoke_superseded_index_entries index serial = (index', n)"
  shows "map entry_view (str_lines index') =
      map (map_option (revoke_entry revocation subject)) (map entry_view (str_lines index)) \<and>
    n = length (filter (\<lambda>l. \<exists>e. entry_view l = Some e \<and> valid_for subject e) (str_lines index)) \<and>
    revoke_superseded_index_entries index' serial = (index', 0)"
proof -
  have "fst (revoke_superseded_index_entries index serial) = index'" using assms(3) by simp
  moreover have "n = length (filter (is_superseded subject) (str_lines index))"
    using assms(1,3) by (simp add: revoke_superseded_index_entries_def Let_def)
  then have "n = length (filter (\<lambda>l. \<exists>e. entry_view l = Some e \<and> valid_for subject e) (str_lines index))"
    unfolding is_superseded_view .
  ultimately show ?thesis
    using superseded_refines [OF assms(1,2)] superseded_idem [OF assms(1,2)] by simp
qed

lemma superseded_entries_revoked_witness:
  "revoke_superseded_index_entries (toy_index ''0B'') ''0B'' =
     (fst (revoke_superseded_index_entries (toy_index ''0B'') ''0B''), 1) \<and>
   map (map_option ie_status) (map entry_view
     (str_lines (fst (revoke_superseded_index_entries (toy_index ''0B'') ''0B'')))) =
     [Some ''R'', Some ''R'']"
proof -
  let ?r = "revoke_superseded_index_entries (toy_index ''0B'') ''0B''"
  have f: "first_some (revoked_entry ''0B'') (str_lines (toy_index ''0B'')) = Some (''250101000000Z'', ''/CN=web'')"
    "CR \<notin> set (toy_index ''0B'')"
    by code_simp+
  have l: "length (filter (\<lambda>l. \<exists>e. entry_view l = Some e \<and> valid_for ''/CN=web'' e)
      (str_lines (toy_index ''0B''))) = 1"
    unfolding is_superseded_view [symmetric] by code_simp
  have v: "map (map_option ie_status) (map (map_option (revoke_entry ''250101000000Z'' ''/CN=web''))
      (map entry_view (str_lines (toy_index ''0B'')))) = [Some ''R'', Some ''R'']"
    by code_simp
  have "?r = (fst ?r, snd ?r)" by simp
  from superseded_entries_revoked [OF f this] l v show ?thesis by (simp add: prod_eq_iff)
qed

end
