(* ===== verification/Auth.thy ===== *)
theory Auth
  imports Config Ip_Roundtrip Accounts "HOL-Library.AList"
begin

text \<open>
  Who a request comes from (\<open>src/src/auth.rs\<close>, the authentication part of
  \<open>src/src/config.rs\<close> and \<open>stamp_peer_ip\<close> of \<open>src/src/web.rs\<close>): Basic
  authentication against the accounts of the configuration and of the database with its
  cache of recent logins, identity headers of a trusted proxy, and request tokens.
  bcrypt, SHA-256, base64, JSON and the networks of the crate ipnet are parameters; a
  network is given as the set of addresses it contains.
\<close>

section \<open>Configuration\<close>

record header_auth =
  ha_enabled :: bool
  ha_username :: string
  ha_group :: string
  ha_admin_group :: string
  ha_viewer_group :: string
  ha_trusted_remotes :: "string list"
  ha_trust_all :: bool
  ha_networks :: "(ip_addr \<Rightarrow> bool) list"

record user_config =
  uc_username :: string
  uc_password :: string
  uc_role :: role

record users_config =
  us_enabled :: bool
  us_list :: "user_config list"

record auth_config =
  au_users :: "users_config option"
  au_headers :: "header_auth option"

definition active_headers :: "auth_config \<Rightarrow> header_auth option" where
  "active_headers a =
     (case au_headers a of Some h \<Rightarrow> if ha_enabled h then Some h else None | None \<Rightarrow> None)"

definition users_enabled :: "auth_config \<Rightarrow> bool" where
  "users_enabled a \<longleftrightarrow> (case au_users a of Some u \<Rightarrow> us_enabled u | None \<Rightarrow> False)"

definition basic_users :: "auth_config \<Rightarrow> user_config list" where
  "basic_users a =
     (case au_users a of Some u \<Rightarrow> if us_enabled u then us_list u else [] | None \<Rightarrow> [])"

text \<open>\<open>-\<close> and the empty string stand for entries that are not set.\<close>

definition parse_trusted_remotes ::
  "(string \<Rightarrow> (ip_addr \<Rightarrow> bool) option) \<Rightarrow> (ip_addr \<Rightarrow> ip_addr \<Rightarrow> bool) \<Rightarrow> string list \<Rightarrow>
   (ip_addr \<Rightarrow> bool) list result"
where
  "parse_trusted_remotes parse_net host_net entries =
     map_res (\<lambda>entry. case parse_net (trim entry) of
         Some n \<Rightarrow> Inr n
       | None \<Rightarrow> (case parse_ip (trim entry) of
           Some a \<Rightarrow> Inr (host_net a)
         | None \<Rightarrow> Inl (Bail (''auth.headers.trusted_remotes: invalid IP or CIDR: '' @ entry))))
       (filter (\<lambda>entry. trim entry \<noteq> [] \<and> trim entry \<noteq> ''-'') entries)"

definition validate_auth ::
  "(string \<Rightarrow> (ip_addr \<Rightarrow> bool) option) \<Rightarrow> (ip_addr \<Rightarrow> ip_addr \<Rightarrow> bool) \<Rightarrow> auth_config \<Rightarrow>
   auth_config result"
where
  "validate_auth parse_net host_net a =
     (case active_headers a of
        Some h \<Rightarrow>
          bind_res (parse_trusted_remotes parse_net host_net (ha_trusted_remotes h)) (\<lambda>nets.
          if nets = [] \<and> \<not> ha_trust_all h
          then Inl (Bail (''auth.headers: header auth is enabled but trusted_remotes is empty, so any client could assert identity headers; '' @
            ''list the reverse proxy's IP/CIDR in auth.headers.trusted_remotes, or set auth.headers.trust_all_remotes: true to explicitly trust every remote''))
          else Inr (a\<lparr>au_headers := Some (h\<lparr>ha_networks := nets\<rparr>)\<rparr>))
      | None \<Rightarrow>
          if users_enabled a then Inr a
          else Inl (Bail (''auth: no authentication mode enabled '' @ map char_of [226 :: nat, 128, 148] @
            '' enable '' @ quoted ''users'' @ '' (basic auth) or '' @ quoted ''headers'' @ '' (reverse-proxy header auth)'')))"

section \<open>Headers\<close>

text \<open>
  A header map in order, the first value of a name being the one \<open>get\<close> returns. A value is
  text (\<open>to_str\<close>) when it is visible ASCII, blanks and tabs.
\<close>

type_synonym headers = "(string \<times> string) list"

definition visible_char :: "char \<Rightarrow> bool" where
  "visible_char c \<longleftrightarrow> (32 \<le> byte c \<and> byte c < 127) \<or> c = TAB"

definition header_get :: "string \<Rightarrow> headers \<Rightarrow> string option" where
  "header_get name hs = map_option snd (find (\<lambda>(n, _). eq_ignore_ascii_case n name) hs)"

definition header_str :: "string \<Rightarrow> headers \<Rightarrow> string option" where
  "header_str name hs =
     (case header_get name hs of
        Some v \<Rightarrow> if list_all visible_char v then Some v else None
      | None \<Rightarrow> None)"

definition header_value :: "string \<Rightarrow> headers \<Rightarrow> string option" where
  "header_value name hs =
     (case header_str name hs of
        Some v \<Rightarrow> if trim v = [] then None else Some (trim v)
      | None \<Rightarrow> None)"

definition header_insert :: "string \<Rightarrow> string \<Rightarrow> headers \<Rightarrow> headers" where
  "header_insert name v hs = (name, v) # filter (\<lambda>(n, _). \<not> eq_ignore_ascii_case n name) hs"

definition peer_ip_header :: string where "peer_ip_header = ''x-minica-peer-ip''"

text \<open>\<open>IpAddr::to_canonical\<close>: an IPv4 address written as IPv6 is that IPv4 address.\<close>

fun to_canonical :: "ip_addr \<Rightarrow> ip_addr" where
  "to_canonical (V4 os) = V4 os"
| "to_canonical (V6 gs) =
     (if take 6 gs = [0, 0, 0, 0, 0, 65535]
      then V4 [gs ! 6 div 256, gs ! 6 mod 256, gs ! 7 div 256, gs ! 7 mod 256] else V6 gs)"

definition stamp_peer_ip :: "ip_addr \<Rightarrow> headers \<Rightarrow> headers" where
  "stamp_peer_ip peer hs =
     (let ip = show_ip (to_canonical peer)
      in header_insert peer_ip_header (if list_all visible_char ip then ip else ''unknown'') hs)"

section \<open>Login cache\<close>

record auth_env =
  ae_bcrypt :: "string \<Rightarrow> string \<Rightarrow> bool"
  ae_b64 :: "string \<Rightarrow> string result"
  ae_json :: "string \<Rightarrow> string list option"
  ae_sha256 :: "string \<Rightarrow> string"
  ae_salt :: string
  ae_clock :: "nat \<Rightarrow> int"

text \<open>The cache maps keys to the moment, in milliseconds, they expire.\<close>

type_synonym login_cache = "(string \<times> int) list"

definition login_ttl :: int where "login_ttl = 300 * 1000"
definition login_cache_max :: nat where "login_cache_max = 1024"

definition le64 :: "nat \<Rightarrow> string" where
  "le64 n = map (\<lambda>i. char_of (n div 256 ^ i mod 256)) [0..<8]"

definition login_message :: "string \<Rightarrow> string \<Rightarrow> string \<Rightarrow> string \<Rightarrow> string" where
  "login_message salt username stored password =
     concat (map (\<lambda>part. le64 (length part) @ part) [salt, username, stored, password])"

definition login_key :: "auth_env \<Rightarrow> string \<Rightarrow> string \<Rightarrow> string \<Rightarrow> string" where
  "login_key ae username stored password =
     ae_sha256 ae (login_message (ae_salt ae) username stored password)"

definition cached :: "int \<Rightarrow> string \<Rightarrow> login_cache \<Rightarrow> bool" where
  "cached now key cache \<longleftrightarrow> (case map_of cache key of Some expires \<Rightarrow> now < expires | None \<Rightarrow> False)"

text \<open>A full cache first drops what has expired, then everything.\<close>

definition cache_login :: "int \<Rightarrow> string \<Rightarrow> login_cache \<Rightarrow> login_cache" where
  "cache_login now key cache =
     (let live = filter (\<lambda>e. now < snd e) cache;
          room = (if length cache < login_cache_max then cache
                  else if length live < login_cache_max then live else [])
      in AList.update key (now + login_ttl) room)"

definition verify_cached ::
  "auth_env \<Rightarrow> nat \<Rightarrow> string \<Rightarrow> string \<Rightarrow> string \<Rightarrow> bool \<Rightarrow> login_cache \<Rightarrow> bool \<times> login_cache"
where
  "verify_cached ae n username password stored verified cache =
     (let key = login_key ae username stored password; now = ae_clock ae n
      in if cached now key cache then (True, cache)
         else if \<not> verified then (False, cache)
         else (True, cache_login now key cache))"

section \<open>Passwords and tokens\<close>

unbundle bit_operations_syntax

definition byte_word :: "char \<Rightarrow> 8 word" where
  "byte_word c = of_nat (byte c)"

text \<open>The comparison that looks at every byte.\<close>

definition ct_eq :: "string \<Rightarrow> string \<Rightarrow> bool" where
  "ct_eq a b \<longleftrightarrow> length a = length b \<and>
     foldl (\<lambda>acc (x, y). acc OR (byte_word x XOR byte_word y)) 0 (zip a b) = 0"

definition looks_like_bcrypt :: "string \<Rightarrow> bool" where
  "looks_like_bcrypt s \<longleftrightarrow> starts_with ''$2a$'' s \<or> starts_with ''$2b$'' s \<or> starts_with ''$2y$'' s"

definition verify_config_password :: "auth_env \<Rightarrow> string \<Rightarrow> string \<Rightarrow> bool" where
  "verify_config_password ae stored provided =
     (if looks_like_bcrypt stored then ae_bcrypt ae provided stored else ct_eq stored provided)"

definition token_char :: "char \<Rightarrow> bool" where
  "token_char c \<longleftrightarrow> is_ascii_alphanumeric c \<or> c = CHR ''-'' \<or> c = CHR ''_''"

definition is_valid_csrf_token :: "string \<Rightarrow> bool" where
  "is_valid_csrf_token s \<longleftrightarrow> 16 \<le> length s \<and> length s \<le> 128 \<and> list_all token_char s"

fun csrf_tokens_match :: "string option \<Rightarrow> string option \<Rightarrow> bool" where
  "csrf_tokens_match (Some cookie) (Some submitted) \<longleftrightarrow> is_valid_csrf_token cookie \<and> ct_eq cookie submitted"
| "csrf_tokens_match _ _ \<longleftrightarrow> False"

definition cookie_part :: "string \<Rightarrow> string \<Rightarrow> string option" where
  "cookie_part name part =
     (case split_once (CHR ''='') (trim part) of
        Some (k, v) \<Rightarrow> if k = name then Some v else None
      | None \<Rightarrow> None)"

definition cookie_value :: "string \<Rightarrow> headers \<Rightarrow> string option" where
  "cookie_value name hs =
     (case header_str ''cookie'' hs of
        Some cookie \<Rightarrow> first_some (cookie_part name) (split_on (\<lambda>c. c = CHR '';'') cookie)
      | None \<Rightarrow> None)"

definition check_csrf :: "string \<Rightarrow> headers \<Rightarrow> unit result" where
  "check_csrf meth hs =
     (if meth \<in> {''GET'', ''HEAD'', ''OPTIONS''} then Inr ()
      else if csrf_tokens_match (cookie_value ''minica_csrf'' hs) (header_str ''x-csrf-token'' hs)
      then Inr () else Inl (Bail ''CSRF token missing or invalid''))"

section \<open>Basic authentication\<close>

record web_user =
  wu_name :: string
  wu_role :: role

fun check_bootstrap ::
  "auth_env \<Rightarrow> nat \<Rightarrow> string \<Rightarrow> string \<Rightarrow> user_config list \<Rightarrow> login_cache \<Rightarrow>
   web_user option \<times> login_cache"
where
  "check_bootstrap ae n username password [] cache = (None, cache)"
| "check_bootstrap ae n username password (u # us) cache =
     (if uc_username u = username
      then (case verify_cached ae n username password (uc_password u)
              (verify_config_password ae (uc_password u) password) cache of
              (True, cache') \<Rightarrow> (Some \<lparr>wu_name = uc_username u, wu_role = uc_role u\<rparr>, cache')
            | (False, cache') \<Rightarrow> check_bootstrap ae (Suc n) username password us cache')
      else check_bootstrap ae (Suc n) username password us cache)"

definition check_stored ::
  "auth_env \<Rightarrow> nat \<Rightarrow> string \<Rightarrow> string \<Rightarrow> db \<Rightarrow> login_cache \<Rightarrow> web_user option \<times> login_cache"
where
  "check_stored ae n username password d cache =
     (case find_user username d of
        None \<Rightarrow> (None, cache)
      | Some r \<Rightarrow>
          (case verify_cached ae n username password (u_password_hash r)
             (ae_bcrypt ae password (u_password_hash r)) cache of
             (True, cache') \<Rightarrow>
               (Some \<lparr>wu_name = u_username r,
                      wu_role = (case role_parse (u_role r) of Some x \<Rightarrow> x | None \<Rightarrow> Viewer)\<rparr>, cache')
           | (False, cache') \<Rightarrow> (None, cache')))"

definition basic_credentials :: "auth_env \<Rightarrow> headers \<Rightarrow> (string \<times> string) result" where
  "basic_credentials ae hs =
     (case header_get ''authorization'' hs of
        None \<Rightarrow> Inl (Bail ''missing Authorization header'')
      | Some v \<Rightarrow>
          (case strip_prefix ''Basic '' (if list_all visible_char v then v else []) of
             None \<Rightarrow> Inl (Bail ''unsupported Authorization header'')
           | Some encoded \<Rightarrow>
               bind_res (ae_b64 ae encoded) (\<lambda>decoded.
               case split_once (CHR '':'') (from_utf8_lossy decoded) of
                 None \<Rightarrow> Inl (Bail ''invalid Basic auth payload'')
               | Some up \<Rightarrow> Inr up)))"

text \<open>The accounts of the configuration first, then those of the database.\<close>

definition authenticate_basic ::
  "auth_env \<Rightarrow> nat \<Rightarrow> auth_config \<Rightarrow> headers \<Rightarrow> db \<Rightarrow> login_cache \<Rightarrow> web_user result \<times> login_cache"
where
  "authenticate_basic ae n a hs d cache =
     (case basic_credentials ae hs of
        Inl e \<Rightarrow> (Inl e, cache)
      | Inr (username, password) \<Rightarrow>
          (case check_bootstrap ae n username password (basic_users a) cache of
             (Some u, cache') \<Rightarrow> (Inr u, cache')
           | (None, cache') \<Rightarrow>
               (case check_stored ae (n + length (basic_users a)) username password d cache' of
                  (Some u, cache'') \<Rightarrow> (Inr u, cache'')
                | (None, cache'') \<Rightarrow> (Inl (Bail ''invalid username or password''), cache''))))"

section \<open>Identity headers\<close>

text \<open>A list in JSON, or split at commas and semicolons.\<close>

definition parse_groups :: "auth_env \<Rightarrow> string \<Rightarrow> string list" where
  "parse_groups ae raw =
     (let trimmed = trim raw;
          items = (case if starts_with ''['' trimmed then ae_json ae trimmed else None of
              Some xs \<Rightarrow> xs
            | None \<Rightarrow> split_on (\<lambda>c. c = CHR '','' \<or> c = CHR '';'') trimmed)
      in filter (\<lambda>x. x \<noteq> []) (map trim items))"

definition member_of :: "string list \<Rightarrow> string \<Rightarrow> bool" where
  "member_of groups name \<longleftrightarrow> (\<exists>g \<in> set groups. eq_ignore_ascii_case g (trim name))"

definition role_for_groups :: "string list \<Rightarrow> header_auth \<Rightarrow> role option" where
  "role_for_groups groups h =
     (if member_of groups (ha_admin_group h) then Some Admin
      else if member_of groups (ha_viewer_group h) then Some Viewer else None)"

definition peer_of :: "headers \<Rightarrow> ip_addr option" where
  "peer_of hs =
     (case header_value peer_ip_header hs of
        Some v \<Rightarrow> map_option to_canonical (parse_ip v)
      | None \<Rightarrow> None)"

definition trusted_peer :: "header_auth \<Rightarrow> ip_addr option \<Rightarrow> bool" where
  "trusted_peer h peer \<longleftrightarrow>
     (case peer of Some ip \<Rightarrow> \<exists>net \<in> set (ha_networks h). net ip | None \<Rightarrow> False)"

definition authenticate_headers :: "auth_env \<Rightarrow> headers \<Rightarrow> header_auth \<Rightarrow> web_user result" where
  "authenticate_headers ae hs h =
     (let username = header_value (ha_username h) hs; peer = peer_of hs
      in if (ha_networks h \<noteq> [] \<or> \<not> ha_trust_all h) \<and> \<not> trusted_peer h peer
         then Inl (Bail (''user '' @ quoted (case username of Some u \<Rightarrow> u | None \<Rightarrow> ''(anonymous)'') @
           '' was declared by untrusted remote '' @
           (case peer of Some ip \<Rightarrow> show_ip ip | None \<Rightarrow> ''unknown'')))
         else (case username of
           None \<Rightarrow> Inl (Bail (''missing or empty '' @ ha_username h @ '' request header''))
         | Some u \<Rightarrow>
             (case role_for_groups (parse_groups ae (case header_value (ha_group h) hs of
                 Some g \<Rightarrow> g | None \<Rightarrow> [])) h of
                Some r \<Rightarrow> Inr \<lparr>wu_name = u, wu_role = r\<rparr>
              | None \<Rightarrow> Inl (Bail (''user '' @ quoted u @ '' has no authorized group'')))))"

definition header_identity_present :: "headers \<Rightarrow> header_auth \<Rightarrow> bool" where
  "header_identity_present hs h \<longleftrightarrow> header_value (ha_username h) hs \<noteq> None"

section \<open>Authentication\<close>

definition authenticate ::
  "auth_env \<Rightarrow> nat \<Rightarrow> auth_config \<Rightarrow> headers \<Rightarrow> db \<Rightarrow> login_cache \<Rightarrow> web_user result \<times> login_cache"
where
  "authenticate ae n a hs d cache =
     (case active_headers a of
        Some h \<Rightarrow>
          if header_identity_present hs h \<or> \<not> users_enabled a
          then (authenticate_headers ae hs h, cache)
          else authenticate_basic ae n a hs d cache
      | None \<Rightarrow> authenticate_basic ae n a hs d cache)"

definition require_viewer ::
  "auth_env \<Rightarrow> nat \<Rightarrow> auth_config \<Rightarrow> headers \<Rightarrow> db \<Rightarrow> login_cache \<Rightarrow> web_user result \<times> login_cache"
where
  "require_viewer ae n a hs d cache = authenticate ae n a hs d cache"

definition require_admin ::
  "auth_env \<Rightarrow> nat \<Rightarrow> auth_config \<Rightarrow> headers \<Rightarrow> db \<Rightarrow> login_cache \<Rightarrow> web_user result \<times> login_cache"
where
  "require_admin ae n a hs d cache =
     (case authenticate ae n a hs d cache of
        (Inr u, cache') \<Rightarrow>
          (if can_write (wu_role u) then Inr u else Inl (Bail ''admin role required''), cache')
      | (Inl e, cache') \<Rightarrow> (Inl e, cache'))"

definition basic_session :: "auth_config \<Rightarrow> headers \<Rightarrow> bool" where
  "basic_session a hs \<longleftrightarrow> users_enabled a \<and>
     \<not> (case active_headers a of Some h \<Rightarrow> header_identity_present hs h | None \<Rightarrow> False)"

section \<open>Lemmas: comparison and tokens\<close>

lemma byte_word_inj: "byte_word c = byte_word c' \<longleftrightarrow> c = c'"
proof -
  have "unat (byte_word c) = byte c" for c
    by (simp add: byte_word_def byte_def unat_of_nat take_bit_eq_mod)
  then show ?thesis by (metis byte_def char_of_char)
qed

lemma xor_zero: "(x :: 8 word) XOR y = 0 \<longleftrightarrow> x = y"
  by (auto simp: bit_eq_iff bit_simps)

lemma foldl_or_zero:
  "foldl (\<lambda>acc (x, y). acc OR (f x XOR f y)) (a :: 8 word) ps = 0 \<longleftrightarrow>
     a = 0 \<and> (\<forall>(x, y) \<in> set ps. f x = f y)"
proof (induction ps arbitrary: a)
  case Nil
  then show ?case by simp
next
  case (Cons p ps)
  have "(a OR (f x XOR f y)) = 0 \<longleftrightarrow> a = 0 \<and> f x = f y" for x y
    by (simp add: or_eq_0_iff xor_zero)
  then show ?case using Cons by (cases p) auto
qed

text \<open>The comparison of every byte is equality.\<close>

lemma ct_eq_iff [simp]: "ct_eq a b \<longleftrightarrow> a = b"
proof (cases "length a = length b")
  case True
  then show ?thesis
    unfolding ct_eq_def foldl_or_zero byte_word_inj
    by (auto simp: list_eq_iff_nth_eq set_zip)
qed (auto simp: ct_eq_def)

lemma csrf_tokens_match_iff:
  "csrf_tokens_match a b \<longleftrightarrow> (\<exists>t. a = Some t \<and> b = Some t \<and> is_valid_csrf_token t)"
  by (cases "(a, b)" rule: csrf_tokens_match.cases) auto

section \<open>Lemmas: headers\<close>

lemma header_get_insert: "header_get name (header_insert name v hs) = Some v"
  by (simp add: header_get_def header_insert_def)

lemma header_get_insert_other:
  assumes "\<not> eq_ignore_ascii_case name other"
  shows "header_get other (header_insert name v hs) = header_get other hs"
proof -
  have "eq_ignore_ascii_case n other \<Longrightarrow> \<not> eq_ignore_ascii_case n name" for n
    using assms by (auto simp: eq_ignore_ascii_case_def)
  then have "find (\<lambda>(n, _). eq_ignore_ascii_case n other) (filter (\<lambda>(n, _). \<not> eq_ignore_ascii_case n name) hs) =
      find (\<lambda>(n, _). eq_ignore_ascii_case n other) hs"
    by (induction hs) auto
  then show ?thesis using assms by (simp add: header_get_def header_insert_def)
qed

lemma ip_text_visible: "list_all visible_char (show_ip a)"
  using show_ip_chars [of a] ip_char_graphic
  by (force simp: list_all_iff visible_char_def is_ascii_graphic_def byte_def)

lemma wf_to_canonical: "wf_ip a \<Longrightarrow> wf_ip (to_canonical a)"
proof (cases a)
  case (V6 gs)
  assume wf: "wf_ip a"
  then have "length gs = 8" "\<forall>g \<in> set gs. g \<le> 65535" using V6 by (simp_all add: list_all_iff)
  then have "gs ! 6 \<le> 65535" "gs ! 7 \<le> 65535" by simp_all
  then have "gs ! 6 div 256 \<le> 255" "gs ! 7 div 256 \<le> 255" by simp_all
  moreover have "g mod 256 \<le> 255" for g :: nat using mod_less_divisor [of 256 g] by linarith
  ultimately show ?thesis using wf V6 by simp
qed simp

lemma to_canonical_idem [simp]: "to_canonical (to_canonical a) = to_canonical a"
  by (cases a) simp_all

text \<open>The peer that authentication sees is the one the connection has.\<close>

lemma peer_of_stamped:
  assumes "wf_ip peer"
  shows "peer_of (stamp_peer_ip peer hs) = Some (to_canonical peer)"
proof -
  let ?ip = "show_ip (to_canonical peer)"
  have "\<forall>c \<in> set ?ip. is_ascii_graphic c"
    using show_ip_chars [of "to_canonical peer"] ip_char_graphic by (auto simp: list_all_iff)
  then have "trim ?ip = ?ip" by (rule trim_graphic)
  moreover have "?ip \<noteq> []" by (rule show_ip_not_Nil [OF wf_to_canonical [OF assms]])
  ultimately have "header_value peer_ip_header (stamp_peer_ip peer hs) = Some ?ip"
    by (simp add: header_value_def header_str_def stamp_peer_ip_def header_get_insert ip_text_visible)
  then show ?thesis by (simp add: peer_of_def parse_shown_ip [OF wf_to_canonical [OF assms]])
qed

lemma authenticate_headers_Inr:
  "authenticate_headers ae hs h = Inr u \<longleftrightarrow>
     (trusted_peer h (peer_of hs) \<or> ha_networks h = [] \<and> ha_trust_all h) \<and>
     header_value (ha_username h) hs = Some (wu_name u) \<and>
     role_for_groups (parse_groups ae (case header_value (ha_group h) hs of Some g \<Rightarrow> g | None \<Rightarrow> [])) h =
       Some (wu_role u)"
  by (cases u) (auto simp: authenticate_headers_def Let_def split: option.splits)

text \<open>The networks of a validated configuration are those its entries name.\<close>

lemma parse_trusted_remotes_names:
  assumes "parse_trusted_remotes parse_net host_net entries = Inr nets" and "net \<in> set nets"
  shows "\<exists>entry \<in> set entries. parse_net (trim entry) = Some net \<or>
    (\<exists>ip. parse_ip (trim entry) = Some ip \<and> net = host_net ip)"
proof -
  have "list_all (\<lambda>net. \<exists>entry \<in> set entries. parse_net (trim entry) = Some net \<or>
      (\<exists>ip. parse_ip (trim entry) = Some ip \<and> net = host_net ip)) nets"
    by (rule map_res_all [OF assms(1) [unfolded parse_trusted_remotes_def]])
      (auto split: option.splits)
  then show ?thesis using assms(2) by (simp add: list_all_iff)
qed

lemma validate_auth_headers:
  assumes "validate_auth parse_net host_net a0 = Inr a" and "active_headers a = Some h"
  obtains nets where "parse_trusted_remotes parse_net host_net (ha_trusted_remotes h) = Inr nets"
    and "ha_networks h = nets" and "nets = [] \<longrightarrow> ha_trust_all h"
proof (cases "active_headers a0")
  case None
  then have "a = a0" using assms(1) by (simp add: validate_auth_def split: if_splits)
  then show ?thesis using None assms(2) by simp
next
  case (Some h0)
  then have p: "parse_trusted_remotes parse_net host_net (ha_trusted_remotes h0) = Inr nets \<Longrightarrow>
      (if nets = [] \<and> \<not> ha_trust_all h0 then False else a = a0\<lparr>au_headers := Some (h0\<lparr>ha_networks := nets\<rparr>)\<rparr>)" for nets
    using assms(1) by (simp add: validate_auth_def split: if_splits)
  obtain nets where n: "parse_trusted_remotes parse_net host_net (ha_trusted_remotes h0) = Inr nets"
    using assms(1) Some by (cases "parse_trusted_remotes parse_net host_net (ha_trusted_remotes h0)")
      (simp_all add: validate_auth_def)
  with p have t: "nets = [] \<longrightarrow> ha_trust_all h0" and a: "a = a0\<lparr>au_headers := Some (h0\<lparr>ha_networks := nets\<rparr>)\<rparr>"
    by (auto split: if_splits)
  have "h = h0\<lparr>ha_networks := nets\<rparr>" using assms(2) a by (simp add: active_headers_def split: if_splits)
  then show ?thesis using n t that by simp
qed

section \<open>Lemmas: the login cache\<close>

text \<open>A password that is right for a stored credential, as the code checks it.\<close>

definition password_ok :: "auth_env \<Rightarrow> string \<Rightarrow> string \<Rightarrow> bool" where
  "password_ok ae stored p \<longleftrightarrow> verify_config_password ae stored p \<or> ae_bcrypt ae p stored"

text \<open>
  The caches a run of requests can leave, with the log of the checks that succeeded: the
  moment, the name, the stored credential and the password.
\<close>

inductive logins :: "auth_env \<Rightarrow> (int \<times> string \<times> string \<times> string) list \<Rightarrow> login_cache \<Rightarrow> bool"
  for ae :: auth_env
where
  start: "logins ae [] []"
| verified: "logins ae log cache \<Longrightarrow> password_ok ae s p \<Longrightarrow>
    logins ae ((now, u, s, p) # log) (cache_login now (login_key ae u s p) cache)"

lemma length_update: "length (AList.update k v xs) \<le> Suc (length xs)"
  by (induction xs) auto

lemma set_update: "e \<in> set (AList.update k v xs) \<Longrightarrow> e = (k, v) \<or> e \<in> set xs"
  by (induction xs) (auto split: if_splits)

lemma cache_login_bound:
  assumes "length cache \<le> login_cache_max"
  shows "length (cache_login now key cache) \<le> login_cache_max"
proof -
  let ?room = "if length cache < login_cache_max then cache
    else if length (filter (\<lambda>e. now < snd e) cache) < login_cache_max
      then filter (\<lambda>e. now < snd e) cache else []"
  have "length ?room < login_cache_max" by (simp add: login_cache_max_def)
  then show ?thesis
    using length_update [of key "now + login_ttl" ?room] unfolding cache_login_def Let_def by linarith
qed

lemma cache_login_entries:
  "e \<in> set (cache_login now key cache) \<Longrightarrow> e = (key, now + login_ttl) \<or> e \<in> set cache"
  unfolding cache_login_def Let_def by (drule set_update) (auto split: if_splits)

lemma logins_sound:
  assumes "logins ae log cache"
  shows "length cache \<le> login_cache_max" and "\<forall>(t, u, s, p) \<in> set log. password_ok ae s p"
    and "\<forall>(k, e) \<in> set cache. \<exists>(t, u, s, p) \<in> set log. k = login_key ae u s p \<and> e = t + login_ttl"
  using assms
proof induction
  case (verified log cache s p now u)
  {
    case 1
    then show ?case by (rule cache_login_bound [OF verified.IH(1)])
  next
    case 2
    then show ?case using verified by auto
  next
    case 3
    then show ?case using verified.IH(3) by (fastforce dest: cache_login_entries)
  }
qed simp_all

text \<open>The log after checks of one request: what it adds are its own checks.\<close>

definition grown ::
  "auth_env \<Rightarrow> string \<Rightarrow> string \<Rightarrow> (int \<times> string \<times> string \<times> string) list \<Rightarrow>
   (int \<times> string \<times> string \<times> string) list \<Rightarrow> bool"
where
  "grown ae username password log log' \<longleftrightarrow>
     (\<exists>new. log' = new @ log \<and> list_all (\<lambda>(t, u, s, p). u = username \<and> p = password \<and> t \<in> range (ae_clock ae)) new)"

lemma grown_refl [simp]: "grown ae u p log log"
  by (simp add: grown_def)

lemma grown_trans: "grown ae u p a b \<Longrightarrow> grown ae u p b c \<Longrightarrow> grown ae u p a c"
  unfolding grown_def
proof (elim exE conjE)
  fix x y
  assume "b = x @ a" "c = y @ b" "list_all (\<lambda>(t, v, s, q). v = u \<and> q = p \<and> t \<in> range (ae_clock ae)) x"
    "list_all (\<lambda>(t, v, s, q). v = u \<and> q = p \<and> t \<in> range (ae_clock ae)) y"
  then show "\<exists>new. c = new @ a \<and> list_all (\<lambda>(t, v, s, q). v = u \<and> q = p \<and> t \<in> range (ae_clock ae)) new"
    by (intro exI [of _ "y @ x"]) simp
qed

lemma grown_one: "grown ae u p log ((ae_clock ae n, u, s, p) # log)"
  unfolding grown_def by (rule exI [of _ "[(ae_clock ae n, u, s, p)]"]) simp

text \<open>
  One check: it succeeds for a password that is right, or one whose key is that of a check
  that succeeded less than the time to live ago.
\<close>

lemma verify_cached_sound:
  assumes "logins ae log cache" and "ok \<longrightarrow> password_ok ae stored password"
    and "verify_cached ae n username password stored ok cache = (r, cache')"
  shows "\<exists>log'. logins ae log' cache' \<and> grown ae username password log log' \<and> (r \<longrightarrow> (\<exists>(t, u, s, p) \<in> set log'.
    login_key ae u s p = login_key ae username stored password \<and> ae_clock ae n < t + login_ttl))"
proof -
  let ?k = "login_key ae username stored password"
  show ?thesis
  proof (cases "cached (ae_clock ae n) ?k cache")
    case True
    then obtain e where e: "(?k, e) \<in> set cache" "ae_clock ae n < e"
      by (auto simp: cached_def split: option.splits dest: map_of_SomeD)
    have "cache' = cache" using True assms(3) by (simp add: verify_cached_def)
    moreover have "\<exists>(t, u, s, p) \<in> set log. login_key ae u s p = ?k \<and> ae_clock ae n < t + login_ttl"
      using logins_sound(3) [OF assms(1)] e by fastforce
    ultimately show ?thesis using assms(1) grown_refl by blast
  next
    case False
    then show ?thesis
    proof (cases ok)
      case True
      then have "logins ae ((ae_clock ae n, username, stored, password) # log) cache'"
        using False assms(2,3) logins.verified [OF assms(1)] by (auto simp: verify_cached_def Let_def)
      moreover have "ae_clock ae n < ae_clock ae n + login_ttl" by (simp add: login_ttl_def)
      ultimately show ?thesis using grown_one [of ae username password log n stored] by force
    qed (use False assms in \<open>auto simp: verify_cached_def Let_def\<close>)
  qed
qed

section \<open>Lemmas: accounts\<close>

text \<open>The accounts of a name: stored credential and role.\<close>

definition accounts :: "auth_config \<Rightarrow> db \<Rightarrow> string \<Rightarrow> (string \<times> role) list" where
  "accounts a d username =
     map (\<lambda>x. (uc_password x, uc_role x)) (filter (\<lambda>x. uc_username x = username) (basic_users a)) @
     (case find_user username d of
        Some r \<Rightarrow> [(u_password_hash r, case role_parse (u_role r) of Some x \<Rightarrow> x | None \<Rightarrow> Viewer)]
      | None \<Rightarrow> [])"

definition recent_login ::
  "auth_env \<Rightarrow> (int \<times> string \<times> string \<times> string) list \<Rightarrow> string \<Rightarrow> string \<Rightarrow> string \<Rightarrow> bool"
where
  "recent_login ae log username stored password \<longleftrightarrow>
     (\<exists>(t, u, s, p) \<in> set log. \<exists>n. login_key ae u s p = login_key ae username stored password \<and>
        ae_clock ae n < t + login_ttl)"

lemma check_bootstrap_sound:
  assumes "logins ae log cache" and "check_bootstrap ae n username password us cache = (r, cache')"
  shows "\<exists>log'. logins ae log' cache' \<and> grown ae username password log log' \<and> (\<forall>u. r = Some u \<longrightarrow> wu_name u = username \<and>
    (\<exists>x \<in> set us. uc_username x = username \<and> wu_role u = uc_role x \<and>
       recent_login ae log' username (uc_password x) password))"
  using assms
proof (induction ae n username password us cache arbitrary: log rule: check_bootstrap.induct)
  case (1 ae n username password cache)
  then show ?case by (intro exI [of _ log]) simp
next
  case (2 ae n username password u us cache)
  show ?case
  proof (cases "uc_username u = username")
    case False
    then show ?thesis using 2(2) [OF False 2(3)] 2(4) by auto
  next
    case True
    obtain ok c where v: "verify_cached ae n username password (uc_password u)
        (verify_config_password ae (uc_password u) password) cache = (ok, c)" by fastforce
    obtain log' where l: "logins ae log' c" and g: "grown ae username password log log'"
      and k: "ok \<longrightarrow> recent_login ae log' username (uc_password u) password"
      using verify_cached_sound [OF 2(3) _ v] unfolding recent_login_def password_ok_def by fastforce
    show ?thesis
    proof (cases ok)
      case ok: True
      then have "cache' = c" "r = Some \<lparr>wu_name = uc_username u, wu_role = uc_role u\<rparr>"
        using 2(4) True v by auto
      then show ?thesis using l g k ok True by auto
    next
      case False
      then have "check_bootstrap ae (Suc n) username password us c = (r, cache')" using 2(4) True v by simp
      from 2(1) [OF True v [symmetric] _ l this] False show ?thesis using grown_trans [OF g] by auto
    qed
  qed
qed

lemma check_stored_sound:
  assumes "logins ae log cache" and "check_stored ae n username password d cache = (r, cache')"
  shows "\<exists>log'. logins ae log' cache' \<and> grown ae username password log log' \<and> (\<forall>u. r = Some u \<longrightarrow> wu_name u = username \<and>
    (\<exists>x. find_user username d = Some x \<and>
       wu_role u = (case role_parse (u_role x) of Some y \<Rightarrow> y | None \<Rightarrow> Viewer) \<and>
       recent_login ae log' username (u_password_hash x) password))"
proof (cases "find_user username d")
  case None
  then show ?thesis using assms by (intro exI [of _ log]) (simp add: check_stored_def)
next
  case (Some x)
  obtain ok c where v: "verify_cached ae n username password (u_password_hash x)
      (ae_bcrypt ae password (u_password_hash x)) cache = (ok, c)" by fastforce
  obtain log' where l: "logins ae log' c" and g: "grown ae username password log log'"
    and k: "ok \<longrightarrow> recent_login ae log' username (u_password_hash x) password"
    using verify_cached_sound [OF assms(1) _ v] unfolding recent_login_def password_ok_def by fastforce
  have "u_username x = username" using Some by (auto simp: find_user_def dest: find_Some_iff_D)
  then show ?thesis using assms(2) Some v l g k by (cases ok) (auto simp: check_stored_def)
qed

lemma authenticate_basic_sound:
  assumes "logins ae log cache" and "authenticate_basic ae n a hs d cache = (r, cache')"
  shows "\<exists>log'. logins ae log' cache' \<and> (\<forall>u. r = Inr u \<longrightarrow> (\<exists>password stored.
    basic_credentials ae hs = Inr (wu_name u, password) \<and> grown ae (wu_name u) password log log' \<and>
    (stored, wu_role u) \<in> set (accounts a d (wu_name u)) \<and>
    recent_login ae log' (wu_name u) stored password))"
proof (cases "basic_credentials ae hs")
  case (Inl e)
  then show ?thesis using assms by (auto simp: authenticate_basic_def)
next
  case (Inr up)
  obtain username password where up: "up = (username, password)" by fastforce
  obtain r1 c1 where b: "check_bootstrap ae n username password (basic_users a) cache = (r1, c1)" by fastforce
  from check_bootstrap_sound [OF assms(1) b] obtain log1 where l1: "logins ae log1 c1"
    and g1: "grown ae username password log log1"
    and u1: "\<And>u. r1 = Some u \<Longrightarrow> wu_name u = username \<and> (\<exists>x \<in> set (basic_users a). uc_username x = username \<and>
      wu_role u = uc_role x \<and> recent_login ae log1 username (uc_password x) password)" by blast
  show ?thesis
  proof (cases r1)
    case (Some u)
    then have "r = Inr u" "cache' = c1" using assms(2) Inr up b by (simp_all add: authenticate_basic_def)
    moreover obtain x where "x \<in> set (basic_users a)" "uc_username x = username" "wu_role u = uc_role x"
      "recent_login ae log1 username (uc_password x) password" "wu_name u = username" using u1 [OF Some] by blast
    moreover from this have "(uc_password x, wu_role u) \<in> set (accounts a d (wu_name u))"
      by (auto simp: accounts_def)
    ultimately show ?thesis using l1 g1 Inr up by auto
  next
    case None
    obtain r2 c2 where s: "check_stored ae (n + length (basic_users a)) username password d c1 = (r2, c2)" by fastforce
    from check_stored_sound [OF l1 s] obtain log2 where l2: "logins ae log2 c2"
      and g2: "grown ae username password log1 log2"
      and u2: "\<And>u. r2 = Some u \<Longrightarrow> wu_name u = username \<and> (\<exists>x. find_user username d = Some x \<and>
        wu_role u = (case role_parse (u_role x) of Some y \<Rightarrow> y | None \<Rightarrow> Viewer) \<and>
        recent_login ae log2 username (u_password_hash x) password)" by blast
    have c: "cache' = c2" and r: "r = (case r2 of Some u \<Rightarrow> Inr u | None \<Rightarrow> Inl (Bail ''invalid username or password''))"
      using assms(2) Inr up b s None by (auto simp: authenticate_basic_def split: option.splits)
    have "\<exists>password stored. basic_credentials ae hs = Inr (wu_name u, password) \<and>
        grown ae (wu_name u) password log log2 \<and> (stored, wu_role u) \<in> set (accounts a d (wu_name u)) \<and> recent_login ae log2 (wu_name u) stored password"
      if "r = Inr u" for u
    proof -
      have "r2 = Some u" using that r by (simp split: option.splits)
      from u2 [OF this] Inr up grown_trans [OF g1 g2] show ?thesis by (auto simp: accounts_def)
    qed
    then show ?thesis using l2 c by blast
  qed
qed

section \<open>Lemmas: keys of logins\<close>

lemma le64_length [simp]: "length (le64 n) = 8"
  by (simp add: le64_def)

lemma digits_mod:
  "(\<And>i. i < k \<Longrightarrow> n div 256 ^ i mod 256 = m div 256 ^ i mod 256) \<Longrightarrow> n mod 256 ^ k = m mod (256 ^ k :: nat)"
proof (induction k)
  case 0
  then show ?case by simp
next
  case (Suc k)
  have "x mod 256 ^ Suc k = 256 ^ k * (x div 256 ^ k mod 256) + x mod 256 ^ k" for x :: nat
    using mod_mult2_eq [of x "256 ^ k" 256] by (simp add: mult.commute)
  then show ?case using Suc.IH Suc.prems by simp
qed

lemma le64_inj:
  assumes "le64 n = le64 m" and "n < 2 ^ 64" and "m < 2 ^ 64"
  shows "n = m"
proof -
  have "n div 256 ^ i mod 256 = m div 256 ^ i mod 256" if "i < 8" for i
  proof -
    have "le64 n ! i = le64 m ! i" using assms(1) by simp
    then have "(char_of (n div 256 ^ i mod 256) :: char) = char_of (m div 256 ^ i mod 256)"
      using that by (simp add: le64_def)
    then have "of_char (char_of (n div 256 ^ i mod 256) :: char) = (of_char (char_of (m div 256 ^ i mod 256) :: char) :: nat)"
      by (rule arg_cong)
    then show ?thesis by simp
  qed
  then have "n mod 256 ^ 8 = m mod 256 ^ 8" by (rule digits_mod)
  then show ?thesis using assms(2,3) by simp
qed

lemma frame_inj:
  assumes "le64 (length a) @ a @ r = le64 (length b) @ b @ r'" and "length a < 2 ^ 64" and "length b < 2 ^ 64"
  shows "a = b \<and> r = r'"
proof -
  have "le64 (length a) = le64 (length b)" "a @ r = b @ r'" using assms(1) by simp_all
  moreover from this have "length a = length b" using le64_inj assms(2,3) by blast
  ultimately show ?thesis by simp
qed

lemma login_message_inj:
  assumes "login_message salt u s p = login_message salt u' s' p'"
    and "list_all (\<lambda>x. length x < 2 ^ 64) [salt, u, s, p, u', s', p']"
  shows "u = u' \<and> s = s' \<and> p = p'"
proof -
  have "le64 (length u) @ u @ le64 (length s) @ s @ le64 (length p) @ p @ [] =
      le64 (length u') @ u' @ le64 (length s') @ s' @ le64 (length p') @ p' @ []"
    using assms(1) by (simp add: login_message_def)
  moreover have "length u < 2 ^ 64" "length s < 2 ^ 64" "length p < 2 ^ 64"
    "length u' < 2 ^ 64" "length s' < 2 ^ 64" "length p' < 2 ^ 64"
    using assms(2) by simp_all
  ultimately show ?thesis using frame_inj by metis
qed

end
