(* ===== verification/Web_Text.thy ===== *)
theory Web_Text
  imports Auth Ca_Service
begin

text \<open>
  The text helpers of the web server (\<open>src/src/web.rs\<close>) and the filling of translated
  templates (\<open>src/src/i18n.rs\<close>): escaping, URLs, paths a redirect may go to, cookies,
  error statuses, downloads, forms and the pages of a CA list. URL-safe base64 and the
  message catalogues are parameters.
\<close>

section \<open>HTML and URLs\<close>

definition replace_char :: "char \<Rightarrow> string \<Rightarrow> string \<Rightarrow> string" where
  "replace_char c w s = concat (map (\<lambda>x. if x = c then w else [x]) s)"

definition h_text :: "string \<Rightarrow> string" where
  "h_text s = replace_char (CHR 0x22) ''&quot;'' (replace_char (CHR ''>'') ''&gt;''
           (replace_char (CHR ''<'') ''&lt;'' (replace_char (CHR ''&'') ''&amp;'' s)))"

definition unreserved :: "char \<Rightarrow> bool" where
  "unreserved c \<longleftrightarrow> is_ascii_alphanumeric c \<or> c \<in> set ''-._~''"

definition hex_digit_upper :: "nat \<Rightarrow> char" where
  "hex_digit_upper d = (if d < 10 then char_of (48 + d) else char_of (55 + d))"

definition url_encode :: "string \<Rightarrow> string" where
  "url_encode s =
     concat (map (\<lambda>c. if unreserved c then [c]
       else [CHR ''%'', hex_digit_upper (byte c div 16), hex_digit_upper (byte c mod 16)]) s)"

record app =
  ap_service :: service
  ap_auth :: auth_config
  ap_base_path :: string
  ap_secure_cookies :: bool

definition base_of :: "app \<Rightarrow> string" where
  "base_of app = trim_end_matches (\<lambda>c. c = CHR ''/'') (ap_base_path app)"

definition u_path :: "app \<Rightarrow> string \<Rightarrow> string" where
  "u_path app path = base_of app @ ''/'' @ trim_start_matches (\<lambda>c. c = CHR ''/'') path"

definition safe_return_path :: "app \<Rightarrow> string \<Rightarrow> string option" where
  "safe_return_path app path =
     (if \<not> starts_with ''/'' path \<or> starts_with ''//'' path \<or> BS \<in> set path \<or>
         \<not> list_all is_ascii_graphic path
      then None
      else (case strip_prefix (base_of app) path of
          None \<Rightarrow> None
        | Some rest \<Rightarrow>
            if \<not> (rest = [] \<or> hd rest \<in> set ''/?#'') \<or> rest = ''/lang'' \<or> starts_with ''/lang/'' rest
            then None else Some path))"

definition referer_path :: "app \<Rightarrow> headers \<Rightarrow> string option" where
  "referer_path app hs =
     (case (header_str ''referer'' hs, header_str ''host'' hs) of
        (Some referer, Some host) \<Rightarrow>
          (case (case strip_prefix ''http://'' referer of
                   Some r \<Rightarrow> Some r | None \<Rightarrow> strip_prefix ''https://'' referer) of
             None \<Rightarrow> None
           | Some rest \<Rightarrow>
               (case strip_prefix host rest of
                  None \<Rightarrow> None
                | Some path \<Rightarrow> if starts_with ''/'' path then safe_return_path app path else None))
      | _ \<Rightarrow> None)"

definition disposition_char :: "char \<Rightarrow> bool" where
  "disposition_char c \<longleftrightarrow> is_ascii_alphanumeric c \<or> c \<in> set ''._-''"

text \<open>One underscore for each character, not byte, that is replaced.\<close>

definition attachment_name :: "string \<Rightarrow> string" where
  "attachment_name name =
     (let safe = map (\<lambda>c. if disposition_char c then c else CHR ''_'') (filter (\<lambda>c. \<not> cont_byte (byte c)) name)
      in if safe = [] then ''download'' else safe)"

definition attachment_disposition :: "string \<Rightarrow> string" where
  "attachment_disposition name = ''attachment; filename='' @ [CHR 0x22] @ attachment_name name @ [CHR 0x22]"

section \<open>Cookies\<close>

definition cookie_attributes_with_same_site :: "app \<Rightarrow> string \<Rightarrow> string" where
  "cookie_attributes_with_same_site app same_site =
     ''Path='' @ cookie_path (ap_base_path app) @ ''; SameSite='' @ same_site @
       (if ap_secure_cookies app then ''; Secure'' else [])"

definition cookie_attributes :: "app \<Rightarrow> string" where
  "cookie_attributes app = cookie_attributes_with_same_site app ''Strict''"

definition cookie_header :: "app \<Rightarrow> string \<Rightarrow> string" where
  "cookie_header app token = ''minica_csrf='' @ token @ ''; '' @ cookie_attributes app @ ''; HttpOnly''"

definition flash_set_cookie :: "(string \<Rightarrow> string) \<Rightarrow> app \<Rightarrow> string \<Rightarrow> string \<Rightarrow> string" where
  "flash_set_cookie b64url app kind message =
     ''minica_flash='' @ b64url (kind @ [CHR 0x01] @ message) @ ''; Max-Age=20; '' @ cookie_attributes app"

definition flash_clear_cookie :: "app \<Rightarrow> string" where
  "flash_clear_cookie app = ''minica_flash=; Max-Age=0; '' @ cookie_attributes app"

definition read_flash :: "(string \<Rightarrow> string option) \<Rightarrow> headers \<Rightarrow> (string \<times> string) option" where
  "read_flash decode hs =
     (case cookie_value ''minica_flash'' hs of
        None \<Rightarrow> None
      | Some raw \<Rightarrow>
          (case decode raw of
             None \<Rightarrow> None
           | Some bytes \<Rightarrow> if valid_utf8 bytes then split_once (CHR 0x01) bytes else None))"

definition check_form_csrf :: "headers \<Rightarrow> string \<Rightarrow> unit result" where
  "check_form_csrf hs form_token =
     (if csrf_tokens_match (cookie_value ''minica_csrf'' hs) (Some form_token) then Inr ()
      else Inl (Bail ''CSRF token missing or invalid''))"

text \<open>\<open>fresh\<close> is the token drawn for this request.\<close>

definition current_or_new_csrf :: "string \<Rightarrow> headers \<Rightarrow> string" where
  "current_or_new_csrf fresh hs =
     (case cookie_value ''minica_csrf'' hs of
        Some token \<Rightarrow> if is_valid_csrf_token token then token else fresh
      | None \<Rightarrow> fresh)"

section \<open>Error statuses\<close>

definition status_for_error_message :: "string \<Rightarrow> nat" where
  "status_for_error_message msg =
     (if str_contains ''Authorization'' msg \<or> str_contains ''invalid username or password'' msg \<or>
         str_contains ''Basic auth'' msg \<or> str_contains ''request header'' msg then 401
      else if str_contains ''admin role'' msg \<or> str_contains ''no authorized group'' msg \<or>
         str_contains ''untrusted remote'' msg then 403
      else if str_contains ''busy'' msg then 409
      else if str_contains ''not found'' msg then 404 else 400)"

definition basic_challenge_applies :: "string \<Rightarrow> bool" where
  "basic_challenge_applies msg \<longleftrightarrow>
     str_contains ''Authorization'' msg \<or> str_contains ''username or password'' msg \<or>
     str_contains ''Basic auth'' msg"

definition error_code_for_status :: "nat \<Rightarrow> string \<Rightarrow> string" where
  "error_code_for_status status msg =
     (if str_contains ''CSRF'' msg then ''csrf_invalid''
      else if str_contains ''busy'' msg then ''resource_busy''
      else if status = 401 then ''unauthorized''
      else if status = 403 then ''forbidden''
      else if status = 404 then ''not_found''
      else if status = 409 then ''conflict''
      else if status = 400 then ''bad_request''
      else ''request_failed'')"

text \<open>Public routes tell database failures from everything else.\<close>

fun database_error :: "error \<Rightarrow> bool" where
  "database_error (Unique_violation c) \<longleftrightarrow> True"
| "database_error Foreign_key_violation \<longleftrightarrow> True"
| "database_error (Context m e) \<longleftrightarrow> database_error e"
| "database_error (Bail m) \<longleftrightarrow> False"
| "database_error (External m) \<longleftrightarrow> False"

definition public_error_status :: "error \<Rightarrow> nat" where
  "public_error_status e = (if database_error e then 500 else 404)"

section \<open>Forms and downloads\<close>

definition ca_download_kind :: "string \<Rightarrow> download result" where
  "ca_download_kind kind =
     (if kind = ''cert'' then Inr CaCert
      else if kind = ''key'' then Inr CaKey
      else if kind = ''pkcs12'' then Inr CaPkcs12
      else if kind = ''password'' then Inr CaPassword
      else if kind = ''truststore'' then Inr CaTruststore
      else if kind = ''truststore-password'' then Inr CaTruststorePassword
      else Inl (Bail ''unknown CA download kind''))"

definition cert_download_kind :: "string \<Rightarrow> download result" where
  "cert_download_kind kind =
     (if kind = ''bundle'' then Inr CertBundle
      else if kind = ''cert'' then Inr CertPem
      else if kind = ''csr'' then Inr CertCsr
      else if kind = ''key'' then Inr CertKey
      else if kind = ''pkcs12'' then Inr CertPkcs12
      else if kind = ''password'' then Inr CertPassword
      else Inl (Bail ''unknown certificate download kind''))"

definition empty_none :: "string \<Rightarrow> string option" where
  "empty_none v = (if trim v = [] then None else Some (trim v))"

definition split_commas :: "string \<Rightarrow> string list" where
  "split_commas v = filter (\<lambda>s. s \<noteq> []) (map trim (split_on (\<lambda>c. c = CHR '','') v))"

record ca_form =
  cf_common_name :: string
  cf_country_code :: string
  cf_state :: string
  cf_city :: string
  cf_organization :: string
  cf_organization_unit :: string
  cf_valid_days :: int
  cf_digest_algorithm :: string
  cf_key_profile :: string
  cf_password :: string

record cert_form = ca_form +
  cf_dns_list :: string
  cf_ip_list :: string

definition ca_form_request :: "ca_form \<Rightarrow> create_ca_request" where
  "ca_form_request f =
     \<lparr>rq_common_name = cf_common_name f, rq_country_code = cf_country_code f, rq_state = cf_state f,
      rq_city = cf_city f, rq_organization = cf_organization f,
      rq_organization_unit = cf_organization_unit f, rq_valid_days = cf_valid_days f,
      rq_digest_algorithm = cf_digest_algorithm f, rq_key_profile = cf_key_profile f,
      rq_password = empty_none (cf_password f)\<rparr>"

definition cert_form_request :: "cert_form \<Rightarrow> create_cert_request" where
  "cert_form_request f =
     \<lparr>rq_common_name = cf_common_name f, rq_country_code = cf_country_code f, rq_state = cf_state f,
      rq_city = cf_city f, rq_organization = cf_organization f,
      rq_organization_unit = cf_organization_unit f, rq_valid_days = cf_valid_days f,
      rq_digest_algorithm = cf_digest_algorithm f, rq_key_profile = cf_key_profile f,
      rq_password = empty_none (cf_password f),
      rq_dns_list = split_commas (cf_dns_list f), rq_ip_list = split_commas (cf_ip_list f)\<rparr>"

record template_form =
  tf_name :: string
  tf_scope :: string
  tf_is_default :: "string option"
  tf_country_code :: string
  tf_state :: string
  tf_city :: string
  tf_organization :: string
  tf_organization_unit :: string
  tf_valid_days :: string
  tf_digest_algorithm :: string
  tf_key_profile :: string

definition template_form_request :: "template_form \<Rightarrow> template_request result" where
  "template_form_request f =
     bind_res (if trim (tf_valid_days f) = [] then Inr None
               else (case parse_i64 (trim (tf_valid_days f)) of
                   Some i \<Rightarrow> Inr (Some i)
                 | None \<Rightarrow> Inl (Bail (''valid_days must be a whole number, got '' @ debug_str (trim (tf_valid_days f))))))
       (\<lambda>days. Inr \<lparr>tr_name = tf_name f, tr_scope = empty_none (tf_scope f),
          tr_is_default = tf_is_default f \<noteq> None,
          tr_values = \<lparr>tv_country_code = empty_none (tf_country_code f), tv_state = empty_none (tf_state f),
            tv_city = empty_none (tf_city f), tv_organization = empty_none (tf_organization f),
            tv_organization_unit = empty_none (tf_organization_unit f), tv_valid_days = days,
            tv_digest_algorithm = empty_none (tf_digest_algorithm f),
            tv_key_profile = empty_none (tf_key_profile f)\<rparr>\<rparr>)"

section \<open>Pages of a CA list\<close>

definition parse_usize :: "string \<Rightarrow> nat option" where
  "parse_usize s =
     (let ds = (if starts_with ''+'' s then drop 1 s else s)
      in if ds = [] \<or> \<not> list_all is_ascii_digit ds \<or> 2 ^ 64 \<le> digits_value ds then None
         else Some (digits_value ds))"

record 'a ca_page =
  cp_filter :: string
  cp_matched :: "'a list"
  cp_page :: nat
  cp_pages :: nat
  cp_start :: nat
  cp_size :: nat

text \<open>
  \<open>lower\<close> is \<open>str::to_lowercase\<close>, here on arbitrary names: the tables of Unicode decide.
\<close>

definition new_ca_page ::
  "(string \<Rightarrow> string) \<Rightarrow> certificate_authority list \<Rightarrow> string option \<Rightarrow> string option \<Rightarrow> nat \<Rightarrow> certificate_authority ca_page"
where
  "new_ca_page lower listed q page per =
     (let flt = trim (case q of Some x \<Rightarrow> x | None \<Rightarrow> []); needle = lower flt;
          matched = filter (\<lambda>ca. needle = [] \<or> str_contains needle (lower (m_common_name ca))) listed;
          pages = max ((length matched + per - 1) div per) 1;
          p = min (max (case page of
                Some s \<Rightarrow> (case parse_usize s of Some n \<Rightarrow> n | None \<Rightarrow> 1) | None \<Rightarrow> 1) 1) pages
      in \<lparr>cp_filter = flt, cp_matched = matched, cp_page = p, cp_pages = pages,
          cp_start = (p - 1) * per, cp_size = per\<rparr>)"

definition shown :: "'a ca_page \<Rightarrow> 'a list" where
  "shown c = drop (cp_start c) (take (min (length (cp_matched c)) (cp_start c + cp_size c)) (cp_matched c))"

section \<open>Languages\<close>

definition language_codes :: "string list" where
  "language_codes = [''en'', ''zh-CN'', ''zh-TW'', ''es'', ''fr'', ''de'', ''pt'', ''ja'', ''ko'', ''ru'', ''ar'', ''hi'']"

text \<open>The position of the first code that is equal but for case.\<close>

fun code_position :: "string list \<Rightarrow> string \<Rightarrow> nat option" where
  "code_position [] code = None"
| "code_position (c # cs) code =
     (if eq_ignore_ascii_case c code then Some 0 else map_option Suc (code_position cs code))"

definition lang_from_code :: "string \<Rightarrow> nat option" where
  "lang_from_code code = code_position language_codes code"

definition match_tag :: "string \<Rightarrow> nat option" where
  "match_tag tag =
     (let subtags = split_on (\<lambda>c. c = CHR ''-'' \<or> c = CHR ''_'') tag
      in if hd subtags = ''zh''
         then lang_from_code (if \<exists>s \<in> set (tl subtags). s \<in> {''hant'', ''tw'', ''hk'', ''mo''}
                              then ''zh-TW'' else ''zh-CN'')
         else (case lang_from_code tag of
             Some i \<Rightarrow> Some i
           | None \<Rightarrow> lang_from_code (hd subtags)))"

section \<open>Translated texts\<close>

lemma split_once_shorter: "split_once d s = Some (a, b) \<Longrightarrow> length b < length s"
  by (simp add: split_once_Some)

text \<open>Placeholders are filled in one pass; what was filled in is not read again.\<close>

function substitute :: "string \<Rightarrow> (string \<times> string) list \<Rightarrow> string" where
  "substitute [] args = []"
| "substitute (c # s) args =
     (if c \<noteq> CHR ''{'' then c # substitute s args
      else (case split_once (CHR ''}'') s of
          None \<Rightarrow> c # substitute s args
        | Some (name, rest) \<Rightarrow>
            (case map_of args name of
               None \<Rightarrow> c # substitute s args
             | Some v \<Rightarrow> v @ substitute rest args)))"
  by pat_completeness auto
termination
  by (relation "measure (\<lambda>(s, args). length s)") (auto dest: split_once_shorter)

text \<open>The catalogue of a language, by its number; number 0 is English.\<close>

definition template_text :: "(nat \<Rightarrow> string \<Rightarrow> string option) \<Rightarrow> nat \<Rightarrow> string \<Rightarrow> string" where
  "template_text catalogs lang key =
     (case catalogs lang key of
        Some v \<Rightarrow> v
      | None \<Rightarrow> (case catalogs 0 key of Some v \<Rightarrow> v | None \<Rightarrow> key))"

definition t_text :: "(nat \<Rightarrow> string \<Rightarrow> string option) \<Rightarrow> nat \<Rightarrow> string \<Rightarrow> string" where
  "t_text catalogs lang key = h_text (template_text catalogs lang key)"

definition tf_text ::
  "(nat \<Rightarrow> string \<Rightarrow> string option) \<Rightarrow> nat \<Rightarrow> string \<Rightarrow> (string \<times> string) list \<Rightarrow> string"
where
  "tf_text catalogs lang key args =
     substitute (h_text (template_text catalogs lang key)) (map (\<lambda>(n, v). (n, h_text v)) args)"

definition tf_html ::
  "(nat \<Rightarrow> string \<Rightarrow> string option) \<Rightarrow> nat \<Rightarrow> string \<Rightarrow> (string \<times> string) list \<Rightarrow> string"
where
  "tf_html catalogs lang key args = substitute (h_text (template_text catalogs lang key)) args"

definition tr_text ::
  "(nat \<Rightarrow> string \<Rightarrow> string option) \<Rightarrow> nat \<Rightarrow> string \<Rightarrow> (string \<times> string) list \<Rightarrow> string"
where
  "tr_text catalogs lang key args = substitute (template_text catalogs lang key) args"


section \<open>Lemmas: HTML\<close>

definition markup_char :: "char \<Rightarrow> bool" where
  "markup_char c \<longleftrightarrow> c \<in> set ''<>'' \<or> c = CHR 0x22"

definition entity :: "char \<Rightarrow> string" where
  "entity c =
     (if c = CHR ''&'' then ''&amp;'' else if c = CHR ''<'' then ''&lt;''
      else if c = CHR ''>'' then ''&gt;'' else if c = CHR 0x22 then ''&quot;'' else [c])"

lemma replace_char_append [simp]:
  "replace_char c w [] = []" "replace_char c w (s @ t) = replace_char c w s @ replace_char c w t"
  "replace_char c w (x # s) = (if x = c then w else [x]) @ replace_char c w s"
  by (simp_all add: replace_char_def)

text \<open>The four replacements after each other are one pass over the characters.\<close>

lemma h_text_entities: "h_text s = concat (map entity s)"
proof (induction s)
  case Nil
  then show ?case by (simp add: h_text_def)
next
  case (Cons c s)
  have "h_text (c # s) = h_text [c] @ h_text s" by (simp add: h_text_def)
  moreover have "h_text [c] = entity c" by (simp add: h_text_def entity_def)
  ultimately show ?case using Cons by simp
qed

lemma entity_no_markup: "x \<in> set (entity c) \<Longrightarrow> \<not> markup_char x"
  by (auto simp: entity_def markup_char_def split: if_splits)

lemma h_text_no_markup: "x \<in> set (h_text s) \<Longrightarrow> \<not> markup_char x"
  using entity_no_markup by (auto simp: h_text_entities)

lemma substitute_chars:
  "x \<in> set (substitute s args) \<Longrightarrow> x \<in> set s \<or> (\<exists>(n, v) \<in> set args. x \<in> set v)"
proof (induction s args rule: substitute.induct)
  case (1 args)
  then show ?case by simp
next
  case (2 c s args)
  show ?case
  proof (cases "c = CHR ''{'' \<and> (\<exists>name rest v. split_once (CHR ''}'') s = Some (name, rest) \<and> map_of args name = Some v)")
    case True
    then obtain name rest v where sp: "split_once (CHR ''}'') s = Some (name, rest)" and v: "map_of args name = Some v"
      by blast
    then have "x \<in> set v \<or> x \<in> set (substitute rest args)" using 2(5) True by auto
    moreover have "set rest \<subseteq> set s" using sp by (auto simp: split_once_Some)
    moreover have "x \<in> set (substitute rest args) \<Longrightarrow> x \<in> set rest \<or> (\<exists>(n, v) \<in> set args. x \<in> set v)"
      using 2(4) [OF _ sp refl v] True by simp
    ultimately show ?thesis using map_of_SomeD [OF v] by auto
  next
    case False
    then have "x = c \<or> x \<in> set (substitute s args)" using 2(5) by (auto split: if_splits option.splits)
    moreover have "x \<in> set (substitute s args) \<Longrightarrow> x \<in> set s \<or> (\<exists>(n, v) \<in> set args. x \<in> set v)"
    proof (cases "c = CHR ''{''")
      case c: True
      then show "x \<in> set (substitute s args) \<Longrightarrow> x \<in> set s \<or> (\<exists>(n, v) \<in> set args. x \<in> set v)"
        using 2 False by (cases "split_once (CHR 0x7D) s") (auto split: option.splits)
    qed (use 2(1) in simp)
    ultimately show ?thesis by auto
  qed
qed

section \<open>Lemmas: paths\<close>

lemma strip_prefix_Some: "strip_prefix p s = Some r \<longleftrightarrow> s = p @ r"
  by (auto simp: strip_prefix_def starts_with_def) (metis append_take_drop_id)

lemma safe_return_path_Some:
  "safe_return_path app path = Some p \<longleftrightarrow> p = path \<and> starts_with ''/'' path \<and> \<not> starts_with ''//'' path \<and>
     BS \<notin> set path \<and> list_all is_ascii_graphic path \<and>
     (\<exists>rest. path = base_of app @ rest \<and> (rest = [] \<or> hd rest \<in> set ''/?#'') \<and>
        rest \<noteq> ''/lang'' \<and> \<not> starts_with ''/lang/'' rest)"
proof (cases "strip_prefix (base_of app) path")
  case None
  then have "\<nexists>rest. path = base_of app @ rest" using strip_prefix_Some by (metis option.distinct(1))
  with None show ?thesis unfolding safe_return_path_def by auto
next
  case (Some rest)
  then have "path = base_of app @ r \<longleftrightarrow> r = rest" for r using strip_prefix_Some by auto
  with Some show ?thesis unfolding safe_return_path_def by auto
qed

lemma referer_path_Some: "referer_path app hs = Some p \<Longrightarrow> safe_return_path app p = Some p"
  by (auto simp: referer_path_def safe_return_path_Some split: option.splits if_splits)

section \<open>Lemmas: names in headers\<close>

lemma attachment_name_chars: "attachment_name name \<noteq> [] \<and> list_all disposition_char (attachment_name name)"
proof -
  have "disposition_char (CHR ''_'')" by (simp add: disposition_char_def)
  moreover have "list_all disposition_char ''download''"
    by (simp add: disposition_char_def is_ascii_alphanumeric_def byte_class_defs)
  ultimately show ?thesis by (auto simp: attachment_name_def Let_def list_all_iff)
qed

lemma current_or_new_csrf_valid:
  "is_valid_csrf_token fresh \<Longrightarrow> is_valid_csrf_token (current_or_new_csrf fresh hs)"
  by (auto simp: current_or_new_csrf_def split: option.splits)

lemma check_form_csrf_Inr:
  "check_form_csrf hs tok = Inr () \<longleftrightarrow> cookie_value ''minica_csrf'' hs = Some tok \<and> is_valid_csrf_token tok"
  by (auto simp: check_form_csrf_def csrf_tokens_match_iff)

lemma check_csrf_Inr:
  "check_csrf meth hs = Inr () \<longleftrightarrow> meth \<in> {''GET'', ''HEAD'', ''OPTIONS''} \<or>
     (\<exists>tok. cookie_value ''minica_csrf'' hs = Some tok \<and> header_str ''x-csrf-token'' hs = Some tok \<and>
        is_valid_csrf_token tok)"
  unfolding check_csrf_def csrf_tokens_match_iff by (simp only: sum.distinct split: if_split) blast

section \<open>Lemmas: pages\<close>

lemma page_slice: "drop a (take (min (length xs) (a + b)) xs) = take b (drop a xs)"
proof -
  have "take (min (length xs) (a + b)) xs = take (a + b) xs" by (cases "a + b \<le> length xs") simp_all
  then show ?thesis by (simp add: drop_take)
qed

lemma pages_prefix: "concat (map (\<lambda>p. take k (drop (p * k) xs)) [0..<n]) = take (n * k) xs"
proof (induction n)
  case (Suc n)
  have "take (Suc n * k) xs = take (n * k) xs @ take k (drop (n * k) xs)"
    using take_add [of "n * k" k xs] by (simp add: add.commute)
  then show ?case using Suc by simp
qed simp

end
