(* ===== verification/Web.thy ===== *)
theory Web
  imports Service_Ops Web_Text
begin

text \<open>
  The request handlers of \<open>src/src/web.rs\<close>, one case each: who may call them, which check
  of the request token they make, which operations of the service they run, and with what
  status they answer. Routing to a handler and decoding its path, query, form or JSON
  body are the library axum's: a handler starts with its decoded arguments, a rejected
  JSON body being \<open>None\<close>. The HTML of a page is left out, but for the request token in
  the cookie it sets. Headers are those after \<open>stamp_peer_ip\<close>.
\<close>

section \<open>Requests and replies\<close>

record world =
  w_db :: db
  w_cache :: login_cache

record request =
  hr_headers :: headers
  hr_auth :: auth_env
  hr_env :: env
  hr_sur :: surroundings
  hr_fresh :: string
  hr_yaml :: "string \<Rightarrow> backup_file result"

datatype reply =
    Page string     \<comment> \<open>with the request token in its cookie; also the answer of \<open>api_csrf\<close>\<close>
  | Public_page
  | Redirect_to string
  | File string string
  | Data
  | Error_page nat bool
  | Api_error nat string bool

type_synonym 'a web = "world \<Rightarrow> 'a result \<times> world"

definition web_give :: "'a \<Rightarrow> 'a web" where "web_give a w = (Inr a, w)"

definition web_res :: "'a result \<Rightarrow> 'a web" where "web_res r w = (r, w)"

definition web_then :: "'a web \<Rightarrow> ('a \<Rightarrow> 'b web) \<Rightarrow> 'b web" where
  "web_then m f w = (case m w of (Inl e, w') \<Rightarrow> (Inl e, w') | (Inr a, w') \<Rightarrow> f a w')"

definition web_try :: "'a web \<Rightarrow> 'a result web" where
  "web_try m w = (case m w of (r, w') \<Rightarrow> (Inr r, w'))"

definition on_db :: "'a db_act \<Rightarrow> 'a web" where
  "on_db m w = (case m (w_db w) of (r, d') \<Rightarrow> (r, w\<lparr>w_db := d'\<rparr>))"

text \<open>The surroundings of a later step of the same request.\<close>

definition later :: "nat \<Rightarrow> env \<Rightarrow> env" where
  "later k ev = ev\<lparr>ev_workdir := \<lambda>n. ev_workdir ev (n + k), ev_clock := \<lambda>n. ev_clock ev (n + k)\<rparr>"

definition serve :: "app \<Rightarrow> request \<Rightarrow> nat \<Rightarrow> service_op \<Rightarrow> unit web" where
  "serve app rq k opn = on_db (service_exec (ap_service app) (hr_sur rq) (later k (hr_env rq)) opn)"

definition look :: "(db \<Rightarrow> 'a result) \<Rightarrow> 'a web" where
  "look f = on_db (db_read f)"

section \<open>Guards\<close>

definition web_auth ::
  "(auth_env \<Rightarrow> nat \<Rightarrow> auth_config \<Rightarrow> headers \<Rightarrow> db \<Rightarrow> login_cache \<Rightarrow> web_user result \<times> login_cache) \<Rightarrow>
   app \<Rightarrow> request \<Rightarrow> nat \<Rightarrow> web_user web"
where
  "web_auth f app rq n w =
     (case f (hr_auth rq) n (ap_auth app) (hr_headers rq) (w_db w) (w_cache w) of
        (r, cache) \<Rightarrow> (r, w\<lparr>w_cache := cache\<rparr>))"

text \<open>Clock readings one authentication may use.\<close>

definition auth_slots :: "app \<Rightarrow> nat" where
  "auth_slots app = Suc (length (basic_users (ap_auth app)))"

definition admin_blocking :: "app \<Rightarrow> request \<Rightarrow> string option \<Rightarrow> 'a web \<Rightarrow> 'a web" where
  "admin_blocking app rq csrf f =
     web_then (web_auth require_admin app rq 0) (\<lambda>_.
     web_then (case csrf of None \<Rightarrow> web_give ()
               | Some token \<Rightarrow> web_res (check_form_csrf (hr_headers rq) token)) (\<lambda>_. f))"

definition viewer_blocking :: "app \<Rightarrow> request \<Rightarrow> 'a web \<Rightarrow> 'a web" where
  "viewer_blocking app rq f = web_then (web_auth require_viewer app rq 0) (\<lambda>_. f)"

definition error_response :: "error \<Rightarrow> reply" where
  "error_response e =
     (let msg = error_text e; status = status_for_error_message msg
      in Error_page status (status = 401 \<and> basic_challenge_applies msg))"

definition api_error_status :: "nat \<Rightarrow> string \<Rightarrow> string \<Rightarrow> reply" where
  "api_error_status status code msg = Api_error status code (status = 401 \<and> basic_challenge_applies msg)"

definition api_error_response :: "error \<Rightarrow> reply" where
  "api_error_response e =
     (let msg = error_text e; status = status_for_error_message msg
      in api_error_status status (error_code_for_status status msg) msg)"

definition answer :: "(error \<Rightarrow> reply) \<Rightarrow> ('a \<Rightarrow> reply) \<Rightarrow> 'a web \<Rightarrow> world \<Rightarrow> reply \<times> world" where
  "answer bad good m w = (case m w of (Inl e, w') \<Rightarrow> (bad e, w') | (Inr a, w') \<Rightarrow> (good a, w'))"

definition page_token :: "request \<Rightarrow> string" where
  "page_token rq = current_or_new_csrf (hr_fresh rq) (hr_headers rq)"

definition page_response :: "app \<Rightarrow> request \<Rightarrow> nat \<Rightarrow> 'a web \<Rightarrow> world \<Rightarrow> reply \<times> world" where
  "page_response app rq n f =
     answer error_response (\<lambda>_. Page (page_token rq)) (web_then (web_auth require_viewer app rq n) (\<lambda>_. f))"

definition admin_page_response :: "app \<Rightarrow> request \<Rightarrow> nat \<Rightarrow> 'a web \<Rightarrow> world \<Rightarrow> reply \<times> world" where
  "admin_page_response app rq n f =
     answer error_response (\<lambda>_. Page (page_token rq)) (web_then (web_auth require_admin app rq n) (\<lambda>_. f))"

definition mutate_form_response ::
  "app \<Rightarrow> request \<Rightarrow> string \<Rightarrow> string \<Rightarrow> unit web \<Rightarrow> world \<Rightarrow> reply \<times> world"
where
  "mutate_form_response app rq csrf target f =
     answer error_response (\<lambda>_. Redirect_to (u_path app target)) (admin_blocking app rq (Some csrf) f)"

text \<open>A creation form: refused by the service, it is shown again.\<close>

definition create_form_response ::
  "app \<Rightarrow> request \<Rightarrow> string \<Rightarrow> string \<Rightarrow> (world \<Rightarrow> reply \<times> world) \<Rightarrow> unit web \<Rightarrow> world \<Rightarrow> reply \<times> world"
where
  "create_form_response app rq csrf target again f w =
     (case admin_blocking app rq (Some csrf) (web_try f) w of
        (Inl e, w') \<Rightarrow> (error_response e, w')
      | (Inr (Inr _), w') \<Rightarrow> (Redirect_to (u_path app target), w')
      | (Inr (Inl _), w') \<Rightarrow> again w')"

definition api_view :: "app \<Rightarrow> request \<Rightarrow> 'a web \<Rightarrow> world \<Rightarrow> reply \<times> world" where
  "api_view app rq f = answer api_error_response (\<lambda>_. Data) (viewer_blocking app rq f)"

definition api_admin :: "app \<Rightarrow> request \<Rightarrow> string \<Rightarrow> 'a web \<Rightarrow> world \<Rightarrow> reply \<times> world" where
  "api_admin app rq meth f =
     answer api_error_response (\<lambda>_. Data)
       (admin_blocking app rq None (web_then (web_res (check_csrf meth (hr_headers rq))) (\<lambda>_. f)))"

definition api_json_rejection :: reply where
  "api_json_rejection = Api_error 400 ''invalid_json'' False"

text \<open>With a JSON body, or \<open>None\<close> for one that was rejected.\<close>

definition with_json :: "'a option \<Rightarrow> ('a \<Rightarrow> world \<Rightarrow> reply \<times> world) \<Rightarrow> world \<Rightarrow> reply \<times> world" where
  "with_json body f w = (case body of None \<Rightarrow> (api_json_rejection, w) | Some x \<Rightarrow> f x w)"

definition with_days :: "string \<Rightarrow> (int \<Rightarrow> world \<Rightarrow> reply \<times> world) \<Rightarrow> world \<Rightarrow> reply \<times> world" where
  "with_days days f w =
     (case parse_i64 days of
        None \<Rightarrow> (api_error_status 400 ''invalid_path'' ''days must be an integer'', w)
      | Some k \<Rightarrow> f k w)"

definition file_reply :: "string \<times> string \<Rightarrow> reply" where
  "file_reply x = File (attachment_disposition (fst x)) (snd x)"

definition public_error_response :: "error \<Rightarrow> reply" where
  "public_error_response e = Error_page (public_error_status e) False"

section \<open>Handlers\<close>

datatype upload_part = Part string string | Broken_part string

text \<open>The parts of an uploaded backup: the token and the text, the last of each.\<close>

fun read_upload :: "upload_part list \<Rightarrow> string \<Rightarrow> string \<Rightarrow> (string \<times> string) result" where
  "read_upload [] csrf yaml = Inr (csrf, yaml)"
| "read_upload (Broken_part err # ps) csrf yaml = Inl (Bail (''could not read backup upload: '' @ err))"
| "read_upload (Part name bytes # ps) csrf yaml =
     (if name = ''_csrf'' then read_upload ps bytes yaml
      else if name = ''backup'' then
        (if bytes = [] then Inl (Bail ''backup upload is empty'')
         else if \<not> valid_utf8 bytes then Inl (Bail ''backup upload must be a UTF-8 YAML file'')
         else read_upload ps csrf bytes)
      else read_upload ps csrf yaml)"

record import_form =
  if_cert_pem :: string
  if_key_pem :: string
  if_password :: string

definition import_form_ca :: "import_form \<Rightarrow> import_ca_request" where
  "import_form_ca f =
     \<lparr>ia_cert_pem = if_cert_pem f, ia_key_pem = if_key_pem f, ia_password = empty_none (if_password f)\<rparr>"

definition import_form_cert :: "import_form \<Rightarrow> import_cert_request" where
  "import_form_cert f =
     \<lparr>ic_cert_pem = if_cert_pem f, ic_key_pem = if_key_pem f, ic_password = empty_none (if_password f)\<rparr>"

definition ca_path :: "string \<Rightarrow> string" where
  "ca_path ca = ''/cas/'' @ ca"

definition cert_path :: "string \<Rightarrow> string \<Rightarrow> string" where
  "cert_path ca cert = ''/cas/'' @ ca @ ''/certs/'' @ cert"

definition public_ca_download :: "app \<Rightarrow> request \<Rightarrow> string \<Rightarrow> download \<Rightarrow> world \<Rightarrow> reply \<times> world" where
  "public_ca_download app rq ca kind =
     answer public_error_response file_reply
       (on_db (download_ca (ap_service app) (hr_env rq) ca kind))"

definition import_yaml :: "app \<Rightarrow> request \<Rightarrow> string \<Rightarrow> unit web" where
  "import_yaml app rq yaml =
     web_then (web_res (hr_yaml rq yaml)) (\<lambda>b. serve app rq 0 (Import_backup_op b))"

text \<open>The admin is checked before the upload is read, the token after it.\<close>

definition admin_backup_restore :: "app \<Rightarrow> request \<Rightarrow> upload_part list \<Rightarrow> world \<Rightarrow> reply \<times> world" where
  "admin_backup_restore app rq parts =
     answer error_response (\<lambda>_. Redirect_to (u_path app ''/admin''))
       (admin_blocking app rq None
         (web_then (web_res (read_upload parts [] [])) (\<lambda>(csrf, yaml).
          web_then (web_res (check_form_csrf (hr_headers rq) csrf)) (\<lambda>_.
          if trim yaml = [] then web_res (Inl (Bail ''choose a backup YAML file to restore''))
          else import_yaml app rq yaml))))"

definition admin_nuke :: "app \<Rightarrow> request \<Rightarrow> string \<Rightarrow> string option \<Rightarrow> world \<Rightarrow> reply \<times> world" where
  "admin_nuke app rq csrf confirm =
     mutate_form_response app rq csrf ''/admin''
       (if confirm \<noteq> Some ''CONFIRM'' then web_res (Inl (Bail ''type CONFIRM before nuking the database''))
        else serve app rq 0 Nuke_op)"

text \<open>The name shown in the notice is looked up first; a failure is ignored.\<close>

definition delete_ca_named :: "app \<Rightarrow> request \<Rightarrow> string \<Rightarrow> unit web" where
  "delete_ca_named app rq ca =
     web_then (web_try (serve app rq 0 (Get_ca_op ca))) (\<lambda>_. serve app rq 1 (Delete_ca_op ca))"

definition template_form_response ::
  "app \<Rightarrow> request \<Rightarrow> string \<Rightarrow> template_form \<Rightarrow> (template_request \<Rightarrow> service_op) \<Rightarrow> world \<Rightarrow> reply \<times> world"
where
  "template_form_response app rq csrf form opn =
     create_form_response app rq csrf ''/templates''
       (admin_page_response app rq (auth_slots app) (web_give ()))
       (web_then (web_res (template_form_request form)) (\<lambda>req. serve app rq 0 (opn req)))"

definition lang_reply :: "app \<Rightarrow> request \<Rightarrow> string \<Rightarrow> string option \<Rightarrow> reply" where
  "lang_reply app rq code return_to =
     (if lang_from_code code = None then Error_page 400 False
      else Redirect_to (case (case return_to of Some p \<Rightarrow> safe_return_path app p | None \<Rightarrow> None) of
          Some p \<Rightarrow> p
        | None \<Rightarrow> (case referer_path app (hr_headers rq) of Some p \<Rightarrow> p | None \<Rightarrow> u_path app ''/cas'')))"

definition api_find_cert_by_cn :: "app \<Rightarrow> request \<Rightarrow> string \<Rightarrow> string option \<Rightarrow> world \<Rightarrow> reply \<times> world" where
  "api_find_cert_by_cn app rq ca query w =
     (case viewer_blocking app rq (web_give ()) w of
        (Inl e, w') \<Rightarrow> (api_error_response e, w')
      | (Inr _, w') \<Rightarrow>
          (let cn = (case query of Some x \<Rightarrow> x | None \<Rightarrow> [])
           in if trim cn = [] then (api_error_status 400 ''invalid_query'' (''query parameter '' @ quoted ''cn'' @ '' is required''), w')
              else (case find_cert_id_by_cn ca cn (w_db w') of
                  Some _ \<Rightarrow> (Data, w')
                | None \<Rightarrow> (api_error_status 404 ''not_found''
                    ''no certificate with that common name under this CA'', w'))))"

section \<open>For everyone\<close>

definition home ::
  "app \<Rightarrow> request \<Rightarrow> world \<Rightarrow> reply \<times> world"
where
  "home app rq =
     answer (\<lambda>e. Error_page 500 False) (\<lambda>_. Public_page) (serve app rq 0 List_cas_op)"

definition crl_download ::
  "app \<Rightarrow> request \<Rightarrow> string \<Rightarrow> world \<Rightarrow> reply \<times> world"
where
  "crl_download app rq ca =
     answer public_error_response (\<lambda>bytes. file_reply (''ca-'' @ ca @ ''.crl'', bytes))
       (look (crl_der (ap_service app) ca))"

definition public_ca_cert_download ::
  "app \<Rightarrow> request \<Rightarrow> string \<Rightarrow> world \<Rightarrow> reply \<times> world"
where
  "public_ca_cert_download app rq ca = public_ca_download app rq ca CaCert"

definition web_download_ca ::
  "app \<Rightarrow> request \<Rightarrow> string \<Rightarrow> string \<Rightarrow> world \<Rightarrow> reply \<times> world"
where
  "web_download_ca app rq ca kind =
     (if kind = ''cert'' then public_ca_download app rq ca CaCert
      else if kind = ''truststore'' then public_ca_download app rq ca CaTruststore
      else if kind = ''truststore-password'' then public_ca_download app rq ca CaTruststorePassword
      else answer error_response file_reply
        (viewer_blocking app rq (web_then (web_res (ca_download_kind kind)) (\<lambda>k.
           on_db (download_ca (ap_service app) (hr_env rq) ca k)))))"

definition switch_lang ::
  "app \<Rightarrow> request \<Rightarrow> string \<Rightarrow> string option \<Rightarrow> world \<Rightarrow> reply \<times> world"
where
  "switch_lang app rq code return_to = Pair (lang_reply app rq code return_to)"

definition logout ::
  "app \<Rightarrow> request \<Rightarrow> world \<Rightarrow> reply \<times> world"
where
  "logout app rq = Pair (Error_page 401 True)"

definition api_csrf ::
  "app \<Rightarrow> request \<Rightarrow> world \<Rightarrow> reply \<times> world"
where
  "api_csrf app rq = Pair (Page (page_token rq))"

definition api_not_found ::
  "app \<Rightarrow> request \<Rightarrow> world \<Rightarrow> reply \<times> world"
where
  "api_not_found app rq = Pair (api_error_status 404 ''not_found'' ''API endpoint not found'')"

definition api_method_not_allowed ::
  "app \<Rightarrow> request \<Rightarrow> world \<Rightarrow> reply \<times> world"
where
  "api_method_not_allowed app rq =
     Pair (api_error_status 405 ''method_not_allowed'' ''HTTP method not allowed for this API endpoint'')"

section \<open>Pages and downloads\<close>

definition ca_list ::
  "app \<Rightarrow> request \<Rightarrow> world \<Rightarrow> reply \<times> world"
where
  "ca_list app rq = page_response app rq 0 (serve app rq 0 List_cas_op)"

definition new_ca_form ::
  "app \<Rightarrow> request \<Rightarrow> world \<Rightarrow> reply \<times> world"
where
  "new_ca_form app rq = admin_page_response app rq 0 (web_give ())"

definition import_ca_form ::
  "app \<Rightarrow> request \<Rightarrow> world \<Rightarrow> reply \<times> world"
where
  "import_ca_form app rq = admin_page_response app rq 0 (web_give ())"

definition ca_detail ::
  "app \<Rightarrow> request \<Rightarrow> string \<Rightarrow> world \<Rightarrow> reply \<times> world"
where
  "ca_detail app rq ca =
     page_response app rq 0 (web_then (serve app rq 0 (Get_ca_op ca)) (\<lambda>_. look (service_list_certs ca)))"

definition new_cert_form ::
  "app \<Rightarrow> request \<Rightarrow> string \<Rightarrow> world \<Rightarrow> reply \<times> world"
where
  "new_cert_form app rq ca = admin_page_response app rq 0 (serve app rq 0 (Get_ca_op ca))"

definition import_cert_form ::
  "app \<Rightarrow> request \<Rightarrow> string \<Rightarrow> world \<Rightarrow> reply \<times> world"
where
  "import_cert_form app rq ca = admin_page_response app rq 0 (serve app rq 0 (Get_ca_op ca))"

definition cert_detail ::
  "app \<Rightarrow> request \<Rightarrow> string \<Rightarrow> string \<Rightarrow> world \<Rightarrow> reply \<times> world"
where
  "cert_detail app rq ca cert =
     page_response app rq 0 (web_then (look (get_cert ca cert)) (\<lambda>_. serve app rq 0 (Get_ca_op ca)))"

definition inspect_form ::
  "app \<Rightarrow> request \<Rightarrow> world \<Rightarrow> reply \<times> world"
where
  "inspect_form app rq = admin_page_response app rq 0 (web_give ())"

definition template_list ::
  "app \<Rightarrow> request \<Rightarrow> world \<Rightarrow> reply \<times> world"
where
  "template_list app rq = page_response app rq 0 (web_give ())"

definition new_template_form ::
  "app \<Rightarrow> request \<Rightarrow> world \<Rightarrow> reply \<times> world"
where
  "new_template_form app rq = admin_page_response app rq 0 (web_give ())"

definition edit_template_form ::
  "app \<Rightarrow> request \<Rightarrow> string \<Rightarrow> world \<Rightarrow> reply \<times> world"
where
  "edit_template_form app rq i = admin_page_response app rq 0 (look (service_get_template i))"

definition admin_console ::
  "app \<Rightarrow> request \<Rightarrow> world \<Rightarrow> reply \<times> world"
where
  "admin_console app rq = admin_page_response app rq 0 (web_give ())"

definition swagger_page ::
  "app \<Rightarrow> request \<Rightarrow> world \<Rightarrow> reply \<times> world"
where
  "swagger_page app rq = admin_page_response app rq 0 (web_give ())"

definition admin_backup_export ::
  "app \<Rightarrow> request \<Rightarrow> world \<Rightarrow> reply \<times> world"
where
  "admin_backup_export app rq =
     answer error_response (\<lambda>_. Data) (admin_blocking app rq None (web_give ()))"

definition web_download_cert ::
  "app \<Rightarrow> request \<Rightarrow> string \<Rightarrow> string \<Rightarrow> string \<Rightarrow> world \<Rightarrow> reply \<times> world"
where
  "web_download_cert app rq ca cert kind =
     answer error_response file_reply
       (viewer_blocking app rq (web_then (web_res (cert_download_kind kind)) (\<lambda>k.
          look (download_cert ca cert k))))"

section \<open>Forms\<close>

definition create_ca_form ::
  "app \<Rightarrow> request \<Rightarrow> string \<Rightarrow> ca_form \<Rightarrow> world \<Rightarrow> reply \<times> world"
where
  "create_ca_form app rq csrf form =
     create_form_response app rq csrf ''/cas'' (page_response app rq (auth_slots app) (web_give ()))
       (serve app rq 0 (Create_ca_op (ca_form_request form)))"

definition import_ca_form_post ::
  "app \<Rightarrow> request \<Rightarrow> string \<Rightarrow> import_form \<Rightarrow> world \<Rightarrow> reply \<times> world"
where
  "import_ca_form_post app rq csrf form =
     create_form_response app rq csrf ''/cas'' (page_response app rq (auth_slots app) (web_give ()))
       (serve app rq 0 (Import_ca_op None (import_form_ca form)))"

definition delete_ca_form ::
  "app \<Rightarrow> request \<Rightarrow> string \<Rightarrow> string \<Rightarrow> world \<Rightarrow> reply \<times> world"
where
  "delete_ca_form app rq csrf ca =
     mutate_form_response app rq csrf ''/cas'' (delete_ca_named app rq ca)"

definition renew_ca_form ::
  "app \<Rightarrow> request \<Rightarrow> string \<Rightarrow> string \<Rightarrow> int \<Rightarrow> world \<Rightarrow> reply \<times> world"
where
  "renew_ca_form app rq csrf ca days =
     mutate_form_response app rq csrf (ca_path ca) (serve app rq 0 (Renew_ca_op ca days))"

definition create_cert_form ::
  "app \<Rightarrow> request \<Rightarrow> string \<Rightarrow> string \<Rightarrow> cert_form \<Rightarrow> world \<Rightarrow> reply \<times> world"
where
  "create_cert_form app rq csrf ca form =
     create_form_response app rq csrf (ca_path ca @ ''#ca-certs'')
       (page_response app rq (auth_slots app) (serve app rq 16 (Get_ca_op ca)))
       (serve app rq 0 (Create_cert_op ca (cert_form_request form)))"

definition import_cert_form_post ::
  "app \<Rightarrow> request \<Rightarrow> string \<Rightarrow> string \<Rightarrow> import_form \<Rightarrow> world \<Rightarrow> reply \<times> world"
where
  "import_cert_form_post app rq csrf ca form =
     create_form_response app rq csrf (ca_path ca @ ''#ca-certs'')
       (page_response app rq (auth_slots app) (web_give ()))
       (serve app rq 0 (Import_cert_op ca None (import_form_cert form) None))"

definition delete_cert_form ::
  "app \<Rightarrow> request \<Rightarrow> string \<Rightarrow> string \<Rightarrow> string \<Rightarrow> world \<Rightarrow> reply \<times> world"
where
  "delete_cert_form app rq csrf ca cert =
     mutate_form_response app rq csrf (ca_path ca @ ''#ca-certs'') (serve app rq 0 (Delete_cert_op ca cert))"

definition renew_cert_form ::
  "app \<Rightarrow> request \<Rightarrow> string \<Rightarrow> string \<Rightarrow> string \<Rightarrow> int \<Rightarrow> world \<Rightarrow> reply \<times> world"
where
  "renew_cert_form app rq csrf ca cert days =
     mutate_form_response app rq csrf (cert_path ca cert) (serve app rq 0 (Renew_cert_op ca cert days))"

definition revoke_cert_form ::
  "app \<Rightarrow> request \<Rightarrow> string \<Rightarrow> string \<Rightarrow> string \<Rightarrow> string \<Rightarrow> world \<Rightarrow> reply \<times> world"
where
  "revoke_cert_form app rq csrf ca cert reason =
     mutate_form_response app rq csrf (cert_path ca cert) (serve app rq 0 (Revoke_cert_op ca cert reason))"

definition inspect_form_post ::
  "app \<Rightarrow> request \<Rightarrow> string \<Rightarrow> string \<Rightarrow> world \<Rightarrow> reply \<times> world"
where
  "inspect_form_post app rq csrf pem =
     admin_page_response app rq 0 (web_res (check_form_csrf (hr_headers rq) csrf))"

definition create_template_form ::
  "app \<Rightarrow> request \<Rightarrow> string \<Rightarrow> template_form \<Rightarrow> world \<Rightarrow> reply \<times> world"
where
  "create_template_form app rq csrf form =
     template_form_response app rq csrf form Create_template_op"

definition update_template_form ::
  "app \<Rightarrow> request \<Rightarrow> string \<Rightarrow> string \<Rightarrow> template_form \<Rightarrow> world \<Rightarrow> reply \<times> world"
where
  "update_template_form app rq csrf i form =
     template_form_response app rq csrf form (Update_template_op i)"

definition delete_template_form ::
  "app \<Rightarrow> request \<Rightarrow> string \<Rightarrow> string \<Rightarrow> world \<Rightarrow> reply \<times> world"
where
  "delete_template_form app rq csrf i =
     mutate_form_response app rq csrf ''/templates'' (serve app rq 0 (Delete_template_op i))"

definition admin_create_user ::
  "app \<Rightarrow> request \<Rightarrow> string \<Rightarrow> create_user_request \<Rightarrow> world \<Rightarrow> reply \<times> world"
where
  "admin_create_user app rq csrf req =
     create_form_response app rq csrf ''/admin'' (admin_page_response app rq (auth_slots app) (web_give ()))
       (serve app rq 0 (Create_user_op req))"

definition admin_delete_user ::
  "app \<Rightarrow> request \<Rightarrow> string \<Rightarrow> string \<Rightarrow> world \<Rightarrow> reply \<times> world"
where
  "admin_delete_user app rq csrf i =
     mutate_form_response app rq csrf ''/admin'' (serve app rq 0 (Delete_user_op i))"

definition admin_restore_ca ::
  "app \<Rightarrow> request \<Rightarrow> string \<Rightarrow> string \<Rightarrow> world \<Rightarrow> reply \<times> world"
where
  "admin_restore_ca app rq csrf ca =
     mutate_form_response app rq csrf ''/admin'' (serve app rq 0 (Restore_ca_op ca))"

definition admin_restore_cert ::
  "app \<Rightarrow> request \<Rightarrow> string \<Rightarrow> string \<Rightarrow> string \<Rightarrow> world \<Rightarrow> reply \<times> world"
where
  "admin_restore_cert app rq csrf ca cert =
     mutate_form_response app rq csrf ''/admin'' (serve app rq 0 (Restore_cert_op ca cert))"

section \<open>The JSON API\<close>

definition api_list_cas ::
  "app \<Rightarrow> request \<Rightarrow> world \<Rightarrow> reply \<times> world"
where
  "api_list_cas app rq = api_view app rq (serve app rq 0 List_cas_op)"

definition api_get_ca ::
  "app \<Rightarrow> request \<Rightarrow> string \<Rightarrow> world \<Rightarrow> reply \<times> world"
where
  "api_get_ca app rq ca = api_view app rq (serve app rq 0 (Get_ca_op ca))"

definition api_create_ca ::
  "app \<Rightarrow> request \<Rightarrow> create_ca_request option \<Rightarrow> world \<Rightarrow> reply \<times> world"
where
  "api_create_ca app rq body =
     with_json body (\<lambda>req. api_admin app rq ''PUT'' (serve app rq 0 (Create_ca_op req)))"

definition api_import_ca ::
  "app \<Rightarrow> request \<Rightarrow> import_ca_request option \<Rightarrow> world \<Rightarrow> reply \<times> world"
where
  "api_import_ca app rq body =
     with_json body (\<lambda>req. api_admin app rq ''PUT'' (serve app rq 0 (Import_ca_op None req)))"

definition api_delete_ca ::
  "app \<Rightarrow> request \<Rightarrow> string \<Rightarrow> world \<Rightarrow> reply \<times> world"
where
  "api_delete_ca app rq ca = api_admin app rq ''DELETE'' (serve app rq 0 (Delete_ca_op ca))"

definition api_renew_ca ::
  "app \<Rightarrow> request \<Rightarrow> string \<Rightarrow> string \<Rightarrow> world \<Rightarrow> reply \<times> world"
where
  "api_renew_ca app rq ca days =
     with_days days (\<lambda>k. api_admin app rq ''POST'' (serve app rq 0 (Renew_ca_op ca k)))"

definition api_list_certs ::
  "app \<Rightarrow> request \<Rightarrow> string \<Rightarrow> world \<Rightarrow> reply \<times> world"
where
  "api_list_certs app rq ca = api_view app rq (look (service_list_certs ca))"

definition api_get_cert ::
  "app \<Rightarrow> request \<Rightarrow> string \<Rightarrow> string \<Rightarrow> world \<Rightarrow> reply \<times> world"
where
  "api_get_cert app rq ca cert = api_view app rq (look (get_cert ca cert))"

definition api_create_cert ::
  "app \<Rightarrow> request \<Rightarrow> string \<Rightarrow> create_cert_request option \<Rightarrow> world \<Rightarrow> reply \<times> world"
where
  "api_create_cert app rq ca body =
     with_json body (\<lambda>req. api_admin app rq ''PUT'' (serve app rq 0 (Create_cert_op ca req)))"

definition api_import_cert ::
  "app \<Rightarrow> request \<Rightarrow> string \<Rightarrow> import_cert_request option \<Rightarrow> world \<Rightarrow> reply \<times> world"
where
  "api_import_cert app rq ca body =
     with_json body (\<lambda>req. api_admin app rq ''PUT'' (serve app rq 0 (Import_cert_op ca None req None)))"

definition api_delete_cert ::
  "app \<Rightarrow> request \<Rightarrow> string \<Rightarrow> string \<Rightarrow> world \<Rightarrow> reply \<times> world"
where
  "api_delete_cert app rq ca cert =
     api_admin app rq ''DELETE'' (serve app rq 0 (Delete_cert_op ca cert))"

definition api_renew_cert ::
  "app \<Rightarrow> request \<Rightarrow> string \<Rightarrow> string \<Rightarrow> string \<Rightarrow> world \<Rightarrow> reply \<times> world"
where
  "api_renew_cert app rq ca cert days =
     with_days days (\<lambda>k. api_admin app rq ''POST'' (serve app rq 0 (Renew_cert_op ca cert k)))"

text \<open>\<open>None\<close> is a body that does not claim to be JSON.\<close>

definition api_revoke_cert ::
  "app \<Rightarrow> request \<Rightarrow> string \<Rightarrow> string \<Rightarrow> string option option \<Rightarrow> world \<Rightarrow> reply \<times> world"
where
  "api_revoke_cert app rq ca cert body =
     with_json (case body of None \<Rightarrow> Some ''unspecified'' | Some r \<Rightarrow> r)
       (\<lambda>reason. api_admin app rq ''POST'' (serve app rq 0 (Revoke_cert_op ca cert reason)))"

definition api_inspect ::
  "app \<Rightarrow> request \<Rightarrow> string option \<Rightarrow> world \<Rightarrow> reply \<times> world"
where
  "api_inspect app rq body =
     with_json body (\<lambda>pem. api_admin app rq ''PUT''
       (look (\<lambda>_. service_inspect_cert (ap_service app) (hr_env rq) pem)))"

definition api_list_templates ::
  "app \<Rightarrow> request \<Rightarrow> world \<Rightarrow> reply \<times> world"
where
  "api_list_templates app rq = api_view app rq (web_give ())"

definition api_get_template ::
  "app \<Rightarrow> request \<Rightarrow> string \<Rightarrow> world \<Rightarrow> reply \<times> world"
where
  "api_get_template app rq i = api_view app rq (look (service_get_template i))"

definition api_create_template ::
  "app \<Rightarrow> request \<Rightarrow> template_request option \<Rightarrow> world \<Rightarrow> reply \<times> world"
where
  "api_create_template app rq body =
     with_json body (\<lambda>req. api_admin app rq ''PUT'' (serve app rq 0 (Create_template_op req)))"

definition api_update_template ::
  "app \<Rightarrow> request \<Rightarrow> string \<Rightarrow> template_request option \<Rightarrow> world \<Rightarrow> reply \<times> world"
where
  "api_update_template app rq i body =
     with_json body (\<lambda>req. api_admin app rq ''POST'' (serve app rq 0 (Update_template_op i req)))"

definition api_delete_template ::
  "app \<Rightarrow> request \<Rightarrow> string \<Rightarrow> world \<Rightarrow> reply \<times> world"
where
  "api_delete_template app rq i =
     api_admin app rq ''DELETE'' (serve app rq 0 (Delete_template_op i))"

definition api_backup_export ::
  "app \<Rightarrow> request \<Rightarrow> world \<Rightarrow> reply \<times> world"
where
  "api_backup_export app rq =
     answer api_error_response (\<lambda>_. Data) (admin_blocking app rq None (web_give ()))"

definition api_backup_restore ::
  "app \<Rightarrow> request \<Rightarrow> string \<Rightarrow> world \<Rightarrow> reply \<times> world"
where
  "api_backup_restore app rq yaml = api_admin app rq ''POST'' (import_yaml app rq yaml)"

section \<open>All handlers\<close>

text \<open>A handler with its decoded arguments; the token of a form comes first.\<close>

datatype public_handler =
    Home
  | Crl_download string
  | Public_ca_cert_download string
  | Download_ca string string
  | Switch_lang string "string option"
  | Logout
  | Api_csrf
  | Api_not_found
  | Api_method_not_allowed

datatype page_handler =
    Ca_list
  | New_ca_form
  | Import_ca_form
  | Ca_detail string
  | New_cert_form string
  | Import_cert_form string
  | Cert_detail string string
  | Inspect_form
  | Template_list
  | New_template_form
  | Edit_template_form string
  | Admin_console
  | Swagger_page
  | Admin_backup_export
  | Download_cert string string string

datatype form_handler =
    Create_ca_form string ca_form
  | Import_ca_form_post string import_form
  | Delete_ca_form string string
  | Renew_ca_form string string int
  | Create_cert_form string string cert_form
  | Import_cert_form_post string string import_form
  | Delete_cert_form string string string
  | Renew_cert_form string string string int
  | Revoke_cert_form string string string string
  | Inspect_form_post string string
  | Create_template_form string template_form
  | Update_template_form string string template_form
  | Delete_template_form string string
  | Admin_backup_restore "upload_part list"
  | Admin_nuke string "string option"
  | Admin_create_user string create_user_request
  | Admin_delete_user string string
  | Admin_restore_ca string string
  | Admin_restore_cert string string string

datatype api_handler =
    Api_list_cas
  | Api_get_ca string
  | Api_create_ca "create_ca_request option"
  | Api_import_ca "import_ca_request option"
  | Api_delete_ca string
  | Api_renew_ca string string
  | Api_list_certs string
  | Api_get_cert string string
  | Api_find_cert_by_cn string "string option"
  | Api_create_cert string "create_cert_request option"
  | Api_import_cert string "import_cert_request option"
  | Api_delete_cert string string
  | Api_renew_cert string string string
  | Api_revoke_cert string string "string option option"
  | Api_inspect "string option"
  | Api_list_templates
  | Api_get_template string
  | Api_create_template "template_request option"
  | Api_update_template string "template_request option"
  | Api_delete_template string
  | Api_backup_export
  | Api_backup_restore string

datatype handler = Open public_handler | Get page_handler | Post form_handler | Api api_handler

primrec handle_public :: "app \<Rightarrow> request \<Rightarrow> public_handler \<Rightarrow> world \<Rightarrow> reply \<times> world" where
  "handle_public app rq Home = home app rq"
| "handle_public app rq (Crl_download ca) = crl_download app rq ca"
| "handle_public app rq (Public_ca_cert_download ca) = public_ca_cert_download app rq ca"
| "handle_public app rq (Download_ca ca kind) = web_download_ca app rq ca kind"
| "handle_public app rq (Switch_lang code return_to) = switch_lang app rq code return_to"
| "handle_public app rq Logout = logout app rq"
| "handle_public app rq Api_csrf = api_csrf app rq"
| "handle_public app rq Api_not_found = api_not_found app rq"
| "handle_public app rq Api_method_not_allowed = api_method_not_allowed app rq"

primrec handle_page :: "app \<Rightarrow> request \<Rightarrow> page_handler \<Rightarrow> world \<Rightarrow> reply \<times> world" where
  "handle_page app rq Ca_list = ca_list app rq"
| "handle_page app rq New_ca_form = new_ca_form app rq"
| "handle_page app rq Import_ca_form = import_ca_form app rq"
| "handle_page app rq (Ca_detail ca) = ca_detail app rq ca"
| "handle_page app rq (New_cert_form ca) = new_cert_form app rq ca"
| "handle_page app rq (Import_cert_form ca) = import_cert_form app rq ca"
| "handle_page app rq (Cert_detail ca cert) = cert_detail app rq ca cert"
| "handle_page app rq Inspect_form = inspect_form app rq"
| "handle_page app rq Template_list = template_list app rq"
| "handle_page app rq New_template_form = new_template_form app rq"
| "handle_page app rq (Edit_template_form i) = edit_template_form app rq i"
| "handle_page app rq Admin_console = admin_console app rq"
| "handle_page app rq Swagger_page = swagger_page app rq"
| "handle_page app rq Admin_backup_export = admin_backup_export app rq"
| "handle_page app rq (Download_cert ca cert kind) = web_download_cert app rq ca cert kind"

primrec handle_form :: "app \<Rightarrow> request \<Rightarrow> form_handler \<Rightarrow> world \<Rightarrow> reply \<times> world" where
  "handle_form app rq (Create_ca_form csrf form) = create_ca_form app rq csrf form"
| "handle_form app rq (Import_ca_form_post csrf form) = import_ca_form_post app rq csrf form"
| "handle_form app rq (Delete_ca_form csrf ca) = delete_ca_form app rq csrf ca"
| "handle_form app rq (Renew_ca_form csrf ca days) = renew_ca_form app rq csrf ca days"
| "handle_form app rq (Create_cert_form csrf ca form) = create_cert_form app rq csrf ca form"
| "handle_form app rq (Import_cert_form_post csrf ca form) = import_cert_form_post app rq csrf ca form"
| "handle_form app rq (Delete_cert_form csrf ca cert) = delete_cert_form app rq csrf ca cert"
| "handle_form app rq (Renew_cert_form csrf ca cert days) = renew_cert_form app rq csrf ca cert days"
| "handle_form app rq (Revoke_cert_form csrf ca cert reason) = revoke_cert_form app rq csrf ca cert reason"
| "handle_form app rq (Inspect_form_post csrf pem) = inspect_form_post app rq csrf pem"
| "handle_form app rq (Create_template_form csrf form) = create_template_form app rq csrf form"
| "handle_form app rq (Update_template_form csrf i form) = update_template_form app rq csrf i form"
| "handle_form app rq (Delete_template_form csrf i) = delete_template_form app rq csrf i"
| "handle_form app rq (Admin_backup_restore parts) = admin_backup_restore app rq parts"
| "handle_form app rq (Admin_nuke csrf confirm) = admin_nuke app rq csrf confirm"
| "handle_form app rq (Admin_create_user csrf req) = admin_create_user app rq csrf req"
| "handle_form app rq (Admin_delete_user csrf i) = admin_delete_user app rq csrf i"
| "handle_form app rq (Admin_restore_ca csrf ca) = admin_restore_ca app rq csrf ca"
| "handle_form app rq (Admin_restore_cert csrf ca cert) = admin_restore_cert app rq csrf ca cert"

primrec handle_api :: "app \<Rightarrow> request \<Rightarrow> api_handler \<Rightarrow> world \<Rightarrow> reply \<times> world" where
  "handle_api app rq Api_list_cas = api_list_cas app rq"
| "handle_api app rq (Api_get_ca ca) = api_get_ca app rq ca"
| "handle_api app rq (Api_create_ca body) = api_create_ca app rq body"
| "handle_api app rq (Api_import_ca body) = api_import_ca app rq body"
| "handle_api app rq (Api_delete_ca ca) = api_delete_ca app rq ca"
| "handle_api app rq (Api_renew_ca ca days) = api_renew_ca app rq ca days"
| "handle_api app rq (Api_list_certs ca) = api_list_certs app rq ca"
| "handle_api app rq (Api_get_cert ca cert) = api_get_cert app rq ca cert"
| "handle_api app rq (Api_find_cert_by_cn ca query) = api_find_cert_by_cn app rq ca query"
| "handle_api app rq (Api_create_cert ca body) = api_create_cert app rq ca body"
| "handle_api app rq (Api_import_cert ca body) = api_import_cert app rq ca body"
| "handle_api app rq (Api_delete_cert ca cert) = api_delete_cert app rq ca cert"
| "handle_api app rq (Api_renew_cert ca cert days) = api_renew_cert app rq ca cert days"
| "handle_api app rq (Api_revoke_cert ca cert body) = api_revoke_cert app rq ca cert body"
| "handle_api app rq (Api_inspect body) = api_inspect app rq body"
| "handle_api app rq Api_list_templates = api_list_templates app rq"
| "handle_api app rq (Api_get_template i) = api_get_template app rq i"
| "handle_api app rq (Api_create_template body) = api_create_template app rq body"
| "handle_api app rq (Api_update_template i body) = api_update_template app rq i body"
| "handle_api app rq (Api_delete_template i) = api_delete_template app rq i"
| "handle_api app rq Api_backup_export = api_backup_export app rq"
| "handle_api app rq (Api_backup_restore yaml) = api_backup_restore app rq yaml"

primrec handle :: "app \<Rightarrow> request \<Rightarrow> handler \<Rightarrow> world \<Rightarrow> reply \<times> world" where
  "handle app rq (Open x) = handle_public app rq x"
| "handle app rq (Get x) = handle_page app rq x"
| "handle app rq (Post x) = handle_form app rq x"
| "handle app rq (Api x) = handle_api app rq x"

end
