(* ===== verification/Web_Facts.thy ===== *)
theory Web_Facts
  imports Web Ca_Facts
begin

text \<open>
  What requests can change. A request is calm when the only transactions it commits store
  data derived from the certificate of a CA (\<open>refreshed\<close>): a truststore built from it, and the
  key profile and digest openssl prints for it.
\<close>

section \<open>Derived data\<close>

definition read_off :: "tools \<Rightarrow> ca_row \<Rightarrow> string \<Rightarrow> string \<Rightarrow> bool" where
  "read_off t r key_profile digest \<longleftrightarrow>
     (\<exists>text. (text = [] \<or> (\<exists>w. fst (inspect_cert_text t (blob_string (s_cert_pem (car_secrets r))) w) = Inr text)) \<and>
        key_profile = parse_public_key_profile text \<and>
        digest = (case parse_signature_digest text of Some s \<Rightarrow> s | None \<Rightarrow> m_digest_algorithm (car_meta r)))"

definition derived_op :: "tools \<Rightarrow> db \<Rightarrow> db_op \<Rightarrow> bool" where
  "derived_op t d opn \<longleftrightarrow>
     (\<exists>c pem ts. opn = Set_truststore c pem ts \<and> built t pem ts) \<or>
     (\<exists>now r kp dg. opn = Update_ca_metadata now (car_id r) kp dg \<and> r \<in> set (cas d) \<and> read_off t r kp dg)"

inductive refreshed :: "tools \<Rightarrow> db \<Rightarrow> db \<Rightarrow> bool" for t where
  stay: "refreshed t d d"
| step: "refreshed t d d1 \<Longrightarrow> derived_op t d1 opn \<Longrightarrow> refreshed t d (db_commit opn d1)"

lemma forget_snd [simp]: "snd (forget x) = snd x"
  by (simp add: forget_def)

lemma refreshed_trans: "refreshed t b c \<Longrightarrow> refreshed t a b \<Longrightarrow> refreshed t a c"
  by (induction rule: refreshed.induct) (auto intro: refreshed.intros)

lemma commit_schema_ok: "schema_ok d \<Longrightarrow> schema_ok (db_commit opn d)"
  by (cases "db_exec opn d") (auto simp: db_commit_def intro: db_exec_schema_ok)

lemma refreshed_schema_ok: "refreshed t d d' \<Longrightarrow> schema_ok d \<Longrightarrow> schema_ok d'"
  by (induction rule: refreshed.induct) (auto intro: commit_schema_ok)

lemma refreshed_settled: "refreshed t d d' \<Longrightarrow> settled d d'"
proof (induction rule: refreshed.induct)
  case (step d d1 opn)
  have "settled d1 (db_commit opn d1)"
    using step.hyps(2) unfolding derived_op_def
    by (elim disjE exE conjE)
      (auto simp: db_commit_def set_ca_truststore_def update_ca_metadata_def ca_settled_def car_id_def intro!: settled_update)
  then show ?case using step.IH settled_trans by blast
qed simp

definition refreshing :: "tools \<Rightarrow> 'a db_act \<Rightarrow> bool" where
  "refreshing t m \<longleftrightarrow> (\<forall>d. schema_ok d \<longrightarrow> refreshed t d (snd (m d)))"

named_theorems refreshing_intros

lemma refreshing_then:
  assumes "refreshing t m" and "\<And>a d d1. schema_ok d \<Longrightarrow> m d = (Inr a, d1) \<Longrightarrow> schema_ok d1 \<Longrightarrow> refreshed t d1 (snd (f a d1))"
  shows "refreshing t (db_then m f)"
  unfolding refreshing_def
proof (intro allI impI)
  fix d assume ok: "schema_ok d"
  obtain r d1 where m: "m d = (r, d1)" by fastforce
  then have r1: "refreshed t d d1" using assms(1) ok unfolding refreshing_def by (metis snd_conv)
  then have "schema_ok d1" using ok by (rule refreshed_schema_ok)
  then show "refreshed t d (snd (db_then m f d))"
    using m r1 assms(2) [OF ok] by (cases r) (auto simp: db_then_def intro: refreshed_trans)
qed

lemma refreshing_step [refreshing_intros]:
  "refreshing t m \<Longrightarrow> (\<And>a. refreshing t (f a)) \<Longrightarrow> refreshing t (db_then m f)"
  by (rule refreshing_then) (simp_all add: refreshing_def)

lemma refreshing_read [refreshing_intros]: "refreshing t (db_read f)" "refreshing t (db_give a)"
  by (simp_all add: refreshing_def db_read_def db_give_def refreshed.stay)

lemma refreshed_write: "derived_op t d opn \<Longrightarrow> refreshed t d (snd (db_write (db_exec opn) d))"
  using refreshed.step [OF refreshed.stay, of t d opn] by (auto simp: db_write_def db_commit_def split: sum.splits)

lemma build_truststore_refreshing [refreshing_intros]: "refreshing (sv_tools sv) (build_truststore sv ev n c pem)"
  unfolding build_truststore_def
proof (rule refreshing_then [OF refreshing_read(1)])
  fix ts d d1
  assume "db_read (\<lambda>_. in_workdir ev n
      (truststore_pkcs12 (sv_tools sv) pem (''minica-'' @ c) truststore_password)) d = (Inr ts, d1)"
  then have "built (sv_tools sv) pem ts" by (auto simp: db_read_def intro: in_workdir_built)
  then have "refreshed (sv_tools sv) d1 (snd (db_write (db_exec (Set_truststore c pem ts)) d1))"
    by (intro refreshed_write) (auto simp: derived_op_def)
  then show "refreshed (sv_tools sv) d1 (snd (db_then
      (db_write (\<lambda>d. Inr (snd (set_ca_truststore c pem ts d)))) (\<lambda>_. db_give ts) d1))"
    by (simp add: db_then_def db_write_def db_give_def)
qed

lemma truststore_refreshing [refreshing_intros]: "refreshing (sv_tools sv) (truststore sv ev c pem)"
  unfolding truststore_def by (intro refreshing_intros) (simp add: refreshing_intros)

lemma download_ca_refreshing: "refreshing (sv_tools sv) (download_ca sv ev c kind)"
proof -
  have "refreshing (sv_tools sv) (ca_artifact sv ev c name s kind)" for name s
    by (cases kind; simp; intro refreshing_intros)
  then show ?thesis unfolding download_ca_def by (intro refreshing_intros)
qed

section \<open>The repair of CA metadata\<close>

text \<open>\<open>backed d ca\<close>: what the program read of a CA is what its row says.\<close>

definition backed :: "db \<Rightarrow> certificate_authority \<Rightarrow> bool" where
  "backed d ca \<longleftrightarrow> (\<exists>r \<in> set (cas d). car_id r = m_id ca \<and>
     v_cert_pem ca = blob_string (s_cert_pem (car_secrets r)) \<and>
     m_digest_algorithm ca = m_digest_algorithm (car_meta r))"

lemma ca_view_backed: "r \<in> set (cas d) \<Longrightarrow> backed d (ca_view d r)"
  unfolding backed_def by (intro bexI [of _ r]) (simp_all add: ca_view_def car_id_def subject_meta.defs certificate_authority.defs)

lemma then_give: "snd (db_then m (\<lambda>a. db_give (g a)) d) = snd (m d)"
  by (auto simp: db_then_def db_give_def split: prod.split sum.split)

lemma then_read: "f d = Inr a \<Longrightarrow> db_then (db_read f) g d = g a d" "snd (db_give a d) = d"
  by (simp_all add: db_then_def db_read_def db_give_def)

lemma repair_if_needed_refreshed:
  assumes "backed d ca"
  shows "refreshed (sv_tools sv) d (snd (repair_ca_metadata_if_needed sv ev n ca d))"
    and "m_id ca' \<noteq> m_id ca \<Longrightarrow> backed d ca' \<Longrightarrow> backed (snd (repair_ca_metadata_if_needed sv ev n ca d)) ca'"
proof -
  let ?d' = "snd (repair_ca_metadata_if_needed sv ev n ca d)"
  have "?d' = d \<or> (\<exists>kp dg r. r \<in> set (cas d) \<and> car_id r = m_id ca \<and> read_off (sv_tools sv) r kp dg \<and>
      ?d' = snd (db_write (update_ca_metadata (ev_clock ev n) (m_id ca) kp dg) d))"
  proof (cases "in_workdir ev n (attempt (inspect_cert_text (sv_tools sv) (v_cert_pem ca)))")
    case (Inl e)
    then show ?thesis by (simp add: repair_ca_metadata_if_needed_def db_then_def db_read_def db_give_def)
  next
    case (Inr t)
    let ?text = "unwrap_or [] t"
    obtain w where "fst (attempt (inspect_cert_text (sv_tools sv) (v_cert_pem ca)) w) = Inr t"
      using Inr unfolding in_workdir_Inr by (metis fst_conv)
    then have "fst (inspect_cert_text (sv_tools sv) (v_cert_pem ca) w) = t"
      by (simp add: attempt_def split: prod.splits)
    then have "?text = [] \<or> (\<exists>w. fst (inspect_cert_text (sv_tools sv) (v_cert_pem ca) w) = Inr ?text)"
      by (cases t) auto
    moreover obtain r where r: "r \<in> set (cas d)" "car_id r = m_id ca"
      "v_cert_pem ca = blob_string (s_cert_pem (car_secrets r))" "m_digest_algorithm ca = m_digest_algorithm (car_meta r)"
      using assms unfolding backed_def by blast
    ultimately have "read_off (sv_tools sv) r (parse_public_key_profile ?text)
        (case parse_signature_digest ?text of Some s \<Rightarrow> s | None \<Rightarrow> m_digest_algorithm ca)"
      unfolding read_off_def by (intro exI [of _ ?text]) (simp cong: option.case_cong)
    with r(1,2) have "\<exists>r. r \<in> set (cas d) \<and> car_id r = m_id ca \<and> read_off (sv_tools sv) r (parse_public_key_profile ?text)
        (case parse_signature_digest ?text of Some s \<Rightarrow> s | None \<Rightarrow> m_digest_algorithm ca)"
      by blast
    moreover have "?d' = d \<or> ?d' = snd (db_write (update_ca_metadata (ev_clock ev n) (m_id ca) (parse_public_key_profile ?text)
        (case parse_signature_digest ?text of Some s \<Rightarrow> s | None \<Rightarrow> m_digest_algorithm ca)) d)"
      unfolding repair_ca_metadata_if_needed_def Let_def using Inr by (simp add: then_give then_read)
    ultimately show ?thesis by metis
  qed
  then show "refreshed (sv_tools sv) d ?d'" and "m_id ca' \<noteq> m_id ca \<Longrightarrow> backed d ca' \<Longrightarrow> backed ?d' ca'"
  proof (atomize (full), elim disjE exE conjE)
    fix kp dg r
    assume r: "r \<in> set (cas d)" "car_id r = m_id ca" "read_off (sv_tools sv) r kp dg"
      and d': "?d' = snd (db_write (update_ca_metadata (ev_clock ev n) (m_id ca) kp dg) d)"
    have "refreshed (sv_tools sv) d (snd (db_write (db_exec (Update_ca_metadata (ev_clock ev n) (m_id ca) kp dg)) d))"
      by (intro refreshed_write) (use r(1,3) r(2) [symmetric] in \<open>unfold derived_op_def, blast\<close>)
    moreover have "db_exec (Update_ca_metadata (ev_clock ev n) (m_id ca) kp dg) =
        update_ca_metadata (ev_clock ev n) (m_id ca) kp dg"
      by (rule ext) simp
    moreover have "backed ?d' ca'" if other: "m_id ca' \<noteq> m_id ca" and b: "backed d ca'"
    proof -
      obtain x where x: "x \<in> set (cas d)" "car_id x = m_id ca'" "v_cert_pem ca' = blob_string (s_cert_pem (car_secrets x))"
        "m_digest_algorithm ca' = m_digest_algorithm (car_meta x)"
        using b unfolding backed_def by blast
      then have "x \<in> set (cas ?d')"
        using other unfolding d'
        by (auto simp: db_write_def update_ca_metadata_def update_where_def active_ca_def image_iff split: sum.splits
            intro!: bexI [of _ x])
      with x show ?thesis unfolding backed_def by blast
    qed
    ultimately show "refreshed (sv_tools sv) d ?d' \<and> (m_id ca' \<noteq> m_id ca \<longrightarrow> backed d ca' \<longrightarrow> backed ?d' ca')"
      unfolding d' by simp
  qed (simp add: refreshed.stay)
qed

lemma repair_each_refreshed:
  assumes "\<forall>ca \<in> set xs. backed d ca" and "distinct (map m_id xs)"
  shows "refreshed (sv_tools sv) d (snd (repair_each sv ev n xs d))"
  using assms
proof (induction xs arbitrary: n d)
  case Nil
  then show ?case by (simp add: db_give_def refreshed.stay)
next
  case (Cons ca xs)
  let ?m = "repair_ca_metadata_if_needed sv ev n ca"
  have r: "refreshed (sv_tools sv) d (snd (?m d))"
    using Cons.prems by (intro repair_if_needed_refreshed(1)) simp
  have "\<forall>ca' \<in> set xs. backed (snd (?m d)) ca'"
    using Cons.prems repair_if_needed_refreshed(2) [of d ca] by (auto simp: image_iff)
  then have "refreshed (sv_tools sv) (snd (?m d)) (snd (repair_each sv ev (Suc n) xs (snd (?m d))))"
    using Cons.IH Cons.prems(2) by simp
  with r show ?case
    by (cases "?m d"; cases "repair_each sv ev (Suc n) xs (snd (?m d))")
      (auto simp: db_then_def db_give_def intro: refreshed_trans split: sum.splits)
qed

lemma service_get_ca_refreshing: "refreshing (sv_tools sv) (service_get_ca sv ev n c)"
  unfolding service_get_ca_def
proof (rule refreshing_then [OF refreshing_read(1)])
  fix ca d d1
  assume ok: "schema_ok d" and g: "db_read (get_ca c) d = (Inr ca, d1)"
  then have "backed d1 ca" using ca_view_backed by (auto simp: db_read_def get_ca_Inr)
  then have "refreshed (sv_tools sv) d1 (snd (repair_ca_metadata_if_needed sv ev n ca d1))"
    by (rule repair_if_needed_refreshed(1))
  then show "refreshed (sv_tools sv) d1 (snd (db_then (repair_ca_metadata_if_needed sv ev n ca)
      (\<lambda>ca. db_give (with_ca_crl_url sv ca)) d1))"
    by (cases "repair_ca_metadata_if_needed sv ev n ca d1") (auto simp: db_then_def db_give_def split: sum.splits)
qed

lemma list_cas_distinct: "schema_ok d \<Longrightarrow> distinct (map m_id (list_cas d))"
  by (simp add: list_cas_def schema_defs order_by_desc_def distinct_map inj_on_def)

lemma service_list_cas_refreshing: "refreshing (sv_tools sv) (service_list_cas sv ev)"
  unfolding service_list_cas_def
proof (rule refreshing_then [OF refreshing_read(1)])
  fix xs d d1
  assume ok: "schema_ok d" and l: "db_read (\<lambda>d. Inr (list_cas d)) d = (Inr xs, d1)"
  have "xs = list_cas d" "d1 = d" using l by (auto simp: db_read_def)
  moreover have "\<forall>ca \<in> set (list_cas d). backed d ca"
    using ca_view_backed by (auto simp: list_cas_def)
  moreover have "distinct (map m_id (list_cas d))" using ok by (rule list_cas_distinct)
  ultimately show "refreshed (sv_tools sv) d1 (snd (repair_each sv ev 0 xs d1))"
    by (intro repair_each_refreshed) simp_all
qed

section \<open>Calm requests\<close>

definition harmless :: "app \<Rightarrow> world \<Rightarrow> world \<Rightarrow> bool" where
  "harmless app w w' \<longleftrightarrow> (schema_ok (w_db w) \<longrightarrow>
     refreshed (sv_tools (ap_service app)) (w_db w) (w_db w'))"

lemma harmless_same [simp]: "w_db w' = w_db w \<Longrightarrow> harmless app w w'"
  by (simp add: harmless_def refreshed.stay)

lemma harmless_trans: "harmless app w w1 \<Longrightarrow> harmless app w1 w2 \<Longrightarrow> harmless app w w2"
  unfolding harmless_def by (blast intro: refreshed_trans refreshed_schema_ok)

definition calm :: "app \<Rightarrow> (world \<Rightarrow> 'a \<times> world) \<Rightarrow> bool" where
  "calm app m \<longleftrightarrow> (\<forall>w. harmless app w (snd (m w)))"

named_theorems calm_intros

lemma calm_same: "(\<And>w. w_db (snd (m w)) = w_db w) \<Longrightarrow> calm app m"
  by (simp add: calm_def)

lemma calm_db: "refreshing (sv_tools (ap_service app)) m \<Longrightarrow> calm app (on_db m)"
  by (auto simp: calm_def harmless_def refreshing_def on_db_def split: prod.split)

lemma calm_give [calm_intros]: "calm app (web_give a)" "calm app (web_res r)" "calm app (Pair x)" "calm app (look f)"
  by (simp_all add: calm_def web_give_def web_res_def look_def on_db_def db_read_def)

lemma calm_then [calm_intros]: "calm app m \<Longrightarrow> (\<And>a. calm app (f a)) \<Longrightarrow> calm app (web_then m f)"
  unfolding calm_def web_then_def by (auto split: prod.split sum.split) (metis harmless_trans snd_conv)+

lemma calm_auth [calm_intros]: "calm app' (web_auth f app rq n)"
  by (rule calm_same) (simp add: web_auth_def split: prod.split)

lemma calm_answer [calm_intros]: "calm app m \<Longrightarrow> calm app (answer bad good m)"
  unfolding calm_def answer_def by (auto split: prod.split sum.split) (metis snd_conv)+

lemma calm_shows [calm_intros]:
  "calm app (serve app rq k List_cas_op)" "calm app (serve app rq k (Get_ca_op ca))"
  "calm app (on_db (download_ca (ap_service app) ev ca kind))"
proof -
  have "refreshing (sv_tools sv) (service_exec sv su e List_cas_op)"
    "refreshing (sv_tools sv) (service_exec sv su e (Get_ca_op ca))" for sv su e
    using service_list_cas_refreshing [of sv e] service_get_ca_refreshing [of sv e 0 ca]
    by (simp_all add: refreshing_def)
  then show "calm app (serve app rq k List_cas_op)" "calm app (serve app rq k (Get_ca_op ca))"
    "calm app (on_db (download_ca (ap_service app) ev ca kind))"
    unfolding serve_def by (intro calm_db download_ca_refreshing; simp)+
qed

lemma calm_pages [calm_intros]:
  "calm app f \<Longrightarrow> calm app (page_response app rq n f)" "calm app f \<Longrightarrow> calm app (admin_page_response app rq n f)"
  "calm app f \<Longrightarrow> calm app (viewer_blocking app rq f)" "calm app f \<Longrightarrow> calm app (api_view app rq f)"
  unfolding page_response_def admin_page_response_def viewer_blocking_def api_view_def
  by (simp_all add: calm_intros)

lemma calm_option [calm_intros]: "calm app (case x of None \<Rightarrow> web_give () | Some t \<Rightarrow> web_res (r t))"
  by (cases x) (simp_all add: calm_intros)

lemma calm_if [calm_intros]: "calm app a \<Longrightarrow> calm app b \<Longrightarrow> calm app (if c then a else b)"
  by simp

lemma calm_admin [calm_intros]: "calm app f \<Longrightarrow> calm app (admin_blocking app rq csrf f)"
  unfolding admin_blocking_def by (simp add: calm_intros)

lemma calm_public: "calm app (handle_public app rq x)"
proof -
  have "calm app (public_ca_download app rq ca k)" for ca k
    unfolding public_ca_download_def by (intro calm_intros)
  then show ?thesis
    by (cases x) (simp_all only: handle_public.simps home_def crl_download_def public_ca_cert_download_def
      web_download_ca_def switch_lang_def logout_def api_csrf_def api_not_found_def api_method_not_allowed_def
      calm_intros if_split, simp_all add: calm_intros)
qed

lemma calm_page: "calm app (handle_page app rq x)"
  by (cases x) (simp_all only: handle_page.simps ca_list_def new_ca_form_def import_ca_form_def ca_detail_def
    new_cert_form_def import_cert_form_def cert_detail_def inspect_form_def template_list_def
    new_template_form_def edit_template_form_def admin_console_def swagger_page_def
    admin_backup_export_def web_download_cert_def calm_intros)

section \<open>Guarded operations\<close>

text \<open>The request comes from an admin and repeats the token of its cookie.\<close>

definition admin_request :: "app \<Rightarrow> request \<Rightarrow> string option \<Rightarrow> world \<Rightarrow> bool" where
  "admin_request app rq submitted w \<longleftrightarrow>
     (\<exists>u. fst (web_auth require_admin app rq 0 w) = Inr u \<and> wu_role u = Admin) \<and>
     (\<exists>t. submitted = Some t \<and> cookie_value ''minica_csrf'' (hr_headers rq) = Some t \<and> is_valid_csrf_token t)"

definition guarded :: "app \<Rightarrow> request \<Rightarrow> string option \<Rightarrow> (world \<Rightarrow> 'a \<times> world) \<Rightarrow> bool" where
  "guarded app rq submitted m \<longleftrightarrow>
     (\<forall>w. harmless app w (snd (m w)) \<or> admin_request app rq submitted w)"

lemma guarded_calm: "calm app m \<Longrightarrow> guarded app rq t m"
  by (simp add: calm_def guarded_def)

lemma require_admin_role: "fst (web_auth require_admin app rq n w) = Inr u \<Longrightarrow> wu_role u = Admin"
  by (auto simp: web_auth_def require_admin_def can_write_def split: prod.splits sum.splits if_splits)

text \<open>What is refused before the action leaves the database alone.\<close>

lemma web_auth_db: "w_db (snd (web_auth f app rq n w)) = w_db w"
  by (simp add: web_auth_def split: prod.split)

lemma admin_blocking_cases:
  assumes "admin_blocking app rq csrf f w = (r, w')"
  obtains e where "r = Inl e" and "w_db w' = w_db w"
  | u w1 where "web_auth require_admin app rq 0 w = (Inr u, w1)" and "f w1 = (r, w')" and "w_db w1 = w_db w"
      and "\<And>t. csrf = Some t \<Longrightarrow> check_form_csrf (hr_headers rq) t = Inr ()"
proof -
  obtain a w1 where a: "web_auth require_admin app rq 0 w = (a, w1)" by fastforce
  then have w1: "w_db w1 = w_db w" using web_auth_db [of require_admin app rq 0 w] by simp
  show thesis
  proof (cases a)
    case (Inl e)
    then have "r = Inl e" "w_db w' = w_db w" using assms a w1 by (auto simp: admin_blocking_def web_then_def)
    then show ?thesis by (rule that(1))
  next
    case (Inr u)
    obtain c where c: "(case csrf of None \<Rightarrow> web_give () | Some t \<Rightarrow> web_res (check_form_csrf (hr_headers rq) t)) w1 = (c, w1)"
      by (cases csrf) (simp_all add: web_give_def web_res_def)
    show ?thesis
    proof (cases c)
      case (Inl e)
      then have "r = Inl e" "w_db w' = w_db w"
        using assms a w1 Inr c by (auto simp: admin_blocking_def web_then_def)
      then show ?thesis by (rule that(1))
    next
      case ok: (Inr x)
      then have "f w1 = (r, w')" using assms a Inr c by (simp add: admin_blocking_def web_then_def)
      moreover have "csrf = Some t \<Longrightarrow> check_form_csrf (hr_headers rq) t = Inr ()" for t
        using c ok by (simp add: web_res_def)
      ultimately show ?thesis using that(2) [of u w1] a Inr w1 by blast
    qed
  qed
qed

lemma guarded_form [calm_intros]:
  "guarded app rq (Some csrf) (admin_blocking app rq (Some csrf) f)"
  unfolding guarded_def
proof
  fix w
  obtain r w' where b: "admin_blocking app rq (Some csrf) f w = (r, w')" by fastforce
  then show "harmless app w (snd (admin_blocking app rq (Some csrf) f w)) \<or> admin_request app rq (Some csrf) w"
  proof (cases rule: admin_blocking_cases)
    case (2 u w1)
    then have "fst (web_auth require_admin app rq 0 w) = Inr u" by simp
    then have "admin_request app rq (Some csrf) w"
      using 2(4) [OF refl] require_admin_role unfolding admin_request_def check_form_csrf_Inr by blast
    then show ?thesis ..
  qed (simp add: b)
qed

lemma guarded_answer: "guarded app rq t m \<Longrightarrow> guarded app rq t (answer bad good m)"
  unfolding guarded_def answer_def by (auto split: prod.split sum.split) (metis snd_conv)+

lemma guarded_mutate: "guarded app rq (Some csrf) (mutate_form_response app rq csrf target f)"
  unfolding mutate_form_response_def by (intro guarded_answer guarded_form)

lemma guarded_create:
  assumes "calm app again"
  shows "guarded app rq (Some csrf) (create_form_response app rq csrf target again f)"
  unfolding guarded_def
proof
  fix w
  obtain r w1 where b: "admin_blocking app rq (Some csrf) (web_try f) w = (r, w1)" by fastforce
  have "harmless app w w1 \<or> admin_request app rq (Some csrf) w"
    using guarded_form [of app rq csrf "web_try f"] b unfolding guarded_def by (metis snd_conv)
  moreover have "harmless app w1 (snd (again w1))" using assms by (simp add: calm_def)
  ultimately show "harmless app w (snd (create_form_response app rq csrf target again f w)) \<or>
      admin_request app rq (Some csrf) w"
    using b harmless_trans by (auto simp: create_form_response_def split: sum.split)
qed

lemma guarded_api:
  assumes "meth \<notin> {''GET'', ''HEAD'', ''OPTIONS''}"
  shows "guarded app rq (header_str ''x-csrf-token'' (hr_headers rq)) (api_admin app rq meth f)"
  unfolding api_admin_def
proof (rule guarded_answer, unfold guarded_def, rule allI)
  fix w
  let ?f = "web_then (web_res (check_csrf meth (hr_headers rq))) (\<lambda>_. f)"
  obtain r w' where b: "admin_blocking app rq None ?f w = (r, w')" by fastforce
  then show "harmless app w (snd (admin_blocking app rq None ?f w)) \<or>
      admin_request app rq (header_str ''x-csrf-token'' (hr_headers rq)) w"
  proof (cases rule: admin_blocking_cases)
    case (2 u w1)
    show ?thesis
    proof (cases "check_csrf meth (hr_headers rq)")
      case (Inl e)
      then show ?thesis using 2 b by (simp add: web_then_def web_res_def)
    next
      case (Inr x)
      then have "\<exists>tok. cookie_value ''minica_csrf'' (hr_headers rq) = Some tok \<and>
          header_str ''x-csrf-token'' (hr_headers rq) = Some tok \<and> is_valid_csrf_token tok"
        using assms check_csrf_Inr [of meth "hr_headers rq"] by auto
      moreover have "fst (web_auth require_admin app rq 0 w) = Inr u" using 2(1) by simp
      ultimately show ?thesis using require_admin_role unfolding admin_request_def by blast
    qed
  qed (simp add: b)
qed

section \<open>The token a request submits\<close>

text \<open>A form carries it as its first field, an upload as a part, an API call as a header.\<close>

primrec form_token :: "form_handler \<Rightarrow> string" where
  "form_token (Create_ca_form csrf form) = csrf"
| "form_token (Import_ca_form_post csrf form) = csrf"
| "form_token (Delete_ca_form csrf ca) = csrf"
| "form_token (Renew_ca_form csrf ca days) = csrf"
| "form_token (Create_cert_form csrf ca form) = csrf"
| "form_token (Import_cert_form_post csrf ca form) = csrf"
| "form_token (Delete_cert_form csrf ca cert) = csrf"
| "form_token (Renew_cert_form csrf ca cert days) = csrf"
| "form_token (Revoke_cert_form csrf ca cert reason) = csrf"
| "form_token (Inspect_form_post csrf pem) = csrf"
| "form_token (Create_template_form csrf form) = csrf"
| "form_token (Update_template_form csrf i form) = csrf"
| "form_token (Delete_template_form csrf i) = csrf"
| "form_token (Admin_backup_restore parts) =
     (case read_upload parts [] [] of Inl e \<Rightarrow> [] | Inr (csrf, yaml) \<Rightarrow> csrf)"
| "form_token (Admin_nuke csrf confirm) = csrf"
| "form_token (Admin_create_user csrf req) = csrf"
| "form_token (Admin_delete_user csrf i) = csrf"
| "form_token (Admin_restore_ca csrf ca) = csrf"
| "form_token (Admin_restore_cert csrf ca cert) = csrf"

primrec submitted :: "request \<Rightarrow> handler \<Rightarrow> string option" where
  "submitted rq (Open x) = None"
| "submitted rq (Get x) = None"
| "submitted rq (Post x) = Some (form_token x)"
| "submitted rq (Api x) = header_str ''x-csrf-token'' (hr_headers rq)"

section \<open>Every handler is guarded\<close>

lemma guarded_restore:
  "guarded app rq (Some (form_token (Admin_backup_restore parts))) (admin_backup_restore app rq parts)"
  unfolding admin_backup_restore_def
proof (rule guarded_answer, unfold guarded_def, rule allI)
  fix w
  let ?f = "web_then (web_res (read_upload parts [] [])) (\<lambda>(csrf, yaml).
      web_then (web_res (check_form_csrf (hr_headers rq) csrf)) (\<lambda>_.
      if trim yaml = [] then web_res (Inl (Bail ''choose a backup YAML file to restore''))
      else import_yaml app rq yaml))"
  let ?t = "Some (form_token (Admin_backup_restore parts))"
  obtain r w' where b: "admin_blocking app rq None ?f w = (r, w')" by fastforce
  then show "harmless app w (snd (admin_blocking app rq None ?f w)) \<or> admin_request app rq ?t w"
  proof (cases rule: admin_blocking_cases)
    case (2 u w1)
    show ?thesis
    proof (cases "read_upload parts [] []")
      case (Inl e)
      then show ?thesis using 2 b by (auto simp: web_then_def web_res_def)
    next
      case (Inr p)
      then obtain csrf yaml where p: "read_upload parts [] [] = Inr (csrf, yaml)" by (cases p) auto
      show ?thesis
      proof (cases "check_form_csrf (hr_headers rq) csrf")
        case (Inl e)
        then show ?thesis using 2 b p by (auto simp: web_then_def web_res_def)
      next
        case (Inr x)
        then have "\<exists>t. ?t = Some t \<and> cookie_value ''minica_csrf'' (hr_headers rq) = Some t \<and> is_valid_csrf_token t"
          using p check_form_csrf_Inr [of "hr_headers rq" csrf] by simp
        moreover have "fst (web_auth require_admin app rq 0 w) = Inr u" using 2(1) by simp
        ultimately show ?thesis using require_admin_role unfolding admin_request_def by blast
      qed
    qed
  qed (simp add: b)
qed

lemma guarded_form_post: "guarded app rq (Some (form_token x)) (handle_form app rq x)"
proof -
  have "calm app (inspect_form_post app rq csrf pem)" for csrf pem
    unfolding inspect_form_post_def by (intro calm_intros)
  moreover have "guarded app rq (Some csrf) (template_form_response app rq csrf form opn)" for csrf form opn
    unfolding template_form_response_def by (intro guarded_create calm_intros)
  ultimately show ?thesis
    using guarded_restore
    by (cases x) (simp_all add: guarded_calm guarded_mutate guarded_create calm_intros
      create_ca_form_def import_ca_form_post_def delete_ca_form_def renew_ca_form_def create_cert_form_def
      import_cert_form_post_def delete_cert_form_def renew_cert_form_def revoke_cert_form_def
      create_template_form_def update_template_form_def delete_template_form_def admin_nuke_def
      admin_create_user_def admin_delete_user_def admin_restore_ca_def admin_restore_cert_def)
qed

lemma guarded_json: "(\<And>x. guarded app rq t (f x)) \<Longrightarrow> guarded app rq t (with_json body f)"
  by (cases body) (simp_all add: guarded_def with_json_def)

lemma guarded_days: "(\<And>k. guarded app rq t (f k)) \<Longrightarrow> guarded app rq t (with_days days f)"
  by (cases "parse_i64 days") (simp_all add: guarded_def with_days_def)

lemma calm_find_by_cn: "calm app (api_find_cert_by_cn app rq ca query)"
proof -
  have "harmless app w (snd (viewer_blocking app rq (web_give ()) w))" for w
    using calm_pages(3) [OF calm_give(1), of app rq "()"] unfolding calm_def by blast
  then show ?thesis
    unfolding calm_def api_find_cert_by_cn_def Let_def
    by (auto split: prod.split sum.split option.split) (metis snd_conv)+
qed

lemma guarded_api_call:
  "guarded app rq (header_str ''x-csrf-token'' (hr_headers rq)) (handle_api app rq x)"
proof -
  have "calm app (api_list_cas app rq)" "calm app (api_get_ca app rq ca)" "calm app (api_list_certs app rq ca)"
      "calm app (api_get_cert app rq ca cert)" "calm app (api_list_templates app rq)"
      "calm app (api_get_template app rq ca)" "calm app (api_backup_export app rq)" for ca cert
    unfolding api_list_cas_def api_get_ca_def api_list_certs_def api_get_cert_def api_list_templates_def
      api_get_template_def api_backup_export_def by (intro calm_intros)+
  then show ?thesis
    by (cases x) (simp_all add: guarded_calm calm_find_by_cn guarded_json guarded_days guarded_api
      api_create_ca_def api_import_ca_def api_delete_ca_def api_renew_ca_def api_create_cert_def
      api_import_cert_def api_delete_cert_def api_renew_cert_def api_revoke_cert_def api_inspect_def
      api_create_template_def api_update_template_def api_delete_template_def api_backup_restore_def)
qed

lemma guarded_handle: "guarded app rq (submitted rq x) (handle app rq x)"
  by (cases x) (simp_all add: guarded_calm calm_public calm_page guarded_form_post guarded_api_call)

section \<open>Replies that need a login\<close>

primrec refused :: "reply \<Rightarrow> bool" where
  "refused (Page t) \<longleftrightarrow> False"
| "refused Public_page \<longleftrightarrow> False"
| "refused (Redirect_to p) \<longleftrightarrow> False"
| "refused (File name s) \<longleftrightarrow> False"
| "refused Data \<longleftrightarrow> False"
| "refused (Error_page n ch) \<longleftrightarrow> True"
| "refused (Api_error n code ch) \<longleftrightarrow> True"

definition signed :: "app \<Rightarrow> request \<Rightarrow> (world \<Rightarrow> reply \<times> world) \<Rightarrow> bool" where
  "signed app rq m \<longleftrightarrow> (\<forall>w. refused (fst (m w)) \<or> (\<exists>u. fst (web_auth require_viewer app rq 0 w) = Inr u))"

lemma error_replies [simp]:
  "refused (error_response e)" "refused (api_error_response e)" "refused (api_error_status st code msg)"
  "refused (public_error_response e)" "refused api_json_rejection"
  by (simp_all add: error_response_def api_error_response_def api_error_status_def
      public_error_response_def api_json_rejection_def Let_def)

lemma require_admin_viewer:
  "fst (web_auth require_admin app rq n w) = Inr u \<Longrightarrow> fst (web_auth require_viewer app rq n w) = Inr u"
  by (auto simp: web_auth_def require_admin_def require_viewer_def split: prod.splits sum.splits if_splits)

lemma signed_gates:
  assumes "\<And>e. refused (bad e)"
  shows "signed app rq (answer bad good (web_then (web_auth require_viewer app rq 0) f))"
    and "signed app rq (answer bad good (web_then (web_auth require_admin app rq 0) f))"
proof -
  have "refused (fst (answer bad good (web_then (web_auth r app rq 0) f) w)) \<or>
      (\<exists>u. fst (web_auth r app rq 0 w) = Inr u)" for r w
    using assms by (auto simp: answer_def web_then_def split: prod.split sum.split)
  then show "signed app rq (answer bad good (web_then (web_auth require_viewer app rq 0) f))"
    and "signed app rq (answer bad good (web_then (web_auth require_admin app rq 0) f))"
    unfolding signed_def using require_admin_viewer by blast+
qed

named_theorems signed_intros

lemma signed_blocking [signed_intros]:
  assumes "\<And>e. refused (bad e)"
  shows "signed app rq (answer bad good (viewer_blocking app rq f))"
    and "signed app rq (answer bad good (admin_blocking app rq csrf f))"
  unfolding viewer_blocking_def admin_blocking_def by (intro signed_gates assms)+

lemma signed_responses [signed_intros]:
  "signed app rq (page_response app rq 0 f)" "signed app rq (admin_page_response app rq 0 f)"
  "signed app rq (mutate_form_response app rq csrf target g)"
  "signed app rq (api_view app rq f)" "signed app rq (api_admin app rq meth f)"
  unfolding page_response_def admin_page_response_def mutate_form_response_def api_view_def api_admin_def
  by (intro signed_gates signed_blocking error_replies)+

lemma signed_create [signed_intros]: "signed app rq (create_form_response app rq csrf target again f)"
  unfolding signed_def
proof
  fix w
  let ?g = "web_try f"
  obtain r w' where b: "admin_blocking app rq (Some csrf) ?g w = (r, w')" by fastforce
  then show "refused (fst (create_form_response app rq csrf target again f w)) \<or>
      (\<exists>u. fst (web_auth require_viewer app rq 0 w) = Inr u)"
  proof (cases rule: admin_blocking_cases)
    case (2 u w1)
    then have "fst (web_auth require_admin app rq 0 w) = Inr u" by simp
    then show ?thesis using require_admin_viewer by blast
  qed (simp add: create_form_response_def b)
qed

lemma signed_body [signed_intros]:
  "(\<And>x. signed app rq (f x)) \<Longrightarrow> signed app rq (with_json body f)"
  "(\<And>k. signed app rq (g k)) \<Longrightarrow> signed app rq (with_days days g)"
  by (simp_all add: signed_def with_json_def with_days_def split: option.split)

lemma signed_find [signed_intros]: "signed app rq (api_find_cert_by_cn app rq ca query)"
  unfolding signed_def
proof
  fix w
  show "refused (fst (api_find_cert_by_cn app rq ca query w)) \<or>
      (\<exists>u. fst (web_auth require_viewer app rq 0 w) = Inr u)"
    by (auto simp: api_find_cert_by_cn_def viewer_blocking_def web_then_def split: prod.split sum.split)
qed

text \<open>What anybody may ask for; of the downloads of a CA only its certificate and truststore.\<close>

primrec open_to_all :: "public_handler \<Rightarrow> bool" where
  "open_to_all Home \<longleftrightarrow> True"
| "open_to_all (Crl_download ca) \<longleftrightarrow> True"
| "open_to_all (Public_ca_cert_download ca) \<longleftrightarrow> True"
| "open_to_all (Download_ca ca kind) \<longleftrightarrow> kind \<in> {''cert'', ''truststore'', ''truststore-password''}"
| "open_to_all (Switch_lang code return_to) \<longleftrightarrow> True"
| "open_to_all Logout \<longleftrightarrow> True"
| "open_to_all Api_csrf \<longleftrightarrow> True"
| "open_to_all Api_not_found \<longleftrightarrow> True"
| "open_to_all Api_method_not_allowed \<longleftrightarrow> True"

lemma signed_open: "\<not> open_to_all x \<Longrightarrow> signed app rq (handle_public app rq x)"
  by (cases x) (simp_all add: web_download_ca_def signed_intros)

lemma signed_page: "signed app rq (handle_page app rq x)"
  by (cases x) (simp_all only: handle_page.simps ca_list_def new_ca_form_def import_ca_form_def ca_detail_def
    new_cert_form_def import_cert_form_def cert_detail_def inspect_form_def template_list_def
    new_template_form_def edit_template_form_def admin_console_def swagger_page_def
    admin_backup_export_def web_download_cert_def signed_intros error_replies)

lemma signed_form: "signed app rq (handle_form app rq x)"
  by (cases x) (simp_all only: handle_form.simps create_ca_form_def import_ca_form_post_def delete_ca_form_def
    renew_ca_form_def create_cert_form_def import_cert_form_post_def delete_cert_form_def
    renew_cert_form_def revoke_cert_form_def inspect_form_post_def create_template_form_def
    update_template_form_def delete_template_form_def template_form_response_def admin_backup_restore_def
    admin_nuke_def admin_create_user_def admin_delete_user_def admin_restore_ca_def admin_restore_cert_def
    signed_intros error_replies)

lemma signed_api: "signed app rq (handle_api app rq x)"
  by (cases x) (simp_all only: handle_api.simps api_list_cas_def api_get_ca_def api_create_ca_def
    api_import_ca_def api_delete_ca_def api_renew_ca_def api_list_certs_def api_get_cert_def
    api_create_cert_def api_import_cert_def api_delete_cert_def api_renew_cert_def api_revoke_cert_def
    api_inspect_def api_list_templates_def api_get_template_def api_create_template_def
    api_update_template_def api_delete_template_def api_backup_export_def api_backup_restore_def
    signed_intros error_replies)

primrec needs_login :: "handler \<Rightarrow> bool" where
  "needs_login (Open x) \<longleftrightarrow> \<not> open_to_all x"
| "needs_login (Get x) \<longleftrightarrow> True"
| "needs_login (Post x) \<longleftrightarrow> True"
| "needs_login (Api x) \<longleftrightarrow> True"

lemma signed_handle: "needs_login x \<Longrightarrow> signed app rq (handle app rq x)"
  by (cases x) (simp_all add: signed_open signed_page signed_form signed_api)

section \<open>Where redirects go\<close>

text \<open>
  A path below the base path that a browser takes for one of this site: it starts with one
  slash, and no second slash or backslash follows.
\<close>

definition on_site :: "app \<Rightarrow> string \<Rightarrow> bool" where
  "on_site app p \<longleftrightarrow>
     (\<exists>rest. p = base_of app @ rest \<and> (rest = [] \<or> hd rest \<in> set ''/?#'')) \<and>
     (\<exists>more. p = CHR ''/'' # more \<and> (more = [] \<or> hd more \<notin> {CHR ''/'', BS}))"

primrec stays :: "app \<Rightarrow> reply \<Rightarrow> bool" where
  "stays app (Page t) \<longleftrightarrow> True"
| "stays app Public_page \<longleftrightarrow> True"
| "stays app (Redirect_to p) \<longleftrightarrow> on_site app p"
| "stays app (File name s) \<longleftrightarrow> True"
| "stays app Data \<longleftrightarrow> True"
| "stays app (Error_page n ch) \<longleftrightarrow> True"
| "stays app (Api_error n code ch) \<longleftrightarrow> True"

definition local_replies :: "app \<Rightarrow> (world \<Rightarrow> reply \<times> world) \<Rightarrow> bool" where
  "local_replies app m \<longleftrightarrow> (\<forall>w. stays app (fst (m w)))"

text \<open>A base path as the configuration makes it.\<close>

definition good_base :: "app \<Rightarrow> bool" where
  "good_base app \<longleftrightarrow> (\<exists>raw. ap_base_path app = normalize_base_path raw) \<and> BS \<notin> set (ap_base_path app)"

lemma good_base_shape:
  assumes "good_base app"
  shows "base_of app = [] \<or> (\<exists>c s. base_of app = CHR ''/'' # c # s \<and> c \<notin> {CHR ''/'', BS})"
proof -
  obtain raw where b: "ap_base_path app = normalize_base_path raw" and bs: "BS \<notin> set (ap_base_path app)"
    using assms unfolding good_base_def by blast
  from normalize_base_path_shape [of raw] show ?thesis
  proof
    assume "normalize_base_path raw = []"
    then show ?thesis using b by (simp add: base_of_def trim_end_matches_def)
  next
    assume "\<exists>c s. normalize_base_path raw = CHR ''/'' # c # s \<and> c \<noteq> CHR ''/'' \<and> last (c # s) \<noteq> CHR ''/''"
    then obtain c s where c: "ap_base_path app = CHR ''/'' # c # s" "c \<noteq> CHR ''/''" "last (c # s) \<noteq> CHR ''/''"
      using b by auto
    have "base_of app = ap_base_path app"
      unfolding base_of_def c(1) using c(3) by (cases s rule: rev_cases) (simp_all add: trim_end_matches_def)
    then show ?thesis using c bs by auto
  qed
qed

definition site_target :: "string \<Rightarrow> bool" where
  "site_target t \<longleftrightarrow> (\<exists>c s. t = CHR ''/'' # c # s \<and> c \<notin> {CHR ''/'', BS})"

lemma site_targets [simp]:
  "site_target ''/cas''" "site_target ''/templates''" "site_target ''/admin''" "site_target (ca_path ca)"
  "site_target (ca_path ca @ s)" "site_target (cert_path ca cert)"
  by (simp_all add: site_target_def ca_path_def cert_path_def BS_def)

lemma u_path_on_site:
  assumes "good_base app" and "site_target target"
  shows "on_site app (u_path app target)"
proof -
  obtain c s where t: "target = CHR ''/'' # c # s" "c \<notin> {CHR ''/'', BS}"
    using assms(2) unfolding site_target_def by blast
  have "u_path app target = base_of app @ CHR ''/'' # c # s"
    using t by (simp add: u_path_def trim_start_matches_def)
  then show ?thesis using good_base_shape [OF assms(1)] t(2) by (auto simp: on_site_def)
qed

lemma safe_path_on_site:
  assumes "safe_return_path app path = Some p"
  shows "on_site app p"
proof -
  have p: "p = path" "starts_with ''/'' path" "\<not> starts_with ''//'' path" "BS \<notin> set path"
    and r: "\<exists>rest. path = base_of app @ rest \<and> (rest = [] \<or> hd rest \<in> set ''/?#'')"
    using assms unfolding safe_return_path_Some by auto
  from p(2) obtain more where m: "path = CHR ''/'' # more" by (cases path) (auto simp: starts_with_def)
  have "more = [] \<or> hd more \<notin> {CHR ''/'', BS}"
    using p(3,4) m by (cases more) (auto simp: starts_with_def)
  then show ?thesis using r p(1) m by (simp add: on_site_def)
qed

lemma stays_errors [simp]:
  "stays app (error_response e)" "stays app (api_error_response e)" "stays app (api_error_status st code msg)"
  "stays app (public_error_response e)" "stays app api_json_rejection" "stays app (file_reply x)"
  by (simp_all add: error_response_def api_error_response_def api_error_status_def
      public_error_response_def api_json_rejection_def file_reply_def Let_def)

named_theorems stays_intros

lemma stays_answer:
  "(\<And>e. stays app (bad e)) \<Longrightarrow> (\<And>a. stays app (good a)) \<Longrightarrow> local_replies app (answer bad good m)"
  by (simp add: local_replies_def answer_def split: prod.split sum.split)

lemma stays_replies [stays_intros]:
  "local_replies app (page_response app rq n f)" "local_replies app (admin_page_response app rq n f)"
  "local_replies app (api_view app rq f)" "local_replies app (api_admin app rq meth f)"
  "local_replies app (answer error_response file_reply g)"
  "local_replies app (answer public_error_response file_reply g)"
  "local_replies app (answer error_response (\<lambda>_. Data) f)"
  "local_replies app (answer api_error_response (\<lambda>_. Data) f)"
  unfolding page_response_def admin_page_response_def api_view_def api_admin_def
  by (intro stays_answer; simp)+

lemma stays_forms [stays_intros]:
  assumes "good_base app" and "site_target target"
  shows "local_replies app (mutate_form_response app rq csrf target f)"
    and "local_replies app again \<Longrightarrow> local_replies app (create_form_response app rq csrf target again f)"
  using u_path_on_site [OF assms]
  by (auto simp: mutate_form_response_def create_form_response_def local_replies_def answer_def
      split: prod.split sum.split)

lemma stays_body [stays_intros]:
  "(\<And>x. local_replies app (f x)) \<Longrightarrow> local_replies app (with_json body f)"
  "(\<And>k. local_replies app (g k)) \<Longrightarrow> local_replies app (with_days days g)"
  by (simp_all add: local_replies_def with_json_def with_days_def split: option.split)

lemma stays_pair [stays_intros]: "stays app r \<Longrightarrow> local_replies app (Pair r)"
  by (simp add: local_replies_def)

lemma lang_reply_on_site:
  assumes "good_base app"
  shows "stays app (lang_reply app rq code return_to)"
proof -
  have "on_site app (u_path app ''/cas'')" by (rule u_path_on_site [OF assms]) simp
  then show ?thesis
    unfolding lang_reply_def
    by (auto split: option.split dest: safe_path_on_site referer_path_Some)
qed

lemma stays_public: "good_base app \<Longrightarrow> local_replies app (handle_public app rq x)"
  by (cases x) (simp_all add: home_def crl_download_def public_ca_cert_download_def web_download_ca_def
    switch_lang_def logout_def api_csrf_def api_not_found_def api_method_not_allowed_def
    public_ca_download_def stays_intros stays_answer lang_reply_on_site file_reply_def)

lemma stays_page: "local_replies app (handle_page app rq x)"
  by (cases x) (simp_all only: handle_page.simps ca_list_def new_ca_form_def import_ca_form_def ca_detail_def
    new_cert_form_def import_cert_form_def cert_detail_def inspect_form_def template_list_def
    new_template_form_def edit_template_form_def admin_console_def swagger_page_def
    admin_backup_export_def web_download_cert_def stays_intros)

lemma stays_form: "good_base app \<Longrightarrow> local_replies app (handle_form app rq x)"
  by (cases x) (simp_all add: create_ca_form_def import_ca_form_post_def delete_ca_form_def
    renew_ca_form_def create_cert_form_def import_cert_form_post_def delete_cert_form_def
    renew_cert_form_def revoke_cert_form_def inspect_form_post_def create_template_form_def
    update_template_form_def delete_template_form_def template_form_response_def admin_backup_restore_def
    admin_nuke_def admin_create_user_def admin_delete_user_def admin_restore_ca_def admin_restore_cert_def
    stays_intros stays_answer u_path_on_site)

lemma stays_api: "local_replies app (handle_api app rq x)"
proof -
  have "local_replies app (api_find_cert_by_cn app rq ca query)" for ca query
    by (simp add: local_replies_def api_find_cert_by_cn_def Let_def split: prod.split sum.split option.split)
  then show ?thesis
    by (cases x) (simp_all add: stays_intros api_list_cas_def api_get_ca_def api_create_ca_def
      api_import_ca_def api_delete_ca_def api_renew_ca_def api_list_certs_def api_get_cert_def
      api_create_cert_def api_import_cert_def api_delete_cert_def api_renew_cert_def api_revoke_cert_def
      api_inspect_def api_list_templates_def api_get_template_def api_create_template_def
      api_update_template_def api_delete_template_def api_backup_export_def api_backup_restore_def)
qed

lemma stays_handle: "good_base app \<Longrightarrow> local_replies app (handle app rq x)"
  by (cases x) (simp_all add: stays_public stays_page stays_form stays_api)

end
