(* ===== verification/Pkcs12.thy ===== *)
theory Pkcs12
  imports Auth
begin

text \<open>
  The writer of certificate-only PKCS#12 stores (\<open>src/src/pkcs12.rs\<close>): the DER encoding, the
  key derivation of RFC 7292 with its big-integer addition, the MAC, and the store itself.
  SHA-256 and base64 are parameters, the salt is drawn by the caller. Octets are 8-bit words.
  A reader of DER, which the code does not have, states what the encoding means.
\<close>

type_synonym octets = "8 word list"

unbundle bit_operations_syntax

section \<open>DER\<close>

text \<open>\<open>n.to_be_bytes()\<close> of an integer of \<open>k\<close> bytes.\<close>

definition be_bytes :: "nat \<Rightarrow> nat \<Rightarrow> octets" where
  "be_bytes k n = map (\<lambda>i. of_nat (n div 256 ^ i mod 256)) (rev [0..<k])"

definition significant :: "octets \<Rightarrow> octets" where
  "significant bs = dropWhile (\<lambda>b. b = 0) bs"

definition tlv :: "8 word \<Rightarrow> octets \<Rightarrow> octets" where
  "tlv tag content =
     tag #
     (if length content < 128 then [of_nat (length content)]
      else let bs = significant (be_bytes 8 (length content)) in (128 OR of_nat (length bs)) # bs) @
     content"

definition sequence :: "octets list \<Rightarrow> octets" where
  "sequence items = tlv 0x30 (concat items)"

text \<open>\<open>sort\<close> on byte vectors: lexicographic.\<close>

definition set_of :: "octets list \<Rightarrow> octets" where
  "set_of items = tlv 0x31 (concat (sort items))"

definition explicit :: "8 word \<Rightarrow> octets \<Rightarrow> octets" where
  "explicit tag content = tlv (0xA0 OR tag) content"

definition octet_string :: "octets \<Rightarrow> octets" where
  "octet_string bs = tlv 0x04 bs"

definition der_integer :: "nat \<Rightarrow> octets" where
  "der_integer value =
     (let bs = significant (be_bytes 4 value)
      in tlv 0x02 (if bs = [] \<or> hd bs AND 0x80 \<noteq> 0 then 0 # bs else bs))"

text \<open>Seven bits at a time, all but the last with the high bit.\<close>

fun more_chunk :: "nat \<Rightarrow> octets" where
  "more_chunk rest = (if rest = 0 then [] else (0x80 OR of_nat (rest mod 128)) # more_chunk (rest div 128))"

declare more_chunk.simps [simp del]

definition arc_chunk :: "nat \<Rightarrow> octets" where
  "arc_chunk arc = rev (of_nat (arc mod 128) # more_chunk (arc div 128))"

definition oid :: "string \<Rightarrow> octets" where
  "oid dotted =
     (let arcs = map digits_value (split_on (\<lambda>c. c = CHR ''.'') dotted)
      in tlv 0x06 (concat (map arc_chunk ((arcs ! 0 * 40 + arcs ! 1) # drop 2 arcs))))"

definition attribute :: "string \<Rightarrow> octets \<Rightarrow> octets" where
  "attribute oid_text value = sequence [oid oid_text, set_of [value]]"

definition data_content_info :: "octets \<Rightarrow> octets" where
  "data_content_info content = sequence [oid ''1.2.840.113549.1.7.1'', explicit 0 (octet_string content)]"

section \<open>Texts\<close>

text \<open>\<open>encode_utf16\<close> of a text in UTF-8.\<close>

definition code_point :: "string \<Rightarrow> nat \<Rightarrow> nat" where
  "code_point s n =
     (if n = 1 then byte_at s 0
      else if n = 2 then byte_at s 0 mod 32 * 64 + byte_at s 1 mod 64
      else if n = 3 then byte_at s 0 mod 16 * 4096 + byte_at s 1 mod 64 * 64 + byte_at s 2 mod 64
      else byte_at s 0 mod 8 * 262144 + byte_at s 1 mod 64 * 4096 + byte_at s 2 mod 64 * 64 + byte_at s 3 mod 64)"

definition utf16_units :: "nat \<Rightarrow> nat list" where
  "utf16_units c =
     (if c < 65536 then [c]
      else [55296 + (c - 65536) div 1024, 56320 + (c - 65536) mod 1024])"

function encode_utf16 :: "string \<Rightarrow> nat list" where
  "encode_utf16 s =
     (if s = [] then []
      else (let n = snd (utf8_head s) in utf16_units (code_point s n) @ encode_utf16 (drop n s)))"
  by pat_completeness auto
termination by (relation "measure length") (auto simp: utf8_head_pos intro!: diff_less)

declare encode_utf16.simps [simp del]

definition bmp_string :: "string \<Rightarrow> octets" where
  "bmp_string text = tlv 0x1E (concat (map (be_bytes 2) (encode_utf16 text)))"

definition bmp_password :: "string \<Rightarrow> octets" where
  "bmp_password password = concat (map (be_bytes 2) (encode_utf16 password @ [0]))"

function drop_whitespace :: "string \<Rightarrow> string" where
  "drop_whitespace [] = []"
| "drop_whitespace (c # s) =
     (case find (\<lambda>w. starts_with w (c # s)) ws_seqs of
        Some w \<Rightarrow> drop_whitespace (drop (length w) (c # s))
      | None \<Rightarrow> c # drop_whitespace s)"
  by pat_completeness auto
termination
proof (relation "measure length")
  fix c s w
  assume f: "find (\<lambda>w. starts_with w (c # s)) ws_seqs = Some w"
  then have "w \<noteq> []" using find_Some_D [OF f] ws_seqs_nonempty by auto
  then show "(drop (length w) (c # s), c # s) \<in> measure length" by (cases w) auto
qed simp_all

record crypto =
  cr_sha256 :: "octets \<Rightarrow> octets"
  cr_b64 :: "string \<Rightarrow> octets result"

text \<open>\<open>text.split(marker).next()\<close>.\<close>

definition before_str :: "string \<Rightarrow> string \<Rightarrow> string" where
  "before_str marker s = (case split_str marker s of None \<Rightarrow> s | Some (a, b) \<Rightarrow> a)"

definition pem_to_der :: "crypto \<Rightarrow> string \<Rightarrow> octets result" where
  "pem_to_der cr pem =
     (if \<not> valid_utf8 pem then Inl (Context ''certificate PEM is not UTF-8'' (External ''invalid utf-8 sequence''))
      else (case split_str ''-----BEGIN CERTIFICATE-----'' pem of
          None \<Rightarrow> Inl (Bail ''no CERTIFICATE block in PEM'')
        | Some (a, rest) \<Rightarrow>
            (let body = before_str ''-----END CERTIFICATE-----'' (before_str ''-----BEGIN CERTIFICATE-----'' rest)
             in bind_res (with_context ''certificate PEM is not valid base64'' (cr_b64 cr (drop_whitespace body)))
                  (\<lambda>der. if der = [] \<or> hd der \<noteq> 0x30 then Inl (Bail ''certificate PEM does not hold a DER SEQUENCE'')
                         else Inr der))))"

section \<open>Key derivation and MAC\<close>

text \<open>A digest has 32 octets, whatever the parameter gives.\<close>

definition digest :: "crypto \<Rightarrow> octets \<Rightarrow> octets" where
  "digest cr m = take 32 (cr_sha256 cr m @ replicate 32 0)"

text \<open>\<open>src.iter().cycle().take(n)\<close>.\<close>

definition cycled :: "nat \<Rightarrow> octets \<Rightarrow> octets" where
  "cycled n src = (if src = [] then [] else map (\<lambda>k. src ! (k mod length src)) [0..<n])"

definition fill :: "octets \<Rightarrow> octets" where
  "fill src = cycled (64 * ((length src + 63) div 64)) src"

text \<open>From the last octet to the first, with a carry of 16 bits.\<close>

fun add_rev :: "octets \<Rightarrow> octets \<Rightarrow> 16 word \<Rightarrow> octets" where
  "add_rev (x # xs) (y # ys) carry =
     (let sum = (ucast x :: 16 word) + ucast y + carry
      in (ucast sum :: 8 word) # add_rev xs ys (drop_bit 8 sum))"
| "add_rev xs ys carry = xs"

definition add_block :: "octets \<Rightarrow> octets \<Rightarrow> octets" where
  "add_block b block = rev (add_rev (rev block) (rev b) 1)"

function map_chunks :: "nat \<Rightarrow> (octets \<Rightarrow> octets) \<Rightarrow> octets \<Rightarrow> octets" where
  "map_chunks v f xs =
     (if xs = [] \<or> v = 0 then xs else f (take v xs) @ map_chunks v f (drop v xs))"
  by pat_completeness auto
termination by (relation "measure (\<lambda>(v, f, xs). length xs)") auto

declare map_chunks.simps [simp del]

definition kdf_round :: "crypto \<Rightarrow> octets \<Rightarrow> nat \<Rightarrow> octets \<Rightarrow> octets" where
  "kdf_round cr d iterations i = (digest cr ^^ (iterations - 1)) (digest cr (d @ i))"

lemma digest_length [simp]: "length (digest cr m) = 32"
  by (simp add: digest_def)

lemma kdf_round_length [simp]: "length (kdf_round cr d n i) = 32"
  by (cases "n - 1") (simp_all add: kdf_round_def)

function kdf_loop :: "crypto \<Rightarrow> octets \<Rightarrow> nat \<Rightarrow> nat \<Rightarrow> octets \<Rightarrow> octets \<Rightarrow> octets" where
  "kdf_loop cr d iterations len i out =
     (if len \<le> length out then take len out
      else (let a = kdf_round cr d iterations i
            in kdf_loop cr d iterations len (map_chunks 64 (add_block (cycled 64 a)) i) (out @ a)))"
  by pat_completeness auto
termination by (relation "measure (\<lambda>(cr, d, n, len, i, out). len - length out)") auto

declare kdf_loop.simps [simp del]

definition pkcs12_kdf :: "crypto \<Rightarrow> octets \<Rightarrow> octets \<Rightarrow> 8 word \<Rightarrow> nat \<Rightarrow> nat \<Rightarrow> octets" where
  "pkcs12_kdf cr password salt i iterations len =
     kdf_loop cr (replicate 64 i) iterations len (fill salt @ fill password) []"

definition hmac_sha256 :: "crypto \<Rightarrow> octets \<Rightarrow> octets \<Rightarrow> octets" where
  "hmac_sha256 cr key message =
     (let k = (if 64 < length key then digest cr key else key);
          block = k @ replicate (64 - length k) 0;
          pad = (\<lambda>b. map (\<lambda>x. x XOR b) block)
      in digest cr (pad 0x5C @ digest cr (pad 0x36 @ message)))"

section \<open>The store\<close>

definition authenticated_safe :: "octets \<Rightarrow> string \<Rightarrow> octets" where
  "authenticated_safe cert_der alias_name =
     (let attributes = set_of [attribute ''1.2.840.113549.1.9.20'' (bmp_string alias_name),
            attribute ''2.16.840.1.113894.746875.1.1'' (oid ''2.5.29.37.0'')];
          cert_bag = sequence [oid ''1.2.840.113549.1.9.22.1'', explicit 0 (octet_string cert_der)];
          safe_bag = sequence [oid ''1.2.840.113549.1.12.10.1.3'', explicit 0 cert_bag, attributes]
      in sequence [data_content_info (sequence [safe_bag])])"

definition store_mac :: "crypto \<Rightarrow> octets \<Rightarrow> string \<Rightarrow> octets \<Rightarrow> octets" where
  "store_mac cr salt password content =
     hmac_sha256 cr (pkcs12_kdf cr (bmp_password password) salt 3 2048 32) content"

definition mac_data :: "octets \<Rightarrow> octets \<Rightarrow> octets" where
  "mac_data mac salt =
     sequence [sequence [sequence [oid ''2.16.840.1.101.3.4.2.1'', [0x05, 0x00]], octet_string mac],
       octet_string salt, der_integer 2048]"

definition native_truststore :: "crypto \<Rightarrow> octets \<Rightarrow> string \<Rightarrow> string \<Rightarrow> string \<Rightarrow> octets result" where
  "native_truststore cr salt cert_pem alias_name password =
     bind_res (pem_to_der cr cert_pem) (\<lambda>cert_der.
     let safe = authenticated_safe cert_der alias_name
     in Inr (sequence [der_integer 3, data_content_info safe,
          mac_data (store_mac cr salt password safe) salt]))"

section \<open>Reading DER\<close>

definition be_value :: "octets \<Rightarrow> nat" where
  "be_value bs = foldl (\<lambda>v b. v * 256 + unat b) 0 bs"

text \<open>One element at the front: tag, content, rest.\<close>

definition read_tlv :: "octets \<Rightarrow> (8 word \<times> octets \<times> octets) option" where
  "read_tlv bs =
     (case bs of
        tag # l # rest \<Rightarrow>
          (let k = (if l < 128 then 0 else unat (l AND 127));
               n = (if l < 128 then unat l else be_value (take k rest));
               body = drop k rest
           in if k + n \<le> length rest then Some (tag, take n body, drop n body) else None)
      | _ \<Rightarrow> None)"

function elements :: "octets \<Rightarrow> (8 word \<times> octets) list option" where
  "elements bs =
     (if bs = [] then Some []
      else (case read_tlv bs of
          None \<Rightarrow> None
        | Some (tag, content, rest) \<Rightarrow> map_option ((#) (tag, content)) (elements rest)))"
  by pat_completeness auto
termination
proof (relation "measure length")
  fix bs :: octets and x tag y content rest
  assume "read_tlv bs = Some x" "(tag, y) = x" "(content, rest) = y"
  then show "(rest, bs) \<in> measure length"
    by (auto simp: read_tlv_def Let_def split: list.splits if_splits)
qed simp

declare elements.simps [simp del]

text \<open>The content of the element at a path: at each level the element of that number.\<close>

fun at_path :: "nat list \<Rightarrow> octets \<Rightarrow> octets option" where
  "at_path [] bs = Some bs"
| "at_path (n # ns) bs =
     (case elements bs of
        None \<Rightarrow> None
      | Some es \<Rightarrow> if n < length es then at_path ns (snd (es ! n)) else None)"

section \<open>Lemmas: numbers as octets\<close>

lemma encode_utf16_ascii:
  "encode_utf16 [] = []" "byte c < 128 \<Longrightarrow> encode_utf16 (c # s) = byte c # encode_utf16 s"
proof -
  show "encode_utf16 [] = []" by (subst encode_utf16.simps) simp
  assume c: "byte c < 128"
  then have "snd (utf8_head (c # s)) = 1" by (simp add: utf8_head_def byte_at_def)
  then show "encode_utf16 (c # s) = byte c # encode_utf16 s"
    using c by (subst encode_utf16.simps) (simp add: Let_def code_point_def byte_at_def utf16_units_def)
qed

definition le_value :: "octets \<Rightarrow> nat" where
  "le_value bs = foldr (\<lambda>b v. unat b + 256 * v) bs 0"

lemma le_value_simps [simp]: "le_value [] = 0" "le_value (b # bs) = unat b + 256 * le_value bs"
  by (simp_all add: le_value_def)

lemma be_value_rev: "be_value bs = le_value (rev bs)"
  by (simp add: be_value_def le_value_def foldr_conv_foldl algebra_simps)

lemma le_value_append: "le_value (xs @ ys) = le_value xs + 256 ^ length xs * le_value ys"
  by (induction xs) (simp_all add: algebra_simps)

lemma be_value_Cons: "be_value (b # bs) = unat b * 256 ^ length bs + be_value bs"
  by (simp add: be_value_rev le_value_append)

lemma be_bytes_Suc: "be_bytes (Suc k) n = of_nat (n div 256 ^ k mod 256) # be_bytes k n"
  by (simp add: be_bytes_def)

lemma be_bytes_length [simp]: "length (be_bytes k n) = k"
  by (simp add: be_bytes_def)

lemma be_value_be_bytes: "be_value (be_bytes k n) = n mod 256 ^ k"
proof (induction k)
  case 0
  then show ?case by (simp add: be_bytes_def be_value_def)
next
  case (Suc k)
  have "n mod 256 ^ Suc k = 256 ^ k * (n div 256 ^ k mod 256) + n mod 256 ^ k"
    using mod_mult2_eq [of n "256 ^ k" 256] by (simp add: mult.commute)
  moreover have "unat (of_nat (n div 256 ^ k mod 256) :: 8 word) = n div 256 ^ k mod 256"
    by (simp add: unat_of_nat take_bit_eq_mod)
  ultimately show ?case by (simp add: be_bytes_Suc be_value_Cons Suc)
qed

lemma significant_value: "be_value (significant bs) = be_value bs"
  by (induction bs) (simp_all add: significant_def be_value_Cons)

lemma significant_length: "length (significant bs) \<le> length bs"
  by (simp add: significant_def length_dropWhile_le)

section \<open>Lemmas: reading what was written\<close>

lemma length_octet:
  assumes "k \<le> 8"
  shows "\<not> (128 OR of_nat k :: 8 word) < 128" and "unat ((128 OR of_nat k :: 8 word) AND 127) = k"
proof -
  have "k \<in> {0, 1, 2, 3, 4, 5, 6, 7, 8}" using assms by auto
  then show "\<not> (128 OR of_nat k :: 8 word) < 128" and "unat ((128 OR of_nat k :: 8 word) AND 127) = k"
    by (elim insertE emptyE; simp)+
qed

lemma read_tlv_tlv:
  assumes "length c < 2 ^ 64"
  shows "read_tlv (tlv t c @ r) = Some (t, c, r)"
proof (cases "length c < 128")
  case True
  then have "(of_nat (length c) :: 8 word) < 128" "unat (of_nat (length c) :: 8 word) = length c"
    by (simp_all add: word_less_nat_alt unat_of_nat take_bit_eq_mod)
  then show ?thesis using True by (simp add: read_tlv_def tlv_def)
next
  case False
  let ?bs = "significant (be_bytes 8 (length c))"
  have k: "length ?bs \<le> 8" using significant_length [of "be_bytes 8 (length c)"] by simp
  have "be_value ?bs = length c"
    using assms by (simp add: significant_value be_value_be_bytes)
  then show ?thesis
    using False length_octet [OF k] by (simp add: read_tlv_def tlv_def Let_def)
qed

lemma elements_Nil [simp]: "elements [] = Some []"
  by (subst elements.simps) simp

lemma elements_tlv:
  assumes "length c < 2 ^ 64"
  shows "elements (tlv t c @ r) = map_option ((#) (t, c)) (elements r)"
proof -
  have "tlv t c @ r \<noteq> []" by (simp add: tlv_def)
  then show ?thesis by (subst elements.simps) (simp add: read_tlv_tlv [OF assms])
qed

lemma elements_one: "length c < 2 ^ 64 \<Longrightarrow> elements (tlv t c) = Some [(t, c)]"
  using elements_tlv [of c t "[]"] by simp

lemma tlv_longer: "length c \<le> length (tlv t c)"
  by (simp add: tlv_def Let_def)

text \<open>Parts of a short encoding are short.\<close>

lemma short_content: "length (tlv t c) < (n :: nat) \<Longrightarrow> length c < n"
  using tlv_longer [of c t] by linarith

section \<open>Lemmas: addition\<close>

lemma carry_mod: "n mod 256 + 256 * ((m + n div 256) mod p) = (n + 256 * m) mod (256 * p)"
  for n m p :: nat
proof -
  have "(n + 256 * m) div 256 = m + n div 256" "(n + 256 * m) mod 256 = n mod 256" by simp_all
  then show ?thesis by (simp only: mod_mult2_eq add.commute)
qed

lemma add_rev_value:
  assumes "length xs = length ys" and "unat c \<le> 1"
  shows "le_value (add_rev xs ys c) = (le_value xs + le_value ys + unat c) mod 256 ^ length xs"
  using assms
proof (induction xs ys arbitrary: c rule: list_induct2)
  case Nil
  then show ?case by simp
next
  case (Cons x xs y ys)
  let ?s = "(ucast x :: 16 word) + ucast y + c"
  let ?n = "unat x + unat y + unat c"
  have b: "unat x < 256" "unat y < 256" using unsigned_less [of x] unsigned_less [of y] by simp_all
  then have small: "?n < 512" using Cons.prems by simp
  have up: "unat (ucast x :: 16 word) = unat x" "unat (ucast y :: 16 word) = unat y"
    using b by (simp_all add: unsigned_ucast_eq take_bit_eq_mod)
  have s: "unat ?s = ?n"
    using small by (simp add: unat_word_ariths up)
  have lo: "unat (ucast ?s :: 8 word) = ?n mod 256"
    by (simp add: unsigned_ucast_eq take_bit_eq_mod s)
  have hi: "unat (drop_bit 8 ?s) = ?n div 256"
    by (simp add: drop_bit_eq_div unat_div_distrib s)
  have "le_value (add_rev xs ys (drop_bit 8 ?s)) =
      (le_value xs + le_value ys + ?n div 256) mod 256 ^ length xs"
    using Cons.IH [of "drop_bit 8 ?s"] small by (simp add: hi)
  then have "le_value (add_rev (x # xs) (y # ys) c) =
      ?n mod 256 + 256 * ((le_value xs + le_value ys + ?n div 256) mod 256 ^ length xs)"
    by (simp add: Let_def lo)
  also have "... = (?n + 256 * (le_value xs + le_value ys)) mod (256 * 256 ^ length xs)"
    by (rule carry_mod)
  finally show ?case by (simp add: algebra_simps)
qed

lemma add_rev_length: "length (add_rev xs ys c) = length xs"
  by (induction xs ys c rule: add_rev.induct) (simp_all add: Let_def)

lemma add_block_value:
  assumes "length b = length block"
  shows "be_value (add_block b block) = (be_value block + be_value b + 1) mod 256 ^ length block"
  using add_rev_value [of "rev block" "rev b" 1] assms by (simp add: add_block_def be_value_rev)

section \<open>Lemmas: the key\<close>

lemma kdf_loop_length: "length (kdf_loop cr d n len i out) = len"
proof (induction cr d n len i out rule: kdf_loop.induct)
  case (1 cr d n len i out)
  then show ?case by (subst kdf_loop.simps) (auto simp: Let_def)
qed

section \<open>Lemmas: paths in a store\<close>

definition item :: "8 word \<times> octets \<Rightarrow> octets" where
  "item e = tlv (fst e) (snd e)"

lemma elements_items: "length (concat (map item es)) < 2 ^ 64 \<Longrightarrow> elements (concat (map item es)) = Some es"
proof (induction es)
  case (Cons e es)
  then have "length (snd e) < 2 ^ 64" using tlv_longer [of "snd e" "fst e"] by (simp add: item_def)
  moreover have "elements (concat (map item es)) = Some es" using Cons by simp
  ultimately show ?case using elements_tlv [of "snd e" "fst e" "concat (map item es)"] by (simp add: item_def [of e])
qed simp

lemma path_items:
  assumes "bs = concat (map item es)" and "length bs < 2 ^ 64" and "n < length es"
  shows "at_path (n # ns) bs = at_path ns (snd (es ! n))"
  using elements_items [of es] assms by simp

lemma path_one: "length (tlv t c) < 2 ^ 64 \<Longrightarrow> at_path (0 # ns) (tlv t c) = at_path ns c"
  using path_items [of "tlv t c" "[(t, c)]" 0 ns] by (simp add: item_def)

lemma path_two:
  assumes "length (tlv t1 c1 @ tlv t2 c2) < 2 ^ 64"
  shows "at_path (0 # ns) (tlv t1 c1 @ tlv t2 c2) = at_path ns c1"
    and "at_path (1 # ns) (tlv t1 c1 @ tlv t2 c2) = at_path ns c2"
  using assms path_items [of "tlv t1 c1 @ tlv t2 c2" "[(t1, c1), (t2, c2)]" 0 ns]
    path_items [of "tlv t1 c1 @ tlv t2 c2" "[(t1, c1), (t2, c2)]" 1 ns] by (simp_all add: item_def)

lemma path_three:
  assumes "length (tlv t1 c1 @ tlv t2 c2 @ tlv t3 c3) < 2 ^ 64"
  shows "at_path (0 # ns) (tlv t1 c1 @ tlv t2 c2 @ tlv t3 c3) = at_path ns c1"
    and "at_path (1 # ns) (tlv t1 c1 @ tlv t2 c2 @ tlv t3 c3) = at_path ns c2"
    and "at_path (2 # ns) (tlv t1 c1 @ tlv t2 c2 @ tlv t3 c3) = at_path ns c3"
  using assms path_items [of "tlv t1 c1 @ tlv t2 c2 @ tlv t3 c3" "[(t1, c1), (t2, c2), (t3, c3)]" 0 ns]
    path_items [of "tlv t1 c1 @ tlv t2 c2 @ tlv t3 c3" "[(t1, c1), (t2, c2), (t3, c3)]" 1 ns]
    path_items [of "tlv t1 c1 @ tlv t2 c2 @ tlv t3 c3" "[(t1, c1), (t2, c2), (t3, c3)]" 2 ns]
  by (simp_all add: item_def)

lemma at_path_append: "at_path ms bs = Some c \<Longrightarrow> at_path (ms @ ns) bs = at_path ns c"
  by (induction ms arbitrary: bs) (auto split: option.splits if_splits)

lemma oid_tlv: "\<exists>c. oid s = tlv 6 c"
  by (auto simp: oid_def Let_def)

lemma integer_tlv: "\<exists>c. der_integer n = tlv 2 c"
  by (auto simp: der_integer_def Let_def)

lemma path_info:
  assumes "length (data_content_info x) < 2 ^ 64"
  shows "length x < 2 ^ 64" and "\<exists>body. data_content_info x = tlv 0x30 body \<and> (\<forall>ns. at_path (1 # 0 # ns) body = at_path ns x)"
proof -
  obtain c where c: "oid ''1.2.840.113549.1.7.1'' = tlv 6 c" using oid_tlv by blast
  let ?body = "tlv 6 c @ tlv (0xA0 OR 0) (tlv 4 x)"
  have d: "data_content_info x = tlv 0x30 ?body"
    by (simp add: data_content_info_def sequence_def explicit_def octet_string_def c)
  have b: "length ?body < 2 ^ 64" using assms unfolding d by (rule short_content)
  then have l: "length (tlv 4 x) < 2 ^ 64" using short_content [where t = "0xA0 OR 0" and c = "tlv 4 x" and n = "2 ^ 64"] by simp
  have "at_path (1 # 0 # ns) ?body = at_path ns x" for ns
    using path_two(2) [OF b] path_one [OF l] by simp
  with d show "\<exists>body. data_content_info x = tlv 0x30 body \<and> (\<forall>ns. at_path (1 # 0 # ns) body = at_path ns x)"
    by blast
  show "length x < 2 ^ 64" by (rule short_content [OF l])
qed

lemma path_safe:
  assumes "length (authenticated_safe der alias_name) < 2 ^ 64"
  shows "at_path [0, 0, 1, 0, 0, 0, 1, 0, 1, 0] (authenticated_safe der alias_name) = Some der"
proof -
  obtain c1 where c1: "oid ''1.2.840.113549.1.12.10.1.3'' = tlv 6 c1" using oid_tlv by blast
  obtain c2 where c2: "oid ''1.2.840.113549.1.9.22.1'' = tlv 6 c2" using oid_tlv by blast
  obtain as where as: "set_of [attribute ''1.2.840.113549.1.9.20'' (bmp_string alias_name),
      attribute ''2.16.840.1.113894.746875.1.1'' (oid ''2.5.29.37.0'')] = tlv 0x31 as"
    by (simp add: set_of_def)
  let ?bag = "tlv 6 c2 @ tlv (0xA0 OR 0) (tlv 4 der)"
  let ?items = "tlv 6 c1 @ tlv (0xA0 OR 0) (tlv 0x30 ?bag) @ tlv 0x31 as"
  let ?contents = "tlv 0x30 (tlv 0x30 ?items)"
  have safe: "authenticated_safe der alias_name = tlv 0x30 (data_content_info ?contents)"
    by (simp add: authenticated_safe_def Let_def as sequence_def explicit_def octet_string_def c1 c2)
  have l1: "length (data_content_info ?contents) < 2 ^ 64"
    using assms unfolding safe by (rule short_content)
  obtain body where body: "data_content_info ?contents = tlv 0x30 body"
    "\<And>ns. at_path (1 # 0 # ns) body = at_path ns ?contents" using path_info(2) [OF l1] by blast
  have l2: "length ?contents < 2 ^ 64" by (rule path_info(1) [OF l1])
  have l3: "length (tlv 0x30 ?items) < 2 ^ 64" using l2 by (rule short_content)
  have l4: "length ?items < 2 ^ 64" using l3 by (rule short_content)
  then have "length (tlv (0xA0 OR 0) (tlv 0x30 ?bag)) < 2 ^ 64" by simp
  then have l5: "length (tlv 0x30 ?bag) < 2 ^ 64" by (rule short_content)
  have l6: "length ?bag < 2 ^ 64" using l5 by (rule short_content)
  then have "length (tlv (0xA0 OR 0) (tlv 4 der)) < 2 ^ 64" by simp
  then have l7: "length (tlv 4 der) < 2 ^ 64" by (rule short_content)
  have "at_path [0, 0, 1, 0, 0, 0, 1, 0, 1, 0] (authenticated_safe der alias_name) =
      at_path [0, 0, 1, 0, 1, 0] ?contents"
    using path_one [of "0x30" "data_content_info ?contents"] assms l1 path_one [of "0x30" body] body
    by (simp only: safe)
  also have "... = at_path [1, 0] ?bag"
    using path_one [OF l2] path_one [OF l3] path_three(2) [OF l4] path_one [OF l5] by simp
  also have "... = Some der" using path_two(2) [OF l6] path_one [OF l7] by simp
  finally show ?thesis .
qed

lemma path_mac:
  assumes "length (mac_data mac salt) < 2 ^ 64"
  shows "\<exists>body. mac_data mac salt = tlv 0x30 body \<and> at_path [0, 1] body = Some mac \<and> at_path [1] body = Some salt"
proof -
  obtain c where c: "oid ''2.16.840.1.101.3.4.2.1'' = tlv 6 c" using oid_tlv by blast
  obtain n where n: "der_integer 2048 = tlv 2 n" using integer_tlv by blast
  let ?info = "tlv 0x30 (tlv 6 c @ [0x05, 0x00]) @ tlv 4 mac"
  let ?body = "tlv 0x30 ?info @ tlv 4 salt @ tlv 2 n"
  have m: "mac_data mac salt = tlv 0x30 ?body"
    by (simp add: mac_data_def sequence_def octet_string_def c n)
  have l: "length ?body < 2 ^ 64" using assms unfolding m by (rule short_content)
  then have "length (tlv 0x30 ?info) < 2 ^ 64" by simp
  then have li: "length ?info < 2 ^ 64" by (rule short_content)
  have "at_path [0, 1] ?body = Some mac" "at_path [1] ?body = Some salt"
    using path_three(1,2) [OF l] path_two(2) [OF li] by simp_all
  with m show ?thesis by blast
qed

text \<open>What a reader finds in a store: the contents, their MAC, and its salt.\<close>

lemma store_paths:
  assumes "store = sequence [der_integer 3, data_content_info safe, mac_data mac salt]"
    and "length store < 2 ^ 64"
  shows "at_path [0, 1, 1, 0] store = Some safe" and "at_path [0, 2, 0, 1] store = Some mac"
    and "at_path [0, 2, 1] store = Some salt" and "length safe < 2 ^ 64"
proof -
  obtain n where n: "der_integer 3 = tlv 2 n" using integer_tlv by blast
  let ?all = "der_integer 3 @ data_content_info safe @ mac_data mac salt"
  have s: "store = tlv 0x30 ?all" using assms(1) by (simp add: sequence_def)
  have l: "length ?all < 2 ^ 64" using assms(2) unfolding s by (rule short_content)
  then have l1: "length (data_content_info safe) < 2 ^ 64" and l2: "length (mac_data mac salt) < 2 ^ 64"
    by simp_all
  obtain b1 where b1: "data_content_info safe = tlv 0x30 b1" "\<And>ns. at_path (1 # 0 # ns) b1 = at_path ns safe"
    using path_info(2) [OF l1] by blast
  obtain b2 where b2: "mac_data mac salt = tlv 0x30 b2" "at_path [0, 1] b2 = Some mac" "at_path [1] b2 = Some salt"
    using path_mac [OF l2] by blast
  have top: "at_path (0 # ns) store = at_path ns ?all" for ns
    using path_one assms(2) unfolding s by blast
  note three = path_three [of 2 n "0x30" b1 "0x30" b2, folded n b1(1) b2(1), OF l]
  show "at_path [0, 1, 1, 0] store = Some safe" using three(2) b1(2) [of "[]"] by (simp only: top) simp
  show "at_path [0, 2, 0, 1] store = Some mac" "at_path [0, 2, 1] store = Some salt"
    using three(3) b2(2,3) by (simp_all only: top)
  show "length safe < 2 ^ 64" by (rule path_info(1) [OF l1])
qed

end
