(* ===== verification/Legacy.thy ===== *)
theory Legacy
  imports Ca_Facts Service_Ops
begin

text \<open>
  The import of a data directory of MiniCA 1.0 (\<open>src/src/legacy.rs\<close>). A directory tree is a
  value: names, files with what reading them gives, sub-directories, and whether listing it
  fails. What the imports of one directory draw is given by the path of that directory.
\<close>

section \<open>Directories\<close>

datatype folder =
  Folder (fo_name: string) (fo_files: "(string \<times> string result) list") (fo_dirs: "folder list")
    (fo_unlistable: "error option")

record import_report =
  lr_cas_imported :: nat
  lr_certs_imported :: nat
  lr_skipped :: "string list"
  lr_failures :: "string list"

definition is_success :: "import_report \<Rightarrow> bool" where
  "is_success r \<longleftrightarrow> lr_failures r = []"

definition join_path :: "string \<Rightarrow> string \<Rightarrow> string" where
  "join_path path name = path @ ''/'' @ name"

definition is_file :: "folder \<Rightarrow> string \<Rightarrow> bool" where
  "is_file f name \<longleftrightarrow> map_of (fo_files f) name \<noteq> None"

text \<open>\<open>read_dir\<close> without hidden directories, in the order of the names.\<close>

definition sorted_subdirs :: "string \<Rightarrow> folder \<Rightarrow> folder list result" where
  "sorted_subdirs path f =
     (case fo_unlistable f of
        Some e \<Rightarrow> with_context (''failed to read '' @ path) (Inl e)
      | None \<Rightarrow> Inr (sort_key fo_name
          (filter (\<lambda>s. \<not> (valid_utf8 (fo_name s) \<and> starts_with ''.'' (fo_name s))) (fo_dirs f))))"

definition dir_name :: "folder \<Rightarrow> string" where
  "dir_name f = (if valid_utf8 (fo_name f) then fo_name f else [])"

definition read_to_string :: "folder \<Rightarrow> string \<Rightarrow> string result" where
  "read_to_string f name =
     (case map_of (fo_files f) name of
        None \<Rightarrow> Inl (External ''No such file or directory (os error 2)'')
      | Some (Inl e) \<Rightarrow> Inl e
      | Some (Inr s) \<Rightarrow> if valid_utf8 s then Inr s
                        else Inl (External ''stream did not contain valid UTF-8''))"

definition read_text :: "string \<Rightarrow> folder \<Rightarrow> string \<Rightarrow> string result" where
  "read_text path f name = with_context (''failed to read '' @ join_path path name) (read_to_string f name)"

definition read_password :: "folder \<Rightarrow> string option" where
  "read_password f =
     (case read_to_string f ''password.txt'' of
        Inl e \<Rightarrow> None
      | Inr text \<Rightarrow>
          (let password = trim_end_matches (\<lambda>c. c = CR \<or> c = LF) text
           in if password = [] then None else Some password))"

definition locate_cas_dir :: "string \<Rightarrow> folder option \<Rightarrow> (string \<times> folder) result" where
  "locate_cas_dir path root =
     (case root of
        None \<Rightarrow> Inl (Bail (path @ '' is not a directory''))
      | Some r \<Rightarrow>
          (case find (\<lambda>f. fo_name f = ''CAs'') (fo_dirs r) of
             Some f \<Rightarrow> Inr (join_path path ''CAs'', f)
           | None \<Rightarrow>
               bind_res (sorted_subdirs path r) (\<lambda>ds.
               if list_ex (\<lambda>f. is_file f ''CA.complete'') ds then Inr (path, r)
               else Inl (Bail (path @ '' does not look like a MiniCA 1.0.x data directory: expected a CAs/ folder '' @
                 ''(the minica.root of the old installation) or CA folders containing CA.complete'')))))"

section \<open>Importing\<close>

text \<open>\<open>{err:#}\<close>: the messages of all causes.\<close>

fun error_chain :: "error \<Rightarrow> string" where
  "error_chain (Context m e) = m @ '': '' @ error_chain e"
| "error_chain e = error_text e"

definition failed_entry :: "string \<Rightarrow> string \<Rightarrow> import_report \<Rightarrow> import_report" where
  "failed_entry label msg r = r\<lparr>lr_failures := lr_failures r @ [label @ '': '' @ msg]\<rparr>"

definition skipped_entry :: "string \<Rightarrow> import_report \<Rightarrow> import_report" where
  "skipped_entry label r = r\<lparr>lr_skipped := lr_skipped r @ [label @ '': already imported'']\<rparr>"

definition read_pair :: "string \<Rightarrow> folder \<Rightarrow> string \<Rightarrow> string \<Rightarrow> (string \<times> string) result" where
  "read_pair path f cert key =
     bind_res (read_text path f cert) (\<lambda>c. bind_res (read_text path f key) (\<lambda>k. Inr (c, k)))"

definition import_cert_dir ::
  "service \<Rightarrow> (string \<Rightarrow> env) \<Rightarrow> string \<Rightarrow> string \<Rightarrow> folder \<Rightarrow> import_report \<times> db \<Rightarrow> import_report \<times> db"
where
  "import_cert_dir sv evs ca_id path f st =
     (let i = dir_name f; label = ''certificate '' @ ca_id @ ''/'' @ i; r = fst st; d = snd st
      in if cert_exists i d then (skipped_entry label r, d)
         else (case read_pair path f ''cert.pem'' ''cert.key'' of
             Inl e \<Rightarrow> (failed_entry label (error_chain e) r, d)
           | Inr (cert, key) \<Rightarrow>
               (case import_cert_with sv (evs path) ca_id (Some i)
                   \<lparr>ic_cert_pem = cert, ic_key_pem = key, ic_password = read_password f\<rparr>
                   (case map_of (fo_files f) ''cert.csr'' of Some (Inr s) \<Rightarrow> Some s | _ \<Rightarrow> None) d of
                  (Inl e, d') \<Rightarrow> (failed_entry label (error_chain e) r, d')
                | (Inr c, d') \<Rightarrow> (r\<lparr>lr_certs_imported := Suc (lr_certs_imported r)\<rparr>, d'))))"

definition complete_certs :: "folder list \<Rightarrow> folder list" where
  "complete_certs ds = filter (\<lambda>f. is_file f ''CERT.complete'') ds"

definition import_cert_dirs ::
  "service \<Rightarrow> (string \<Rightarrow> env) \<Rightarrow> string \<Rightarrow> string \<Rightarrow> folder \<Rightarrow> import_report \<times> db \<Rightarrow> import_report \<times> db"
where
  "import_cert_dirs sv evs ca_id path f st =
     (case sorted_subdirs path f of
        Inl e \<Rightarrow> (failed_entry (''CA '' @ ca_id) (error_text e) (fst st), snd st)
      | Inr ds \<Rightarrow> fold (\<lambda>c. import_cert_dir sv evs ca_id (join_path path (fo_name c)) c) (complete_certs ds) st)"

definition import_ca_dir ::
  "service \<Rightarrow> (string \<Rightarrow> env) \<Rightarrow> string \<Rightarrow> folder \<Rightarrow> import_report \<times> db \<Rightarrow> import_report \<times> db"
where
  "import_ca_dir sv evs path f st =
     (let i = dir_name f; label = ''CA '' @ i; r = fst st; d = snd st
      in if ca_exists i d then import_cert_dirs sv evs i path f (skipped_entry label r, d)
         else (case read_pair path f ''ca-cert.pem'' ''ca-key.pem'' of
             Inl e \<Rightarrow> (failed_entry label (error_chain e) r, d)
           | Inr (cert, key) \<Rightarrow>
               (case import_ca_with_id sv (evs path) (Some i)
                   \<lparr>ia_cert_pem = cert, ia_key_pem = key, ia_password = read_password f\<rparr> d of
                  (Inl e, d') \<Rightarrow> (failed_entry label (error_chain e) r, d')
                | (Inr c, d') \<Rightarrow>
                    import_cert_dirs sv evs i path f (r\<lparr>lr_cas_imported := Suc (lr_cas_imported r)\<rparr>, d'))))"

definition empty_report :: import_report where
  "empty_report = \<lparr>lr_cas_imported = 0, lr_certs_imported = 0, lr_skipped = [], lr_failures = []\<rparr>"

definition complete_cas :: "folder list \<Rightarrow> folder list" where
  "complete_cas ds = filter (\<lambda>f. is_file f ''CA.complete'') ds"

definition import_tree ::
  "service \<Rightarrow> (string \<Rightarrow> env) \<Rightarrow> string \<Rightarrow> folder option \<Rightarrow> db \<Rightarrow> import_report result \<times> db"
where
  "import_tree sv evs path root d =
     (case bind_res (locate_cas_dir path root) (\<lambda>(p, f). bind_res (sorted_subdirs p f) (\<lambda>ds. Inr (p, ds))) of
        Inl e \<Rightarrow> (Inl e, d)
      | Inr (p, ds) \<Rightarrow>
          (case fold (\<lambda>f. import_ca_dir sv evs (join_path p (fo_name f)) f) (complete_cas ds) (empty_report, d) of
             (r, d') \<Rightarrow> (Inr r, d')))"

section \<open>What is there stays there\<close>

definition grows :: "db \<Rightarrow> db \<Rightarrow> bool" where
  "grows d d' \<longleftrightarrow> (schema_ok d \<longrightarrow> schema_ok d' \<and> (\<forall>i. ca_exists i d \<longrightarrow> ca_exists i d') \<and>
     (\<forall>i. cert_exists i d \<longrightarrow> cert_exists i d'))"

lemma grows_refl [simp]: "grows d d"
  by (simp add: grows_def)

lemma grows_trans: "grows a b \<Longrightarrow> grows b c \<Longrightarrow> grows a c"
  by (simp add: grows_def)

lemma exists_row:
  "ca_exists i d \<longleftrightarrow> (\<exists>r \<in> set (cas d). car_id r = i)" "cert_exists i d \<longleftrightarrow> (\<exists>r \<in> set (certs d). cer_id r = i)"
  by (auto simp: ca_exists_def cert_exists_def count_where_def filter_empty_conv)

lemma run_grows: "Nuke \<notin> set ops \<Longrightarrow> grows d (db_run ops d)"
proof -
  assume n: "Nuke \<notin> set ops"
  have "schema_ok (db_run ops d)" if "schema_ok d"
    using that
  proof (induction ops arbitrary: d)
    case (Cons o1 ops)
    have "schema_ok (db_commit o1 d)"
      using Cons.prems db_exec_schema_ok by (cases "db_exec o1 d") (auto simp: db_commit_def)
    then show ?case using Cons.IH by simp
  qed simp
  moreover have "schema_ok d \<Longrightarrow> certs_kept d (db_run ops d)" "schema_ok d \<Longrightarrow> cas_kept d (db_run ops d)"
    using n run_certs_kept run_cas_kept by blast+
  ultimately show ?thesis
    unfolding grows_def exists_row certs_kept_def cas_kept_def cert_evolves_def ca_evolves_def by metis
qed

lemma writing_grows: "writing (\<lambda>o1. o1 \<noteq> Nuke) m \<Longrightarrow> grows d (snd (m d))"
proof -
  assume "writing (\<lambda>o1. o1 \<noteq> Nuke) m"
  then obtain ops where ops: "list_all (\<lambda>o1. o1 \<noteq> Nuke) ops" "snd (m d) = db_run ops d"
    unfolding writing_def by blast
  then have "Nuke \<notin> set ops" by (auto simp: list_all_iff)
  then show ?thesis using run_grows ops(2) by simp
qed

lemma import_cert_grows: "grows d (snd (import_cert_with sv ev c wanted req csr d))"
proof (rule writing_grows)
  show "writing (\<lambda>o1. o1 \<noteq> Nuke) (import_cert_with sv ev c wanted req csr)"
    unfolding import_cert_with_def [abs_def] case_prod_unfold
    by (intro checked_writes writing_locked writing_commit)
      (auto intro!: exI [of _ "Insert_cert _ _ _ _ _"])
qed

lemma settled_grows: "settled d d' \<Longrightarrow> grows d d'"
proof -
  assume st: "settled d d'"
  have "car_id r' = car_id r" if "ca_settled r r'" for r r'
    using that by (simp add: ca_settled_def car_id_def)
  moreover have "list_all2 ca_settled (cas d) (cas d')" using st by (simp add: settled_def)
  ultimately have "ca_exists i d \<Longrightarrow> ca_exists i d'" for i
    unfolding exists_row by (metis list_all2_conv_all_nth in_set_conv_nth)
  moreover have "certs d' = certs d" using st by (simp add: settled_def)
  ultimately show ?thesis using settled_schema_ok [OF _ st] by (simp add: grows_def exists_row(2))
qed

lemma quiet_grows: "grows d (snd (db_read f d))" "grows d (snd (db_give a d))"
  by (simp_all add: db_read_def db_give_def)

lemma then_grows:
  "grows d (snd (m d)) \<Longrightarrow> (\<And>a d1. grows d1 (snd (f a d1))) \<Longrightarrow> grows d (snd (db_then m f d))"
  by (cases "m d") (auto simp: db_then_def intro: grows_trans split: sum.splits)

lemma import_ca_grows: "grows d (snd (import_ca_with_id sv ev wanted req d))"
proof -
  have w: "grows d (snd (db_write (insert_ca now meta k) d))" for now meta k d
    using writing_grows [OF writing_exec [where ?o1.0 = "Insert_ca now meta k"]] by simp
  have b: "grows d (snd (prebuild_truststore sv ev n c pem d))" for n c pem d
    using settled_grows [OF build_truststore_settled] by (simp add: prebuild_truststore_def)
  show ?thesis
    unfolding import_ca_with_id_def store_ca_def by (intro then_grows w b quiet_grows)
qed

section \<open>A second run\<close>

text \<open>An import that succeeds leaves the row with the id, when the id is trimmed.\<close>

lemma import_ca_work_id: "fst (import_ca_work sv ev i req d w) = Inr x \<Longrightarrow> m_id (fst x) = i"
  by (cases "import_ca_work sv ev i req d w")
    (auto simp: import_ca_work_def Let_def act_simps split: if_splits)

lemma imported_ca_exists:
  assumes "schema_ok d" and "import_ca_with_id sv ev (Some i) req d = (Inr v, d')" and "trim i = i"
  shows "ca_exists i d'"
proof -
  obtain meta k where p: "prepare_import_ca sv ev (Some i) req d = Inr (meta, k)"
    and s: "store_ca sv ev (meta, k) d = (Inr v, d')"
    using assms(2) by (auto simp: import_ca_with_id_def db_act_simps)
  have "m_id meta = i"
    using p assms(3)
    by (auto simp: prepare_import_ca_def bind_res_eq_Inr validate_entity_id_def in_workdir_def Let_def
      dest: import_ca_work_id split: if_splits)
  moreover obtain d1 where "schema_ok d'" "get_ca (m_id meta) d' = Inr (v\<lparr>v_crl_url := None\<rparr>)"
    using store_ca_Inr [OF assms(1) s] by metis
  ultimately show ?thesis by (auto simp: get_ca_Inr exists_row active_ca_def)
qed

lemma tried_Inr:
  "(case t of (Inl e, w) \<Rightarrow> Inl e | (Inr a, w) \<Rightarrow> Inr (j, a, w)) = Inr x \<longleftrightarrow>
     (\<exists>a w. t = (Inr a, w) \<and> x = (j, a, w))"
  by (cases t, cases "fst t") auto

lemma imported_cert_exists:
  assumes "schema_ok d" and "import_cert_with sv ev c (Some i) req csr d = (Inr v, d')" and "trim i = i"
  shows "cert_exists i d'"
proof -
  have ok: "schema_ok d'"
    using import_cert_grows [of d sv ev c "Some i" req csr] assms(1,2) by (simp add: grows_def)
  obtain x where x: "with_ca_lock ev 0 c (\<lambda>d. commit_then
      (bind_res (get_ca_secrets c d) (\<lambda>ca. fst (import_work sv ev c i req csr ca (fst x) d (snd x))))
      (\<lambda>(secrets, meta). insert_cert_with_state (ev_clock ev 2) meta secrets None (ev_owner ev))
      (get_cert c i) d) d = (Inr v, d')"
    using assms(2) unfolding import_cert_with_def
  proof (cases rule: checked_Inr)
    case (1 x)
    obtain j info w where x: "x = (j, info, w)" by (cases x)
    have "j = i"
      using 1(1) assms(3)
      by (auto simp: x bind_res_eq_Inr tried_Inr validate_entity_id_def Let_def split: if_splits)
    then show ?thesis using 1(2) that [of "(info, w)"] by (simp add: x)
  qed
  then have "get_cert c i d' = Inr v"
    by (auto simp: with_ca_lock_def commit_then_def split: sum.splits prod.splits)
  then show ?thesis by (auto simp: get_cert_Inr [OF ok] exists_row active_cert_def)
qed

text \<open>
  A step that, if it adds no failure, leaves what \<open>P\<close> says; where \<open>P\<close> holds the step only reports
  what it skips.
\<close>

definition establishes :: "(db \<Rightarrow> bool) \<Rightarrow> (import_report \<times> db \<Rightarrow> import_report \<times> db) \<Rightarrow> bool" where
  "establishes P f \<longleftrightarrow>
     (\<forall>st. schema_ok (snd st) \<longrightarrow> grows (snd st) (snd (f st)) \<and>
        (lr_failures (fst (f st)) = [] \<longrightarrow> lr_failures (fst st) = [] \<and> P (snd (f st))))"

definition lasting :: "(db \<Rightarrow> bool) \<Rightarrow> bool" where
  "lasting P \<longleftrightarrow> (\<forall>d d'. schema_ok d \<longrightarrow> grows d d' \<longrightarrow> P d \<longrightarrow> P d')"

definition only_skips :: "(db \<Rightarrow> bool) \<Rightarrow> (import_report \<times> db \<Rightarrow> import_report \<times> db) \<Rightarrow> bool" where
  "only_skips P f \<longleftrightarrow> (\<forall>r d. P d \<longrightarrow> (\<exists>ls. f (r, d) = (r\<lparr>lr_skipped := lr_skipped r @ ls\<rparr>, d)))"

lemma lasting_exists [intro, simp]: "lasting (ca_exists i)" "lasting (cert_exists i)"
  by (auto simp: lasting_def grows_def)

lemma lasting_all [intro]: "(\<And>x. x \<in> set xs \<Longrightarrow> lasting (P x)) \<Longrightarrow> lasting (\<lambda>d. \<forall>x \<in> set xs. P x d)"
  by (auto simp: lasting_def)

lemma lasting_conj [intro]: "lasting P \<Longrightarrow> lasting Q \<Longrightarrow> lasting (\<lambda>d. P d \<and> Q d)"
  by (auto simp: lasting_def)

lemma establishes_fold:
  assumes "\<And>x. x \<in> set xs \<Longrightarrow> establishes (P x) (f x)" and "\<And>x. x \<in> set xs \<Longrightarrow> lasting (P x)"
  shows "establishes (\<lambda>d. \<forall>x \<in> set xs. P x d) (fold f xs)"
  using assms
proof (induction xs)
  case Nil
  then show ?case by (simp add: establishes_def)
next
  case (Cons x xs)
  have hd: "establishes (P x) (f x)" and l: "lasting (P x)" using Cons.prems by simp_all
  have tl: "establishes (\<lambda>d. \<forall>y \<in> set xs. P y d) (fold f xs)" using Cons by simp
  show ?case
    unfolding establishes_def
  proof (intro allI impI)
    fix st :: "import_report \<times> db"
    assume ok: "schema_ok (snd st)"
    have g: "grows (snd st) (snd (f x st))" using hd ok unfolding establishes_def by blast
    then have ok1: "schema_ok (snd (f x st))" using ok by (simp add: grows_def)
    have g1: "grows (snd (f x st)) (snd (fold f xs (f x st)))" using tl ok1 unfolding establishes_def by blast
    have "lr_failures (fst st) = [] \<and> P x (snd (fold f xs (f x st))) \<and> (\<forall>y \<in> set xs. P y (snd (fold f xs (f x st))))"
      if e: "lr_failures (fst (fold f xs (f x st))) = []"
    proof -
      have "lr_failures (fst (f x st)) = []" "\<forall>y \<in> set xs. P y (snd (fold f xs (f x st)))"
        using tl ok1 e unfolding establishes_def by blast+
      moreover from this have "lr_failures (fst st) = []" "P x (snd (f x st))"
        using hd ok unfolding establishes_def by blast+
      ultimately show ?thesis using l g1 ok1 by (auto simp: lasting_def)
    qed
    then show "grows (snd st) (snd (fold f (x # xs) st)) \<and> (lr_failures (fst (fold f (x # xs) st)) = [] \<longrightarrow>
        lr_failures (fst st) = [] \<and> (\<forall>y \<in> set (x # xs). P y (snd (fold f (x # xs) st))))"
      using grows_trans [OF g g1] by simp
  qed
qed

lemma only_skips_fold:
  assumes "\<And>x. x \<in> set xs \<Longrightarrow> only_skips (P x) (f x)"
  shows "only_skips (\<lambda>d. \<forall>x \<in> set xs. P x d) (fold f xs)"
  using assms
proof (induction xs)
  case Nil
  have "r\<lparr>lr_skipped := lr_skipped r @ []\<rparr> = r" for r :: import_report by simp
  then show ?case unfolding only_skips_def by (metis fold_Nil id_apply)
next
  case (Cons x xs)
  have tl: "only_skips (\<lambda>d. \<forall>y \<in> set xs. P y d) (fold f xs)" and hd: "only_skips (P x) (f x)"
    using Cons by simp_all
  show ?case
    unfolding only_skips_def
  proof (intro allI impI)
    fix r d
    assume p: "\<forall>y \<in> set (x # xs). P y d"
    then obtain l1 where 1: "f x (r, d) = (r\<lparr>lr_skipped := lr_skipped r @ l1\<rparr>, d)"
      using hd unfolding only_skips_def by (meson list.set_intros(1))
    obtain l2 where "fold f xs (r\<lparr>lr_skipped := lr_skipped r @ l1\<rparr>, d) =
        (r\<lparr>lr_skipped := lr_skipped r @ l1\<rparr>\<lparr>lr_skipped := (lr_skipped r @ l1) @ l2\<rparr>, d)"
      using tl p unfolding only_skips_def by (auto dest!: spec [of _ "r\<lparr>lr_skipped := lr_skipped r @ l1\<rparr>"])
    then have "fold f (x # xs) (r, d) = (r\<lparr>lr_skipped := lr_skipped r @ (l1 @ l2)\<rparr>, d)"
      by (simp add: 1)
    then show "\<exists>ls. fold f (x # xs) (r, d) = (r\<lparr>lr_skipped := lr_skipped r @ ls\<rparr>, d)" by blast
  qed
qed

lemma import_cert_dir_establishes:
  "trim (dir_name f) = dir_name f \<Longrightarrow> establishes (cert_exists (dir_name f)) (import_cert_dir sv evs c path f)"
  unfolding establishes_def import_cert_dir_def Let_def failed_entry_def skipped_entry_def
  by (auto split: sum.splits prod.splits intro: imported_cert_exists)
    (metis import_cert_grows snd_conv)+

lemma import_cert_dir_skips: "only_skips (cert_exists (dir_name f)) (import_cert_dir sv evs c path f)"
  by (auto simp: only_skips_def import_cert_dir_def Let_def skipped_entry_def)

text \<open>What a CA directory stands for: the rows of its certificates, and its own.\<close>

definition certs_present :: "string \<Rightarrow> folder \<Rightarrow> db \<Rightarrow> bool" where
  "certs_present path f d \<longleftrightarrow> (case sorted_subdirs path f of Inl e \<Rightarrow> False
     | Inr ds \<Rightarrow> \<forall>c \<in> set (complete_certs ds). cert_exists (dir_name c) d)"

definition ca_present :: "string \<Rightarrow> folder \<Rightarrow> db \<Rightarrow> bool" where
  "ca_present path f d \<longleftrightarrow> ca_exists (dir_name f) d \<and> certs_present path f d"

lemma ca_present_lasting: "lasting (ca_present path f)"
  by (auto simp: ca_present_def [abs_def] certs_present_def lasting_def grows_def split: sum.splits)

text \<open>The names of the sub-directories that the import reads as identifiers.\<close>

definition trimmed_name :: "folder \<Rightarrow> bool" where
  "trimmed_name f \<longleftrightarrow> trim (dir_name f) = dir_name f"

definition trimmed_ca :: "folder \<Rightarrow> bool" where
  "trimmed_ca f \<longleftrightarrow> trimmed_name f \<and> list_all trimmed_name (fo_dirs f)"

lemma sorted_subdirs_set: "sorted_subdirs path f = Inr ds \<Longrightarrow> set ds \<subseteq> set (fo_dirs f)"
  by (auto simp: sorted_subdirs_def with_context_def split: option.splits)

lemma import_cert_dirs_establishes:
  assumes "trimmed_ca f"
  shows "establishes (certs_present path f) (import_cert_dirs sv evs c path f)"
proof (cases "sorted_subdirs path f")
  case (Inl e)
  then show ?thesis
    by (simp add: establishes_def import_cert_dirs_def failed_entry_def)
next
  case (Inr ds)
  let ?step = "\<lambda>x. import_cert_dir sv evs c (join_path path (fo_name x)) x"
  have "trim (dir_name x) = dir_name x" if "x \<in> set (complete_certs ds)" for x
    using that assms sorted_subdirs_set [OF Inr]
    by (auto simp: complete_certs_def trimmed_ca_def trimmed_name_def list_all_iff)
  then have "establishes (\<lambda>d. \<forall>x \<in> set (complete_certs ds). cert_exists (dir_name x) d)
      (fold ?step (complete_certs ds))"
    by (intro establishes_fold import_cert_dir_establishes) auto
  then show ?thesis
    by (simp add: certs_present_def [abs_def] import_cert_dirs_def [abs_def] Inr)
qed

lemma import_cert_dirs_skips: "only_skips (certs_present path f) (import_cert_dirs sv evs c path f)"
proof (cases "sorted_subdirs path f")
  case (Inl e)
  then show ?thesis by (simp add: only_skips_def certs_present_def)
next
  case (Inr ds)
  have "only_skips (\<lambda>d. \<forall>x \<in> set (complete_certs ds). cert_exists (dir_name x) d)
      (fold (\<lambda>x. import_cert_dir sv evs c (join_path path (fo_name x)) x) (complete_certs ds))"
    by (intro only_skips_fold import_cert_dir_skips)
  then show ?thesis
    by (simp add: certs_present_def [abs_def] import_cert_dirs_def [abs_def] Inr)
qed

lemma establishes_after:
  assumes "establishes P f" and "schema_ok (snd st)" and "grows (snd st) (snd st1)"
    and "lr_failures (fst st1) = [] \<longrightarrow> lr_failures (fst st) = [] \<and> Q (snd st1)" and "lasting Q"
  shows "grows (snd st) (snd (f st1)) \<and>
    (lr_failures (fst (f st1)) = [] \<longrightarrow> lr_failures (fst st) = [] \<and> Q (snd (f st1)) \<and> P (snd (f st1)))"
proof -
  have ok: "schema_ok (snd st1)" using assms(2,3) by (simp add: grows_def)
  then have "grows (snd st1) (snd (f st1))"
    "lr_failures (fst (f st1)) = [] \<longrightarrow> lr_failures (fst st1) = [] \<and> P (snd (f st1))"
    using assms(1) unfolding establishes_def by blast+
  then show ?thesis using assms(3-5) ok grows_trans unfolding lasting_def by blast
qed

lemma import_ca_dir_establishes:
  assumes "trimmed_ca f"
  shows "establishes (ca_present path f) (import_ca_dir sv evs path f)"
  unfolding establishes_def
proof (intro allI impI)
  fix st :: "import_report \<times> db"
  assume ok: "schema_ok (snd st)"
  let ?i = "dir_name f"
  note certs = establishes_after [OF import_cert_dirs_establishes [OF assms] ok,
    where Q = "ca_exists ?i", OF _ _ lasting_exists(1), unfolded conj_assoc]
  show "grows (snd st) (snd (import_ca_dir sv evs path f st)) \<and>
      (lr_failures (fst (import_ca_dir sv evs path f st)) = [] \<longrightarrow>
       lr_failures (fst st) = [] \<and> ca_present path f (snd (import_ca_dir sv evs path f st)))"
  proof (cases "ca_exists ?i (snd st)")
    case True
    then show ?thesis
      using certs [of "(skipped_entry (''CA '' @ ?i) (fst st), snd st)" sv evs ?i path]
      by (simp add: import_ca_dir_def ca_present_def skipped_entry_def Let_def)
  next
    case new: False
    show ?thesis
    proof (cases "read_pair path f ''ca-cert.pem'' ''ca-key.pem''")
      case (Inl e)
      then show ?thesis using new by (simp add: import_ca_dir_def failed_entry_def Let_def)
    next
      case (Inr ck)
      obtain cert key where ck: "ck = (cert, key)" by (cases ck)
      let ?req = "\<lparr>ia_cert_pem = cert, ia_key_pem = key, ia_password = read_password f\<rparr>"
      let ?m = "import_ca_with_id sv (evs path) (Some ?i) ?req (snd st)"
      have g: "grows (snd st) (snd ?m)" by (rule import_ca_grows)
      show ?thesis
      proof (cases "fst ?m")
        case (Inl e)
        then show ?thesis
          using new Inr ck g by (cases ?m) (simp add: import_ca_dir_def failed_entry_def Let_def)
      next
        case (Inr v)
        then obtain d1 where m: "?m = (Inr v, d1)" by (cases ?m) simp
        have "ca_exists ?i d1"
          using imported_ca_exists [OF ok m] assms by (simp add: trimmed_ca_def trimmed_name_def)
        moreover have "import_ca_dir sv evs path f st = import_cert_dirs sv evs ?i path f
            (fst st\<lparr>lr_cas_imported := Suc (lr_cas_imported (fst st))\<rparr>, d1)"
          using new \<open>read_pair _ _ _ _ = _\<close> by (simp add: import_ca_dir_def ck m Let_def)
        ultimately show ?thesis
          using certs [of "(fst st\<lparr>lr_cas_imported := Suc (lr_cas_imported (fst st))\<rparr>, d1)" sv evs ?i path]
            g by (simp add: m ca_present_def)
      qed
    qed
  qed
qed

lemma import_ca_dir_skips: "only_skips (ca_present path f) (import_ca_dir sv evs path f)"
  unfolding only_skips_def
proof (intro allI impI)
  fix r d
  assume p: "ca_present path f d"
  let ?l = "''CA '' @ dir_name f @ '': already imported''"
  obtain ls where "import_cert_dirs sv evs (dir_name f) path f (r\<lparr>lr_skipped := lr_skipped r @ [?l]\<rparr>, d) =
      (r\<lparr>lr_skipped := lr_skipped r @ [?l]\<rparr>\<lparr>lr_skipped := (lr_skipped r @ [?l]) @ ls\<rparr>, d)"
    using import_cert_dirs_skips [of path f sv evs "dir_name f"] p unfolding only_skips_def ca_present_def
    by (auto dest!: spec [of _ "r\<lparr>lr_skipped := lr_skipped r @ [?l]\<rparr>"])
  then have "import_ca_dir sv evs path f (r, d) = (r\<lparr>lr_skipped := lr_skipped r @ (?l # ls)\<rparr>, d)"
    using p by (simp add: import_ca_dir_def ca_present_def skipped_entry_def Let_def)
  then show "\<exists>ls. import_ca_dir sv evs path f (r, d) = (r\<lparr>lr_skipped := lr_skipped r @ ls\<rparr>, d)" by blast
qed

text \<open>The CA directories of a tree.\<close>

definition ca_folders :: "string \<Rightarrow> folder option \<Rightarrow> (string \<times> folder list) result" where
  "ca_folders path root =
     bind_res (locate_cas_dir path root) (\<lambda>(p, f). bind_res (sorted_subdirs p f) (\<lambda>ds. Inr (p, complete_cas ds)))"

lemma import_tree_folders:
  "import_tree sv evs path root d =
     (case ca_folders path root of
        Inl e \<Rightarrow> (Inl e, d)
      | Inr (p, fs) \<Rightarrow>
          (let st = fold (\<lambda>f. import_ca_dir sv evs (join_path p (fo_name f)) f) fs (empty_report, d)
           in (Inr (fst st), snd st)))"
  by (auto simp: import_tree_def ca_folders_def bind_res_def Let_def split: sum.splits prod.splits)

definition trimmed_tree :: "string \<Rightarrow> folder option \<Rightarrow> bool" where
  "trimmed_tree path root \<longleftrightarrow>
     (case ca_folders path root of Inl e \<Rightarrow> True | Inr (p, fs) \<Rightarrow> list_all trimmed_ca fs)"

lemma import_tree_twice:
  assumes "schema_ok d" and "import_tree sv evs path root d = (Inr r1, d1)" and "is_success r1"
    and "trimmed_tree path root"
  obtains p fs ls where "ca_folders path root = Inr (p, fs)"
    and "\<forall>f \<in> set fs. ca_present (join_path p (fo_name f)) f d1"
    and "import_tree sv' evs' path root d1 = (Inr (empty_report\<lparr>lr_skipped := ls\<rparr>), d1)"
proof -
  obtain p fs where fs: "ca_folders path root = Inr (p, fs)"
    using assms(2) by (auto simp: import_tree_folders split: sum.splits)
  let ?step = "\<lambda>sv evs f. import_ca_dir sv evs (join_path p (fo_name f)) f"
  let ?P = "\<lambda>d. \<forall>f \<in> set fs. ca_present (join_path p (fo_name f)) f d"
  have run: "fold (?step sv evs) fs (empty_report, d) = (r1, d1)"
    using assms(2) by (auto simp: import_tree_folders fs Let_def)
  have "trimmed_ca f" if "f \<in> set fs" for f
    using that assms(4) by (simp add: trimmed_tree_def fs list_all_iff)
  then have "establishes ?P (fold (?step sv evs) fs)"
    by (intro establishes_fold import_ca_dir_establishes ca_present_lasting)
  then have "lr_failures (fst (fold (?step sv evs) fs (empty_report, d))) = [] \<longrightarrow>
      ?P (snd (fold (?step sv evs) fs (empty_report, d)))"
    using assms(1) unfolding establishes_def by (metis (no_types, lifting) snd_conv)
  then have there: "?P d1" using assms(3) by (simp only: run fst_conv snd_conv is_success_def simp_thms)
  have "only_skips ?P (fold (?step sv' evs') fs)"
    by (intro only_skips_fold import_ca_dir_skips)
  then obtain ls where
    "fold (?step sv' evs') fs (empty_report, d1) = (empty_report\<lparr>lr_skipped := lr_skipped empty_report @ ls\<rparr>, d1)"
    using there unfolding only_skips_def by blast
  then have "import_tree sv' evs' path root d1 = (Inr (empty_report\<lparr>lr_skipped := ls\<rparr>), d1)"
    by (simp add: import_tree_folders fs empty_report_def)
  then show thesis by (rule that [OF fs there])
qed

end
