(* ===== verification/Legacy_Samples.thy ===== *)
theory Legacy_Samples
  imports Legacy Service_Samples
begin

text \<open>
  An import of a small directory tree: with an openssl that succeeds and prints nothing, a
  CA directory is imported, and one whose name has a space at its end is imported once and
  fails in every later run.
\<close>

section \<open>An openssl that prints nothing\<close>

definition silent_tools :: tools where
  "silent_tools = toy_tools\<lparr>t_run := (\<lambda>h args fs. Some \<lparr>tr_exit = 0, tr_stdout = [], tr_stderr = [],
     tr_files = toy_after args fs\<rparr>)\<rparr>"

definition silent_service :: service where
  "silent_service = toy_service\<lparr>sv_tools := silent_tools, sv_crl_enabled := False\<rparr>"

lemma silent_works: "works silent_tools"
  by (auto simp: works_def silent_tools_def toy_tools_def toy_after_def fold_writes toy_written_def)

lemma silent_simps [simp]: "sv_tools silent_service = silent_tools" "sv_crl_enabled silent_service = False"
  by (simp_all add: silent_service_def)

lemma silent_reads: "from_utf8_lossy [] = []" "key_value_lines (CHR ''='') [] = []" "text_is_ca []" "trim [] = []"
  by code_simp+

text \<open>\<open>leaves v m\<close>: \<open>m\<close> returns \<open>v\<close> and removes nothing.\<close>

definition leaves :: "'a \<Rightarrow> 'a act \<Rightarrow> bool" where
  "leaves v m \<longleftrightarrow> (\<forall>w. \<exists>w'. m w = (Inr v, w') \<and> wd_dirs w' = wd_dirs w \<and>
     (\<forall>f. wd_files w f \<noteq> None \<longrightarrow> wd_files w' f \<noteq> None))"

lemma leaves_run: "leaves [] (run_ok silent_tools args)"
  by (auto simp: leaves_def run_ok_def run_in_def silent_tools_def and_then_def give_def toy_after_def fold_writes)

lemma leaves_write: "leaves () (write_file f s)"
  by (auto simp: leaves_def write_file_def)

lemma leaves_give: "leaves v (give v)"
  by (simp add: leaves_def give_def)

lemma leaves_lift: "r = Inr v \<Longrightarrow> leaves v (lift_res r)"
  by (simp add: leaves_def lift_res_def)

lemma leaves_then:
  assumes "leaves v m" and "leaves u (f v)"
  shows "leaves u (and_then m f)"
  unfolding leaves_def
proof
  fix w
  obtain w1 where 1: "m w = (Inr v, w1)" "wd_dirs w1 = wd_dirs w" "\<And>f. wd_files w f \<noteq> None \<Longrightarrow> wd_files w1 f \<noteq> None"
    using assms(1) unfolding leaves_def by blast
  obtain w2 where 2: "f v w1 = (Inr u, w2)" "wd_dirs w2 = wd_dirs w1" "\<And>f. wd_files w1 f \<noteq> None \<Longrightarrow> wd_files w2 f \<noteq> None"
    using assms(2) unfolding leaves_def by blast
  show "\<exists>w'. and_then m f w = (Inr u, w') \<and> wd_dirs w' = wd_dirs w \<and> (\<forall>f. wd_files w f \<noteq> None \<longrightarrow> wd_files w' f \<noteq> None)"
    using 1 2 by (intro exI [of _ w2]) (simp add: and_then_def)
qed

lemma leaves_goes: "leaves v m \<Longrightarrow> goes F D (f v) G E \<Longrightarrow> goes F D (and_then m f) G E"
proof -
  assume l: "leaves v m" and g: "goes F D (f v) G E"
  show ?thesis
    unfolding goes_def
  proof (intro allI impI)
    fix w
    assume a: "at_files F D w"
    obtain w1 where 1: "m w = (Inr v, w1)" "wd_dirs w1 = wd_dirs w" "\<And>f. wd_files w f \<noteq> None \<Longrightarrow> wd_files w1 f \<noteq> None"
      using l unfolding leaves_def by blast
    then have "at_files F D w1" using a by (auto simp: at_files_def)
    then show "\<exists>a w'. and_then m f w = (Inr a, w') \<and> at_files G E w'"
      using g 1(1) by (auto simp: goes_def and_then_def)
  qed
qed

lemma leaves_in_context: "leaves v m \<Longrightarrow> leaves v (in_context c m)"
  unfolding leaves_def in_context_def with_context_def by (metis (no_types, lifting) prod.case sum.case(2))

lemma leaves_attempt: "leaves v m \<Longrightarrow> leaves (Inr v) (attempt m)"
  unfolding leaves_def attempt_def by (metis prod.case)

lemma leaves_inspect:
  "leaves [] (inspect_cert silent_tools pem)" "leaves [] (inspect_cert_text silent_tools pem)"
  "leaves [] (inspect_cert_subject_rfc2253 silent_tools pem)" "leaves True (is_ca_cert silent_tools pem)"
  "leaves () (check_key_matches_cert silent_tools c k)"
  unfolding inspect_cert_def is_ca_cert_def inspect_cert_text_def check_key_matches_cert_def same_pubkey_def
    inspect_cert_subject_rfc2253_def Let_def
  by (rule leaves_then [OF leaves_write] leaves_then [OF leaves_run] leaves_then [OF leaves_in_context [OF leaves_run]] leaves_give leaves_then
    | (simp add: silent_reads strip_prefix_def leaves_give))+

lemma leaves_derive: "leaves (from_rfc2253 []) (derive_subject silent_service pem [])"
  unfolding derive_subject_def silent_simps
  by (rule leaves_then [OF leaves_attempt [OF leaves_inspect(3)]])
    (simp add: or_default_def info_value_def leaves_give)

lemma import_work_goes:
  assumes "ia_password req = None"
  shows "goes {} {} (import_ca_work silent_service (toy_env p i) n req empty_db) {} {}"
proof -
  have u: "leaves () (lift_res (ensure_unique_ca_common_name cn empty_db))" for cn
    by (simp add: leaves_lift ensure_unique_ca_common_name_def ca_common_name_exists_def count_where_def empty_db_def)
  have pw: "LF \<notin> set ''secret''" "CR \<notin> set ''secret''" by code_simp+
  show ?thesis
    unfolding import_ca_work_def silent_simps Let_def
    by (rule goes_and_then [OF goes_write] leaves_goes [OF leaves_inspect(1)] leaves_goes [OF leaves_inspect(4)]
          leaves_goes [OF leaves_in_context [OF leaves_inspect(5)]] leaves_goes [OF leaves_attempt [OF leaves_inspect(2)]]
          leaves_goes [OF leaves_derive] leaves_goes [OF u] goes_done
          goes_and_then [OF goes_finish_ca_files [OF silent_works]]
        | simp add: assms password_of_def pw [simplified])+
qed

section \<open>The tree\<close>

definition old_tree :: "string \<Rightarrow> folder" where
  "old_tree name = Folder ''minica.root'' [] [Folder ''CAs'' []
     [Folder name [(''CA.complete'', Inr []), (''ca-cert.pem'', Inr ''cert''), (''ca-key.pem'', Inr ''key'')] [] None,
      Folder ''.cache'' [] [] None] None] None"

abbreviation old_run :: "string \<Rightarrow> db \<Rightarrow> import_report result \<times> db" where
  "old_run name d \<equiv>
     import_tree silent_service (\<lambda>path. toy_env ''p'' ''e9'') ''/old'' (Some (old_tree name)) d"

lemma old_import:
  assumes "validate_entity_id wanted = Inr ''old-ca''"
  obtains v d' where "import_ca_with_id silent_service (toy_env p i) (Some wanted)
     \<lparr>ia_cert_pem = ''cert'', ia_key_pem = ''key'', ia_password = None\<rparr> empty_db = (Inr v, d')"
    and "map car_id (cas d') = [''old-ca'']"
proof -
  let ?ev = "toy_env p i"
  let ?req = "\<lparr>ia_cert_pem = ''cert'', ia_key_pem = ''key'', ia_password = None\<rparr>"
  have c: "validate_password None = Inr ()" "\<not> ca_exists ''old-ca'' empty_db"
    by code_simp+
  obtain meta s where w: "in_workdir ?ev 0 (import_ca_work silent_service ?ev ''old-ca'' ?req empty_db) = Inr (meta, s)"
    using goes_in_workdir [OF import_work_goes [of ?req p i "''old-ca''"], of ?ev 0] by auto
  have m: "m_id meta = ''old-ca''"
    using w by (auto simp: in_workdir_def dest: import_ca_work_id)
  have p: "prepare_import_ca silent_service ?ev (Some wanted) ?req empty_db = Inr (meta, s)"
    using c assms w by (simp add: prepare_import_ca_def attach_initial_crl_def)
  obtain v d' where st: "store_ca silent_service ?ev (meta, s) empty_db = (Inr v, d')"
    using store_ca_goes [OF schema_ok_empty, of meta silent_service ?ev s] c(2) m by auto
  then obtain d1 where i: "insert_ca (ev_clock ?ev 3) meta s empty_db = Inr d1" and se: "settled d1 d'"
    using store_ca_Inr [OF schema_ok_empty] by blast
  have "map car_id (cas d1) = [''old-ca'']"
    using i m unfolding insert_ca_Inr by (simp add: empty_db_def car_id_def)
  moreover have "map car_id (cas d') = map car_id (cas d1)"
    using se unfolding settled_def
    by (auto simp: ca_settled_def car_id_def list_all2_conv_all_nth intro!: nth_equalityI)
  ultimately show thesis
    using that [of v d'] st p by (simp add: import_ca_with_id_def db_then_def db_read_def)
qed

lemma old_tree_folders:
  "ca_folders ''/old'' (Some (old_tree ''old-ca'')) = Inr (''/old/CAs'', [Folder ''old-ca''
     [(''CA.complete'', Inr []), (''ca-cert.pem'', Inr ''cert''), (''ca-key.pem'', Inr ''key'')] [] None])"
  "ca_folders ''/old'' (Some (old_tree ''old-ca '')) = Inr (''/old/CAs'', [Folder ''old-ca ''
     [(''CA.complete'', Inr []), (''ca-cert.pem'', Inr ''cert''), (''ca-key.pem'', Inr ''key'')] [] None])"
  by code_simp+

lemma old_files:
  assumes "f = Folder name [(''CA.complete'', Inr []), (''ca-cert.pem'', Inr ''cert''), (''ca-key.pem'', Inr ''key'')] [] None"
  shows "read_pair path f ''ca-cert.pem'' ''ca-key.pem'' = Inr (''cert'', ''key'')" and "read_password f = None"
    and "import_cert_dirs sv evs c path f st = st"
proof -
  have v: "valid_utf8 ''cert''" "valid_utf8 ''key''" by code_simp+
  show "read_pair path f ''ca-cert.pem'' ''ca-key.pem'' = Inr (''cert'', ''key'')"
    using v by (simp add: assms read_pair_def read_text_def read_to_string_def with_context_def)
  show "read_password f = None"
    by (simp add: assms read_password_def read_to_string_def)
  show "import_cert_dirs sv evs c path f st = st"
    by (simp add: assms import_cert_dirs_def sorted_subdirs_def complete_certs_def)
qed

lemma old_run_first:
  assumes "name = ''old-ca'' \<or> name = ''old-ca ''"
  obtains d1 where "old_run name empty_db = (Inr (empty_report\<lparr>lr_cas_imported := 1\<rparr>), d1)"
    and "map car_id (cas d1) = [''old-ca'']"
proof -
  let ?f = "Folder name [(''CA.complete'', Inr []), (''ca-cert.pem'', Inr ''cert''), (''ca-key.pem'', Inr ''key'')] [] None"
  have "validate_entity_id ''old-ca'' = Inr ''old-ca''" "validate_entity_id ''old-ca '' = Inr ''old-ca''"
    "valid_utf8 ''old-ca''" "valid_utf8 ''old-ca ''"
    by code_simp+
  then have n: "validate_entity_id name = Inr ''old-ca''" "dir_name ?f = name"
    using assms by (auto simp: dir_name_def)
  obtain v d1 where i: "import_ca_with_id silent_service (toy_env ''p'' ''e9'') (Some name)
     \<lparr>ia_cert_pem = ''cert'', ia_key_pem = ''key'', ia_password = None\<rparr> empty_db = (Inr v, d1)"
    and d: "map car_id (cas d1) = [''old-ca'']"
    using old_import [OF n(1)] by blast
  have "\<not> ca_exists name empty_db"
    by (simp add: ca_exists_def count_where_def empty_db_def)
  then have "import_ca_dir silent_service (\<lambda>path. toy_env ''p'' ''e9'') path ?f (empty_report, empty_db) =
      (empty_report\<lparr>lr_cas_imported := 1\<rparr>, d1)" for path
    using i n(2) by (simp add: import_ca_dir_def old_files [OF refl] Let_def empty_report_def)
  moreover have "ca_folders ''/old'' (Some (old_tree name)) = Inr (''/old/CAs'', [?f])"
    using assms old_tree_folders by auto
  ultimately show thesis using that d by (simp add: import_tree_folders Let_def)
qed

text \<open>The second run of the tree with the untrimmed name.\<close>

lemma untrimmed_directory_fails_again:
  "\<exists>d1 r. old_run ''old-ca '' empty_db = (Inr (empty_report\<lparr>lr_cas_imported := 1\<rparr>), d1) \<and>
     old_run ''old-ca '' d1 = (Inr r, d1) \<and> \<not> is_success r"
proof -
  let ?f = "Folder ''old-ca '' [(''CA.complete'', Inr []), (''ca-cert.pem'', Inr ''cert''), (''ca-key.pem'', Inr ''key'')] [] None"
  let ?req = "\<lparr>ia_cert_pem = ''cert'', ia_key_pem = ''key'', ia_password = None\<rparr>"
  obtain d1 where d1: "old_run ''old-ca '' empty_db = (Inr (empty_report\<lparr>lr_cas_imported := 1\<rparr>), d1)"
    and c: "map car_id (cas d1) = [''old-ca'']"
    using old_run_first by blast
  obtain r where "cas d1 = [r]" "car_id r = ''old-ca''" using c by auto
  then have e: "ca_exists ''old-ca'' d1" "\<not> ca_exists ''old-ca '' d1"
    by (simp_all add: exists_row)
  have v: "validate_password None = Inr ()" "validate_entity_id ''old-ca '' = Inr ''old-ca''" "dir_name ?f = ''old-ca ''"
    by code_simp+
  have "import_ca_with_id silent_service (toy_env ''p'' ''e9'') (Some ''old-ca '') ?req d1 =
      (Inl (Bail ''certificate authority id already exists: old-ca''), d1)"
    using e v(1,2) by (simp add: import_ca_with_id_def db_then_def db_read_def prepare_import_ca_def)
  then have "\<exists>m. import_ca_dir silent_service (\<lambda>path. toy_env ''p'' ''e9'') path ?f (empty_report, d1) =
      (failed_entry (''CA old-ca '') m empty_report, d1)" for path
    using e(2) v(3) by (simp add: import_ca_dir_def old_files [OF refl] Let_def) blast
  then obtain m where "import_ca_dir silent_service (\<lambda>path. toy_env ''p'' ''e9'') ''/old/CAs/old-ca '' ?f (empty_report, d1) =
      (failed_entry (''CA old-ca '') m empty_report, d1)"
    by blast
  then have "old_run ''old-ca '' d1 = (Inr (failed_entry (''CA old-ca '') m empty_report), d1)"
    by (simp add: import_tree_folders old_tree_folders(2) join_path_def)
  moreover have "\<not> is_success (failed_entry (''CA old-ca '') m empty_report)"
    by (simp add: is_success_def failed_entry_def)
  ultimately show ?thesis using d1 by blast
qed

end
