(* ===== verification/Claims_Files.thy ===== *)
theory Claims_Files
  imports Pkcs12 Legacy_Samples
begin

text \<open>
  The properties of the two components that produce and consume files of other programs: the
  import of a MiniCA 1.0 data directory, and the writer of PKCS#12 truststores.
\<close>

section \<open>The legacy import\<close>

text \<open>
  C12. The legacy import can be repeated. If a run over a directory tree reports no failure
  and the names of its CA and certificate directories are trimmed, then every completed
  directory has its row in the database under its own name, and every further run over the
  tree, with whatever clock, directories and openssl, imports nothing, reports no failure,
  and leaves the database as it is.
\<close>

theorem legacy_import_idempotent:
  assumes "schema_ok d" and "import_tree sv evs path root d = (Inr r1, d1)" and "is_success r1"
    and "trimmed_tree path root"
  shows "\<exists>p fs labels. ca_folders path root = Inr (p, fs) \<and>
    (\<forall>f \<in> set fs. ca_present (join_path p (fo_name f)) f d1) \<and>
    import_tree sv' evs' path root d1 = (Inr (empty_report\<lparr>lr_skipped := labels\<rparr>), d1)"
  using import_tree_twice [OF assms] by metis

lemma legacy_import_idempotent_witness:
  "\<exists>d1 labels. old_run ''old-ca'' empty_db = (Inr (empty_report\<lparr>lr_cas_imported := 1\<rparr>), d1) \<and>
     old_run ''old-ca'' d1 = (Inr (empty_report\<lparr>lr_skipped := labels\<rparr>), d1)"
proof -
  obtain d1 where r: "old_run ''old-ca'' empty_db = (Inr (empty_report\<lparr>lr_cas_imported := 1\<rparr>), d1)"
    using old_run_first by blast
  moreover have "trimmed_tree ''/old'' (Some (old_tree ''old-ca''))" by code_simp
  moreover have "is_success (empty_report\<lparr>lr_cas_imported := 1\<rparr>)" by code_simp
  ultimately show ?thesis
    using legacy_import_idempotent [OF schema_ok_empty, of silent_service "\<lambda>path. toy_env ''p'' ''e9''" "''/old''"
      "Some (old_tree ''old-ca'')" "empty_report\<lparr>lr_cas_imported := 1\<rparr>" d1 silent_service "\<lambda>path. toy_env ''p'' ''e9''"]
    by metis
qed

section \<open>Truststores\<close>

text \<open>
  C13. A native truststore can be read back. A reader of DER that follows the structure of RFC
  7292 finds in the store the certificate of the PEM file; next to the contents it finds the
  salt, and a MAC, which is the one that the code's key derivation and HMAC give for exactly
  these contents, this salt and the password.
\<close>

theorem truststore_readable:
  assumes "native_truststore cr salt pem alias_name password = Inr store" and "length store < 2 ^ 64"
  shows "\<exists>der safe. pem_to_der cr pem = Inr der \<and>
    at_path [0, 1, 1, 0, 0, 0, 1, 0, 0, 0, 1, 0, 1, 0] store = Some der \<and>
    at_path [0, 1, 1, 0] store = Some safe \<and> at_path [0, 2, 1] store = Some salt \<and>
    at_path [0, 2, 0, 1] store = Some (store_mac cr salt password safe)"
proof -
  obtain der where der: "pem_to_der cr pem = Inr der"
    and s: "store = sequence [der_integer 3, data_content_info (authenticated_safe der alias_name),
      mac_data (store_mac cr salt password (authenticated_safe der alias_name)) salt]"
    using assms(1) by (auto simp: native_truststore_def bind_res_eq_Inr Let_def)
  note paths = store_paths [OF s assms(2)]
  have "at_path [0, 1, 1, 0, 0, 0, 1, 0, 0, 0, 1, 0, 1, 0] store = Some der"
    using at_path_append [OF paths(1), of "[0, 0, 1, 0, 0, 0, 1, 0, 1, 0]"] path_safe [OF paths(4)] by simp
  with der paths(1-3) show ?thesis by blast
qed

definition plain_crypto :: crypto where
  "plain_crypto = \<lparr>cr_sha256 = (\<lambda>m. m), cr_b64 = (\<lambda>s. Inr [0x30, 0x00])\<rparr>"

definition plain_pem :: string where
  "plain_pem = ''-----BEGIN CERTIFICATE-----'' @ [LF] @ ''MAA='' @ [LF] @ ''-----END CERTIFICATE-----'' @ [LF]"

lemma length_tlv:
  "length c < 128 \<Longrightarrow> length (tlv t c) = length c + 2" "length (tlv t c) \<le> length c + 10"
  using significant_length [of "be_bytes 8 (length c)"] by (simp_all add: tlv_def Let_def)

lemma length_sorted: "length (concat (sort items)) = length (concat (items :: octets list))"
proof -
  have "mset (map length (sort items)) = mset (map length items)" by simp
  then have "sum_list (map length (sort items)) = sum_list (map length items)"
    by (metis sum_mset_sum_list)
  then show ?thesis by (simp add: length_concat)
qed

lemma length_parts:
  "length (concat xs) < 128 \<Longrightarrow> length (sequence xs) = length (concat xs) + 2"
  "length (concat xs) < 128 \<Longrightarrow> length (set_of xs) = length (concat xs) + 2"
  "length c < 128 \<Longrightarrow> length (octet_string c) = length c + 2"
  "length c < 128 \<Longrightarrow> length (explicit k c) = length c + 2"
  by (simp_all add: sequence_def set_of_def octet_string_def explicit_def length_tlv length_sorted)

lemma oid_lengths:
  "length (oid ''1.2.840.113549.1.9.20'') = 11" "length (oid ''2.16.840.1.113894.746875.1.1'') = 14"
  "length (oid ''2.5.29.37.0'') = 6" "length (oid ''1.2.840.113549.1.9.22.1'') = 12"
  "length (oid ''1.2.840.113549.1.12.10.1.3'') = 13" "length (oid ''1.2.840.113549.1.7.1'') = 11"
  "length (oid ''2.16.840.1.101.3.4.2.1'') = 11"
  by (simp_all add: oid_def digits_value_def byte_def tlv_def arc_chunk_def more_chunk.simps Let_def)

lemma mac_length: "length (hmac_sha256 cr key m) = 32"
  by (simp add: hmac_sha256_def Let_def)

lemma plain_store:
  obtains store where
    "native_truststore plain_crypto (replicate 8 7) plain_pem ''ca'' ''pw'' = Inr store" "length store < 2 ^ 64"
proof -
  have "valid_utf8 plain_pem" "split_str ''-----BEGIN CERTIFICATE-----'' plain_pem =
      Some ([], [LF] @ ''MAA='' @ [LF] @ ''-----END CERTIFICATE-----'' @ [LF])" by code_simp+
  then have der: "pem_to_der plain_crypto plain_pem = Inr [0x30, 0x00]"
    by (simp add: pem_to_der_def plain_crypto_def)
  let ?safe = "authenticated_safe [0x30, 0x00] ''ca''"
  have "length (bmp_string ''ca'') = 6"
    by (simp add: bmp_string_def encode_utf16_ascii byte_def length_tlv)
  then have "length (attribute ''1.2.840.113549.1.9.20'' (bmp_string ''ca'')) = 21"
    by (simp add: attribute_def length_parts oid_lengths)
  moreover have "length (attribute ''2.16.840.1.113894.746875.1.1'' (oid ''2.5.29.37.0'')) = 24"
    by (simp add: attribute_def length_parts oid_lengths)
  ultimately have attrs: "length (set_of [attribute ''1.2.840.113549.1.9.20'' (bmp_string ''ca''),
      attribute ''2.16.840.1.113894.746875.1.1'' (oid ''2.5.29.37.0'')]) = 47"
    by (simp add: length_parts)
  have "length (sequence [oid ''1.2.840.113549.1.9.22.1'', explicit 0 (octet_string [0x30, 0x00])]) = 20"
    by (simp add: length_parts oid_lengths)
  with attrs have safe: "length ?safe = 105"
    by (simp add: authenticated_safe_def data_content_info_def length_parts oid_lengths)
  let ?mac = "store_mac plain_crypto (replicate 8 7) ''pw'' ?safe"
  have n: "length (der_integer 3) \<le> 15" "length (der_integer 2048) \<le> 15"
    by (auto simp: der_integer_def Let_def significant_def be_bytes_def upt_conv_Cons length_tlv)
  have "length ?mac = 32" by (simp add: store_mac_def mac_length)
  then have m: "length (mac_data ?mac (replicate 8 7)) \<le> 110"
    using n(2) by (simp add: mac_data_def length_parts oid_lengths)
  have d: "length (data_content_info ?safe) = 122"
    using safe by (simp add: data_content_info_def length_parts oid_lengths)
  have "length (sequence [der_integer 3, data_content_info ?safe, mac_data ?mac (replicate 8 7)]) \<le> 300"
    unfolding sequence_def by (rule order_trans [OF length_tlv(2)]) (use n(1) m d in simp)
  then have "length (sequence [der_integer 3, data_content_info ?safe, mac_data ?mac (replicate 8 7)]) < 2 ^ 64"
    by (rule le_less_trans) simp
  then show ?thesis using der by (intro that) (simp_all add: native_truststore_def Let_def)
qed

lemma truststore_readable_witness:
  "\<exists>store. native_truststore plain_crypto (replicate 8 7) plain_pem ''ca'' ''pw'' = Inr store \<and>
     at_path [0, 2, 1] store = Some (replicate 8 7)"
proof -
  obtain store where "native_truststore plain_crypto (replicate 8 7) plain_pem ''ca'' ''pw'' = Inr store"
    "length store < 2 ^ 64" by (rule plain_store)
  with truststore_readable [OF this] show ?thesis by blast
qed

text \<open>
  The additions of the key derivation do not lose a carry. The loop over octets with a
  carry of 16 bits computes, on blocks of any equal length, the sum of the two blocks as
  big-endian numbers and one, modulo the size of a block, as RFC 7292 asks for.
\<close>

theorem block_addition_exact:
  assumes "length b = length block"
  shows "be_value (add_block b block) = (be_value block + be_value b + 1) mod 256 ^ length block \<and>
    length (add_block b block) = length block"
  using add_block_value [OF assms] by (simp add: add_block_def add_rev_length)

lemma block_addition_exact_witness:
  "be_value (add_block [0xFF, 0xFF] [0xFF, 0x01]) = (be_value [0xFF, 0x01] + be_value [0xFF, 0xFF] + 1) mod 256 ^ 2"
  using block_addition_exact [of "[0xFF, 0xFF]" "[0xFF, 0x01]"] by simp

text \<open>
  Where the writer is used: the runner of openssl calls it when openssl cannot make the store.
  With the writer for \<open>t_store\<close>, what \<open>truststore_pkcs12\<close> returns is the file openssl left, or a
  native store for the certificate.
\<close>

definition native_tools :: "crypto \<Rightarrow> octets \<Rightarrow> tools \<Rightarrow> tools" where
  "native_tools cr salt t = t\<lparr>t_store := (\<lambda>pem alias_name password.
     bind_res (native_truststore cr salt pem alias_name password)
       (\<lambda>store. Inr (map (\<lambda>b. char_of (unat b)) store)))\<rparr>"

lemma truststore_from_writer:
  assumes "truststore_pkcs12 (native_tools cr salt t) pem alias_name password w = (Inr s, w')"
  shows "wd_files w' ''truststore.p12'' = Some s \<or>
    (\<exists>store. native_truststore cr salt pem alias_name password = Inr store \<and>
       s = map (\<lambda>b. char_of (unat b)) store)"
  using assms
  by (auto simp: truststore_pkcs12_def native_tools_def act_simps bind_res_eq_Inr split: if_splits)

end
