(* ===== verification/Spec2Isabelle.thy ===== *)
theory Spec2Isabelle
  imports Claims_Data Claims_Signing Claims_Service Claims_Web Claims_Files
begin

text \<open>
  A verification of MiniCA (\<open>src/src/\<close>), a server that keeps certificate authorities and
  their certificates in an SQLite database, lets openssl issue, renew and revoke them, and
  offers all of this as HTML pages and as a JSON API.

  \<^bold>\<open>The program and its model.\<close> The program has four layers, each modelled by a group of
  theories; every definition keeps the name it has in the code, but for suffixes where HOL
  has the name already.

  The database layer (\<open>db.rs\<close>). \<open>Sql_Table\<close> has the SQL statements as operations on lists of
  rows, \<open>Db_State\<close> the five tables with the keys and references of the schema as the
  invariant \<open>schema_ok\<close>. \<open>Db_Ca\<close>, \<open>Db_Cert\<close>, \<open>Db_Account\<close>, \<open>Db_Lock\<close> and \<open>Db_Backup\<close> model one
  public method of \<open>Db\<close> each by a function from a database to an error or a database: a
  transaction. \<open>Db_Ops\<close> collects the transactions in the type \<open>db_op\<close>; \<open>db_run\<close> runs a
  sequence of them, a failed one being rolled back, which is how several clients interleave.

  The texts (\<open>service.rs\<close>, \<open>openssl.rs\<close>, \<open>config.rs\<close>, \<open>models.rs\<close>). \<open>Rust_Str\<close> and \<open>Rust_Text\<close>
  model what the program uses of Rust's text API, a text being its bytes in UTF-8, and
  \<open>Ip_Addr\<close> the standard parser and printer of addresses. On them stand \<open>Subject\<close>
  (distinguished names), \<open>Validate\<close> (input checks), \<open>Openssl_Text\<close> (index file, configuration,
  printed output), \<open>Config\<close> (environment tokens, base path) and \<open>Models\<close>.

  The service (\<open>service.rs\<close>, \<open>openssl.rs\<close>). \<open>Openssl_Run\<close> has the command sequences run in a
  work directory, a state of files and a log of commands. \<open>Signing\<close> has issuing, importing,
  renewing and revoking certificates under the signing lock, \<open>Ca_Service\<close> the operations on
  CAs, downloads, inspection and the repair of stored metadata, \<open>Accounts\<close> users and
  templates, \<open>Backup_File\<close> the backup document. \<open>Service_Ops\<close> collects the operations in
  \<open>service_op\<close>; \<open>service_exec\<close> runs one, with its outcome and the database it leaves. What an
  operation draws (identifiers, clock readings, passwords, directories) is in \<open>env\<close>.

  The web server (\<open>auth.rs\<close>, \<open>web.rs\<close>, \<open>i18n.rs\<close>). \<open>Auth\<close> has Basic authentication with its
  cache of logins, the identity headers of a trusted proxy, and request tokens; \<open>Web_Text\<close>
  the text helpers; \<open>Web\<close> one definition per handler, collected in the type \<open>handler\<close> and
  run by \<open>handle\<close> on a \<open>world\<close> of the database and the login cache.

  Two components exchange files with other programs. \<open>Pkcs12\<close> is the program's own writer of
  truststores (\<open>pkcs12.rs\<close>), used where openssl cannot make them: DER, key derivation, MAC.
  \<open>Legacy\<close> is the import of a data directory of MiniCA 1.0 (\<open>legacy.rs\<close>), a walk over a tree of
  directories that calls the imports of the service.

  \<^bold>\<open>How the parts interact.\<close> A handler authenticates, checks the token, and runs one operation
  of the service; an operation of the service is a sequence of transactions with openssl runs
  between them (property C24); transactions are atomic. So what holds of every sequence of
  transactions, in any interleaving, holds of the server. The signing lock is the only
  coordination between operations: a row of a table with an owner and an expiry.

  \<^bold>\<open>What is shown.\<close> In this theory: the lock makes read-sign-write atomic and refuses owners
  that lost it (C1, C2); revocations are for good (C3); the integrity of the schema, of stored
  truststores is invariant, and so is that a form has one default template, until a backup is
  restored (C4 to C6); backups restore what they were
  taken from, exactly the consistent ones are accepted, and untrusted ones are validated (C7
  to C10). In \<open>Claims_Data\<close>: subjects cannot be forged, names and ids are inert where they are
  used, canonical forms of validated data, resolution of tokens (C11, C14 to C18). In
  \<open>Claims_Files\<close>: a legacy import can be repeated, a native truststore can be read back (C12,
  C13). In \<open>Claims_Signing\<close>: a signing operation that fails leaves nothing behind, one that succeeds has
  stored what was asked for and what openssl made, and accepted requests are granted (C19 to
  C23). In \<open>Claims_Service\<close>: the refinement into transactions and the lock protocol, what
  creation, renewals and revocations leave behind, that repairs are done once, and the
  refinement of the textual update of the index (C24 to C33). In \<open>Claims_Web\<close>: whom a request
  is taken for, that only an admin with a valid token changes anything but what is derived
  from CA certificates (truststores, and the key profile and digest read off a certificate),
  which requests of anyone may have stored, that nothing is served
  without a login, that redirects stay on the site, that filled texts hold no markup, and that
  pages show every match (C34 to C40).

  The lemmas behind them: \<open>Db_Safety\<close> (safety of runs of transactions), \<open>Signing_Facts\<close>,
  \<open>Ca_Facts\<close> and \<open>Repair_Facts\<close> (what successful operations did), \<open>Openssl_Live\<close>,
  \<open>Signing_Live\<close> and \<open>Service_Live\<close> (operations succeed when their commands do), \<open>Ip_Roundtrip\<close>,
  \<open>Web_Facts\<close> (handlers: calm, guarded, signed, local; \<open>refreshed\<close>: databases that differ in
  derived data). Interfaces are locales, each
  interpreted on the model: \<open>keyed_table\<close> (tables with a key), \<open>lease_lock\<close> (the signing lock),
  \<open>bulk_insert\<close> (the loops of a restore), \<open>escaper\<close> (the two escaping loops), \<open>signing_commit\<close>
  (the shape of a signing operation). \<open>Samples\<close>, \<open>Signing_Samples\<close>, \<open>Service_Samples\<close> and \<open>Legacy_Samples\<close> hold the
  concrete databases, and a small openssl, on which the properties are instantiated.

  \<^bold>\<open>Parameters and hypotheses.\<close> openssl, the zip and PKCS#12 writers are the functions of
  \<open>tools\<close>: a command gets the files of its directory, and the commands before it, and gives an
  exit status, output and files; \<open>native_tools\<close> of \<open>Claims_Files\<close> puts the model of the PKCS#12
  writer in its place. Properties that need more name it: \<open>frame_ok\<close> (a command writes
  only the files its documentation names), \<open>works\<close> (commands succeed and write their outputs),
  \<open>reads_ok\<close> (printing commands depend on their input only), \<open>revoke_ok\<close> (a revocation marks
  the entry in the index). bcrypt, SHA-256, base64, JSON, YAML and the networks of ipnet are
  functions the definitions take, and so are the dates chrono parses (\<open>date_range\<close>: within its
  range of years) and, for the filter of the CA list, Unicode lower case. Integers that can
  overflow are kept in the range of \<open>i64\<close> (\<open>add64\<close>, \<open>mul64\<close>, \<open>sub64\<close> wrap); tokens are compared,
  and truststores built, as 8-bit words. All functions are total: loops are structural or have
  a measure, so there is no fuel.

  \<^bold>\<open>Not modelled.\<close> Starting openssl as a process (pipes, timeout, killing; the model has its
  result); opening, locking and migrating the database file and SQLite itself; the HTML of
  pages, notices and the language cookie; routing and decoding of requests, which are axum's;
  panics of a blocking task; the choice of a language by Accept-Language, which compares float
  weights, and the message catalogues; logging; a failing write into a work directory
  (\<open>write_file\<close> succeeds); the clock read for every row of a restore (it is read once); the
  command line client (\<open>main.rs\<close>), argument parsing and HTTP calls.
\<close>

section \<open>Transactions\<close>

text \<open>
  C1. The signing lock makes read-sign-write atomic. Let an owner \<open>p\<close> take the lock of CA
  \<open>c\<close>. Whatever transactions other clients commit before \<open>p\<close>'s signing transaction
  succeeds, they leave the keys, certificate, index, serial and revocation list of the CA
  as they were when \<open>p\<close> took the lock: no update is lost.
\<close>

theorem no_lost_update:
  assumes "schema_ok d" and "db_exec (Acquire now c p ttl) d = Inr d'"
    and "list_all (\<lambda>opn. \<not> acts_as c p opn) ops"
    and "signs c p sign" and "db_exec sign (db_run ops d') = Inr d''"
  shows "secrets_of c (db_run ops d') = secrets_of c d'"
proof -
  have "schema_ok d'" using assms(1,2) by (rule db_exec_schema_ok [rotated])
  then have "lock_safe c p d' (db_run ops d')"
    using assms(3) by (intro run_lock_safe) (auto simp: list_all_iff)
  then show ?thesis using signs_needs_lock [OF assms(4,5)] by (simp add: lock_safe_def)
qed

lemma no_lost_update_witness:
  "secrets_of ''c1'' (db_run sample_others (db_commit sample_acquire sample_db)) =
   secrets_of ''c1'' (db_commit sample_acquire sample_db)"
  by (rule no_lost_update [where d = sample_db and now = 100 and p = "''p''" and ttl = 30000
        and sign = sample_signing
        and d'' = "db_commit sample_signing (db_run sample_others (db_commit sample_acquire sample_db))"])
    (code_simp+)

text \<open>
  C2. An owner that lost the lock cannot write. Once another owner \<open>q\<close> has taken the lock
  of \<open>c\<close> (its time was over), every signing transaction of the former owner \<open>p\<close> fails
  with the message the code gives, whatever others do in between.
\<close>

theorem stale_signer_refused:
  assumes "schema_ok d" and "q \<noteq> p" and "db_exec (Acquire now c q ttl) d = Inr d'"
    and "list_all (\<lambda>opn. \<not> acts_as c p opn) ops" and "signs c p sign"
  shows "db_exec sign (db_run ops d') = Inl (Bail ''lost CA signing lock'')"
proof -
  have "locks_ok d" using assms(1) by (simp add: locks_ok_def schema_defs)
  then have "\<not> db_holds d' c p"
    using ca_lease.acquire_displaces [of d now c q ttl d' p] assms(2,3) by simp
  moreover have "schema_ok d'" using assms(1,3) by (rule db_exec_schema_ok [rotated])
  ultimately have "\<not> db_holds (db_run ops d') c p"
    using assms(4) by (intro lock_not_regained) (auto simp: list_all_iff)
  then show ?thesis by (rule signs_lost_lock [OF assms(5)])
qed

lemma stale_signer_refused_witness:
  "db_exec sample_signing (db_run sample_others
     (db_commit sample_takeover (db_commit sample_acquire sample_db))) =
   Inl (Bail ''lost CA signing lock'')"
  by (rule stale_signer_refused [where d = "db_commit sample_acquire sample_db" and now = 40000
        and c = "''c1''" and p = "''p''" and q = "''q''" and ttl = 30000])
    (code_simp+)

text \<open>
  C3. A revocation is for good. If a certificate is revoked at some moment, then after any
  further transactions (short of wiping the database) the row with its id exists, is still
  revoked, and has the key, the certificate and the validity it had: nothing renews it.
\<close>

theorem revoked_for_good:
  assumes "schema_ok d" and "Nuke \<notin> set ops" and "r \<in> set (certs d)"
    and "cer_revoked_at r \<noteq> None"
  shows "\<exists>r' \<in> set (certs (db_run ops d)). cer_id r' = cer_id r \<and> cer_revoked_at r' \<noteq> None \<and>
    k_cert_pem (cer_secrets r') = k_cert_pem (cer_secrets r) \<and>
    k_key_pem (cer_secrets r') = k_key_pem (cer_secrets r) \<and>
    m_valid_days (cer_meta r') = m_valid_days (cer_meta r)"
proof -
  from run_certs_kept [OF assms(1,2)] assms(3) obtain r' where
    "r' \<in> set (certs (db_run ops d))" "cert_evolves r r'"
    by (auto simp: certs_kept_def)
  with assms(4) show ?thesis by (auto simp: cert_evolves_def)
qed

definition sample_old :: cert_row where
  "sample_old = sample_cert ''e2'' ''c1'' ''old'' (Some 99)"

lemma revoked_for_good_witness:
  "\<exists>r' \<in> set (certs (db_run (sample_acquire # sample_others) sample_db)).
     cer_id r' = cer_id sample_old \<and> cer_revoked_at r' \<noteq> None \<and>
     k_cert_pem (cer_secrets r') = k_cert_pem (cer_secrets sample_old) \<and>
     k_key_pem (cer_secrets r') = k_key_pem (cer_secrets sample_old) \<and>
     m_valid_days (cer_meta r') = m_valid_days (cer_meta sample_old)"
  by (rule revoked_for_good) (code_simp+)

text \<open>
  C4. Every database the operations can produce from an empty one has the integrity the
  schema declares: unique ids, user names and template names, certificates and locks that
  refer to existing CAs.
\<close>

theorem reachable_schema_ok:
  assumes "db_reachable d"
  shows "schema_ok d"
  using assms
proof induction
  case start
  show ?case by (rule schema_ok_empty)
next
  case (step d opn d')
  then show ?case by (auto intro: db_exec_schema_ok)
qed

lemma reachable_schema_ok_witness: "schema_ok (db_commit (Insert_user 5 ''u'' ''ann'' ''h'' ''admin'') empty_db)"
proof (rule reachable_schema_ok)
  have "db_exec (Insert_user 5 ''u'' ''ann'' ''h'' ''admin'') empty_db =
      Inr (db_commit (Insert_user 5 ''u'' ''ann'' ''h'' ''admin'') empty_db)"
    by code_simp
  then show "db_reachable (db_commit (Insert_user 5 ''u'' ''ann'' ''h'' ''admin'') empty_db)"
    by (rule db_reachable.step [OF db_reachable.start])
qed

text \<open>
  C5. A stored truststore always belongs to the CA certificate stored beside it. \<open>fits c t\<close>
  says that \<open>t\<close> can be built from certificate \<open>c\<close>; if clients only store what they built
  from the certificate they name, then after any run each CA's truststore is empty or
  built from its current certificate, renewals and concurrent builds included.
\<close>

theorem truststore_current:
  assumes "schema_ok d" and "truststores_ok fits d"
    and "\<forall>opn \<in> set ops. \<forall>c t. sets_truststore opn c t \<longrightarrow> fits c t"
  shows "truststores_ok fits (db_run ops d)"
proof -
  have "schema_ok (db_run ops d) \<and> truststores_ok fits (db_run ops d)"
  proof (rule db_run_invariant)
    fix opn s s'
    assume "opn \<in> set ops" "schema_ok s \<and> truststores_ok fits s" "db_exec opn s = Inr s'"
    then show "schema_ok s' \<and> truststores_ok fits s'"
      using assms(3) exec_truststores_ok [of opn s s' fits] db_exec_schema_ok by blast
  qed (use assms in blast)
  then show ?thesis ..
qed

lemma truststore_current_witness:
  "truststores_ok (\<lambda>c t. t = ''ts'')
     (db_run [Set_truststore ''c1'' ''-----BEGIN CERTIFICATE-----'' ''ts'',
              Acquire 100 ''c1'' ''p'' 30000,
              Renew_ca 101 ''c1'' ''newcert'' ''p12'' 101 365 None [] ''p''] sample_db)"
  by (rule truststore_current) (code_simp, code_simp, simp)

text \<open>
  C6. Each creation form has at most one default template. Saving a default template for a
  form leaves it with at most one, whatever the database held before, also several defaults
  out of a restored backup; and once the form has at most one, it keeps at most one in every
  further run of transactions, other templates saved as default included, until a backup is
  restored (a restore does not check the rule).
\<close>

theorem one_default_kept:
  assumes "schema_ok d" and "kind \<in> {Ca, Certificate}"
    and "default_count kind d \<le> 1 \<or>
      (\<exists>t new d1. first = Save_template t new \<and> default_for kind t \<and> db_exec first d = Inr d1)"
    and "\<forall>now s. Restore_backup now s \<notin> set (first # ops)"
  shows "default_count kind (db_run (first # ops) d) \<le> 1"
  using assms(3)
proof
  assume "default_count kind d \<le> 1"
  then show ?thesis using assms by (intro run_default_count)
next
  assume "\<exists>t new d1. first = Save_template t new \<and> default_for kind t \<and> db_exec first d = Inr d1"
  then obtain t new d1 where f: "save_template t new d = Inr d1" "default_for kind t" "db_exec first d = Inr d1"
    by auto
  then have "default_count kind d1 \<le> 1"
    using save_template_default_count assms(1,2) by blast
  moreover have "schema_ok d1" using f(3) assms(1) by (rule db_exec_schema_ok)
  ultimately show ?thesis
    using assms(2,4) f(3) run_default_count [of d1 kind ops] by (simp add: db_commit_def)
qed

lemma one_default_kept_witness:
  "default_count Ca (db_run [Save_template (sample_template ''t3'' ''all'' Both True) True,
                             Save_template (sample_template ''t2'' ''roots'' Ca True) False]
     (sample_db\<lparr>templates := [sample_template ''t1'' ''web'' Ca True, sample_template ''t2'' ''roots'' Both True]\<rparr>)) \<le> 1"
proof (rule one_default_kept)
  let ?d = "sample_db\<lparr>templates := [sample_template ''t1'' ''web'' Ca True, sample_template ''t2'' ''roots'' Both True]\<rparr>"
  let ?o = "Save_template (sample_template ''t3'' ''all'' Both True) True"
  show "schema_ok ?d" by code_simp
  have "is_ok (db_exec ?o ?d)" "default_for Ca (sample_template ''t3'' ''all'' Both True)" by code_simp+
  then show "default_count Ca ?d \<le> 1 \<or>
      (\<exists>t new d1. ?o = Save_template t new \<and> default_for Ca t \<and> db_exec ?o ?d = Inr d1)"
    unfolding is_ok_iff by blast
qed simp_all

section \<open>Backup and restore\<close>

text \<open>
  C7. A restored backup is the database that was backed up. The snapshot of a consistent
  database restores into an empty one; users and templates come back as they were, CAs
  with an empty truststore and everything else unchanged, certificates unchanged, both
  marked for a metadata check; no lock survives; and a second backup equals the first.
\<close>

theorem backup_restores:
  assumes "schema_ok d" and "backup_stable d"
  shows "\<exists>d'. restore_backup now (take_snapshot d) empty_db = Inr d' \<and>
    mset (users d') = mset (users d) \<and> mset (templates d') = mset (templates d) \<and>
    mset (cas d') = mset (map reset_ca (cas d)) \<and>
    mset (certs d') = mset (map reset_cert (certs d)) \<and> ca_locks d' = [] \<and>
    take_snapshot d' = take_snapshot d"
proof (intro exI conjI)
  let ?d' = "restored_db now (take_snapshot d)"
  note d' = restored_snapshot [OF assms, of now]
  show "restore_backup now (take_snapshot d) empty_db = Inr ?d'"
    by (simp add: restore_backup_Inr [OF schema_ok_empty] snapshot_is_ok [OF assms(1)])
  show "mset (users ?d') = mset (users d)" "mset (templates ?d') = mset (templates d)"
    "ca_locks ?d' = []"
    by (simp_all add: d' db_list_users_def query_templates_def)
  show "mset (cas ?d') = mset (map reset_ca (cas d))"
    by (simp add: d' ca_order_def)
  show "mset (certs ?d') = mset (map reset_cert (certs d))"
    unfolding d' using mset_cert_order [OF assms(1)] by (simp flip: mset_map) (metis mset_map)
  show "take_snapshot ?d' = take_snapshot d" by (rule snapshot_restored [OF assms])
qed

lemma backup_restores_witness:
  "\<exists>d'. restore_backup 7 (take_snapshot sample_db) empty_db = Inr d' \<and>
    mset (users d') = mset (users sample_db) \<and> mset (templates d') = mset (templates sample_db) \<and>
    mset (cas d') = mset (map reset_ca (cas sample_db)) \<and>
    mset (certs d') = mset (map reset_cert (certs sample_db)) \<and> ca_locks d' = [] \<and>
    take_snapshot d' = take_snapshot sample_db"
  by (rule backup_restores) (code_simp+)

text \<open>
  C8. A restore is all or nothing, and this is when it is all: exactly when the database is
  empty, the ids, user names and template names of the snapshot are distinct, and every
  certificate is listed under its own CA. Otherwise it returns an error and writes nothing.
\<close>

theorem restore_accepts_iff:
  assumes "schema_ok d"
  shows "is_ok (restore_backup now s d) \<longleftrightarrow> is_empty d \<and> snapshot_ok s"
  unfolding is_ok_iff restore_backup_Inr [OF assms] is_empty_iff [OF assms] by blast

lemma restore_accepts_iff_witness:
  "is_ok (restore_backup 7 (take_snapshot sample_db) sample_db) \<longleftrightarrow>
     is_empty sample_db \<and> snapshot_ok (take_snapshot sample_db)"
  by (rule restore_accepts_iff) code_simp

text \<open>
  C9. The exported document carries the whole snapshot: importing it validates every id,
  PEM block, serial, name and template again and finds exactly the snapshot that was
  exported, whatever base64 implementation is used.
\<close>

theorem export_import:
  assumes "codec enc dec" and "snapshot_valid (take_snapshot d)" and "schema_ok d"
  shows "import_backup dec now (export_backup enc (take_snapshot d)) empty_db =
    Inr (restored_db now (take_snapshot d))"
  using assms by (rule import_exported)

lemma export_import_witness:
  "import_backup (\<lambda>s. Inr (rev s)) 7 (export_backup rev (take_snapshot sample_db)) empty_db =
    Inr (restored_db 7 (take_snapshot sample_db))"
  by (rule export_import) (simp add: codec_def, code_simp, code_simp)

text \<open>
  C10. What an untrusted document can put into the database: after a successful import every
  id is a safe one, roles and scopes are the program's own words, template values pass
  validation, and certificates sit under their own CA; the tables are consistent.
\<close>

theorem imported_backup_valid:
  assumes "import_backup dec now b d = Inr d'" and "schema_ok d"
  shows "schema_ok d' \<and>
    list_all user_valid (users d') \<and> list_all template_valid (templates d') \<and>
    list_all (\<lambda>r. validate_backup_id (car_id r) = Inr ()) (cas d') \<and>
    list_all (\<lambda>r. validate_backup_id (cer_id r) = Inr () \<and> cer_ca_id r \<in> car_id ` set (cas d')) (certs d')"
proof -
  from assms(1) obtain s where s: "backup_to_snapshot dec b = Inr s" "restore_backup now s d = Inr d'"
    by (auto simp: import_backup_def res_simps split: if_splits)
  from s(2) have ok: "snapshot_ok s" and d': "d' = restored_db now s"
    by (simp_all add: restore_backup_Inr [OF assms(2)])
  have valid: "snapshot_valid s" using s(1) by (rule backup_to_snapshot_sound)
  have schema: "schema_ok d'" unfolding d' using ok by (rule restored_db_schema_ok)
  have "user_valid (restored_user now u)" if "user_valid u" for u
    using that by (simp add: user_valid_def restored_user_def)
  then have us: "list_all user_valid (users d')"
    using valid by (auto simp: d' restored_db_def snapshot_valid_def list_all_iff)
  have ts: "list_all template_valid (templates d')"
    using valid by (simp add: d' restored_db_def snapshot_valid_def)
  have ids: "list_all (\<lambda>r. validate_backup_id (car_id r) = Inr ()) (cas d')"
    "list_all (\<lambda>r. validate_backup_id (cer_id r) = Inr ()) (certs d')"
    using valid by (auto simp: d' restored_db_def snapshot_valid_def list_all_iff ca_valid_def cert_valid_def)
  show ?thesis using schema us ts ids by (auto simp: schema_defs list_all_iff)
qed

definition sample_restored :: db where
  "sample_restored = restored_db 7 (take_snapshot sample_db)"

lemma sample_import:
  "import_backup (\<lambda>s. Inr (rev s)) 7 (export_backup rev (take_snapshot sample_db)) empty_db =
    Inr sample_restored"
  unfolding sample_restored_def by (rule import_exported) (simp add: codec_def, code_simp, code_simp)

lemma imported_backup_valid_witness:
  "schema_ok sample_restored \<and>
    list_all user_valid (users sample_restored) \<and> list_all template_valid (templates sample_restored) \<and>
    list_all (\<lambda>r. validate_backup_id (car_id r) = Inr ()) (cas sample_restored) \<and>
    list_all (\<lambda>r. validate_backup_id (cer_id r) = Inr () \<and>
      cer_ca_id r \<in> car_id ` set (cas sample_restored)) (certs sample_restored)"
  by (rule imported_backup_valid [OF sample_import schema_ok_empty])

end
